theory Spec2Isabelle
  imports Complex_Main "HOL-Library.Multiset"
begin

chapter \<open>Monte-Carlo simulators (mcBase.h) and implied volatility (analytics.h)\<close>

text \<open>
  A shallow embedding of the four simulators of \<^verbatim>\<open>mcBase.h\<close> (\<^verbatim>\<open>mcSimul\<close>,
  \<^verbatim>\<open>mcParallelSimul\<close>, \<^verbatim>\<open>mcSimulAAD\<close>, \<^verbatim>\<open>mcParallelSimulAAD\<close>, with \<^verbatim>\<open>initSimul\<close>
  and the default \<^verbatim>\<open>RNG::skipTo\<close>) and of \<^verbatim>\<open>blackScholesIvol\<close> of \<^verbatim>\<open>analytics.h\<close>.

  Conventions.
  \<^item> A \<^verbatim>\<open>double\<close> is a \<^typ>\<open>real\<close>. The simulators only store, copy and negate
    doubles, which is exact in IEEE arithmetic; \<^verbatim>\<open>blackScholesIvol\<close> is studied for its
    control flow (which local is assigned on which branch), not for rounding.
  \<^item> A \<^verbatim>\<open>size_t\<close> is a \<^typ>\<open>nat\<close>: every index of the simulators is below \<^verbatim>\<open>nPath\<close>, the
    size of an allocated vector. The \<^verbatim>\<open>int\<close> counter of \<^verbatim>\<open>RNG::skipTo\<close> keeps its width.
  \<^item> An abstract class is a record of its virtual methods over the type of the object's
    state; a method that mutates its receiver returns the new state, a method with an
    output parameter returns what it stores there.
  \<^item> The memory a simulator works on (the referents of its reference parameters and its
    locals) is a record; each statement of the source updates it.
\<close>

section \<open>mcBase.h: scenarios, products, models, random number generators\<close>

type_synonym Time = real

record 'T scenario =
  spot :: 'T

text \<open>
  \<^verbatim>\<open>Product<T>\<close>: \<^verbatim>\<open>timeline()\<close>, \<^verbatim>\<open>payoff(path)\<close> and \<^verbatim>\<open>clone()\<close>, all \<^verbatim>\<open>const\<close>.
\<close>

record ('p, 'T) Product =
  timeline :: "'p \<Rightarrow> Time list"
  payoff :: "'p \<Rightarrow> 'T scenario list \<Rightarrow> 'T"
  clone_Product :: "'p \<Rightarrow> 'p"

text \<open>
  \<^verbatim>\<open>Model<T>\<close>: \<^verbatim>\<open>init\<close> and \<^verbatim>\<open>putOnTape\<close> mutate the model; \<^verbatim>\<open>simDim\<close>,
  \<^verbatim>\<open>generatePath\<close> (which fills the pre-allocated \<^verbatim>\<open>path\<close> from \<^verbatim>\<open>gaussVec\<close>), \<^verbatim>\<open>clone\<close> and
  \<^verbatim>\<open>parameters\<close> are \<^verbatim>\<open>const\<close>.
\<close>

record ('m, 'T) Model =
  init_Model :: "Time list \<Rightarrow> 'm \<Rightarrow> 'm"
  simDim_Model :: "'m \<Rightarrow> nat"
  generatePath :: "'m \<Rightarrow> real list \<Rightarrow> 'T scenario list"
  clone_Model :: "'m \<Rightarrow> 'm"
  parameters :: "'m \<Rightarrow> 'T list"
  putOnTape :: "'m \<Rightarrow> 'm"

text \<open>
  \<^verbatim>\<open>RNG\<close>: \<^verbatim>\<open>nextG(gaussVec)\<close> fills the pre-allocated vector and advances the generator,
  so it returns the vector and the new state. \<^verbatim>\<open>skipTo\<close> takes a \<^verbatim>\<open>long\<close>.
\<close>

record 'r RNG =
  init_RNG :: "nat \<Rightarrow> 'r \<Rightarrow> 'r"
  nextG :: "'r \<Rightarrow> real list \<times> 'r"
  clone_RNG :: "'r \<Rightarrow> 'r"
  simDim_RNG :: "'r \<Rightarrow> nat"
  skipTo :: "int \<Rightarrow> 'r \<Rightarrow> 'r"

subsection \<open>The default \<^verbatim>\<open>RNG::skipTo\<close> (lines 84-88)\<close>

text \<open>
  \<^verbatim>\<open>for (int i = 0; i < b; ++i) nextG(dummy);\<close> with \<^verbatim>\<open>const long b\<close>. The counter is an
  \<^verbatim>\<open>int\<close>, 32 bits wide, compared with a \<^verbatim>\<open>long\<close> (64 bits on LP64 targets): the
  comparison converts \<^verbatim>\<open>i\<close> to \<^verbatim>\<open>long\<close>. Incrementing an \<^verbatim>\<open>int\<close> that holds \<^verbatim>\<open>INT_MAX\<close> is
  a signed overflow, undefined behaviour in C++; the model returns it as an error value.
\<close>

definition INT_MAX :: int where
  "INT_MAX = 2 ^ 31 - 1"

datatype undefined_behaviour = SignedIntOverflow

function skipTo_loop :: "'r RNG \<Rightarrow> int \<Rightarrow> int \<Rightarrow> 'r \<Rightarrow> undefined_behaviour + 'r" where
  "skipTo_loop R i b r =
     (if i < b then
        (let r' = snd (nextG R r)
         in if i = INT_MAX then Inl SignedIntOverflow
            else skipTo_loop R (i + 1) b r')
      else Inr r)"
  by pat_completeness auto
termination
  by (relation "measure (\<lambda>(R, i, b, r). nat (b - i))") auto

declare skipTo_loop.simps [simp del]

definition RNG_skipTo :: "'r RNG \<Rightarrow> int \<Rightarrow> 'r \<Rightarrow> undefined_behaviour + 'r" where
  "RNG_skipTo R b r = skipTo_loop R 0 b r"

text \<open>
  The state after one more draw, and draw number \<open>n\<close> (0-based) of the stream that starts
  in state \<open>r\<close>: the vector that the \<open>(n+1)\<close>-th call of \<^verbatim>\<open>nextG\<close> returns.
\<close>

definition advance :: "'r RNG \<Rightarrow> 'r \<Rightarrow> 'r" where
  "advance R r = snd (nextG R r)"

definition draw :: "'r RNG \<Rightarrow> 'r \<Rightarrow> nat \<Rightarrow> real list" where
  "draw R r n = fst (nextG R ((advance R ^^ n) r))"

subsection \<open>Loops and the antithetic block\<close>

text \<open>\<^verbatim>\<open>for (size_t i = lo; i < n; i++) body(i)\<close> on a state.\<close>

function forLoop :: "nat \<Rightarrow> nat \<Rightarrow> (nat \<Rightarrow> 's \<Rightarrow> 's) \<Rightarrow> 's \<Rightarrow> 's" where
  "forLoop i n body s = (if i < n then forLoop (i + 1) n body (body i s) else s)"
  by pat_completeness auto
termination
  by (relation "measure (\<lambda>(i, n, body, s). n - i)") auto

declare forLoop.simps [simp del]

text \<open>
  The block that obtains the next Gaussian vector is the same text in the four simulators
  (lines 116-135, 201-220, 293-312 and 483-503). It acts on the generator in use, the
  Gaussian vector and the toggle \<^verbatim>\<open>antiPath\<close>.
\<close>

definition antitheticStep ::
  "'r RNG \<Rightarrow> bool \<Rightarrow> 'r \<times> real list \<times> bool \<Rightarrow> 'r \<times> real list \<times> bool" where
  "antitheticStep R antithetic = (\<lambda>(r, gaussVec, antiPath).
     if \<not> antithetic then (snd (nextG R r), fst (nextG R r), antiPath)
     else if \<not> antiPath then (snd (nextG R r), fst (nextG R r), True)
     else (r, map uminus gaussVec, False))"

section \<open>mcSimul (lines 93-141)\<close>

text \<open>
  The memory of the sequential simulators: the referents of the three reference
  parameters, the result vector, the two clones and the loop's locals. \<^verbatim>\<open>mcSimulAAD\<close>
  uses the same variables with \<^verbatim>\<open>T = Number\<close>.
\<close>

record ('p, 'm, 'r) arguments =
  prd :: 'p
  mdl :: 'm
  rng :: 'r

record ('p, 'm, 'r, 'T) results = "('p, 'm, 'r) arguments" +
  res :: "'T list"

record ('p, 'm, 'r, 'T) clones = "('p, 'm, 'r, 'T) results" +
  cMdl :: 'm
  cRng :: 'r

record ('p, 'm, 'r, 'T) simul_state = "('p, 'm, 'r, 'T) clones" +
  gaussVec :: "real list"
  path :: "'T scenario list"
  antiPath :: bool

text \<open>
  The body of the loop (lines 116-137). It is the same for every scalar type \<^verbatim>\<open>T\<close>, and
  leaves any further component of the memory alone.
\<close>

definition mcSimul_body ::
  "('p, 'T) Product \<Rightarrow> ('m, 'T) Model \<Rightarrow> 'r RNG \<Rightarrow> bool \<Rightarrow> nat \<Rightarrow>
   ('p, 'm, 'r, 'T, 'z) simul_state_scheme \<Rightarrow> ('p, 'm, 'r, 'T, 'z) simul_state_scheme" where
  "mcSimul_body P M R antithetic i s =
     (let (r, g, a) = antitheticStep R antithetic (cRng s, gaussVec s, antiPath s);
          s1 = s\<lparr>cRng := r, gaussVec := g, antiPath := a\<rparr>;
          s2 = s1\<lparr>path := generatePath M (cMdl s1) (gaussVec s1)\<rparr>
      in s2\<lparr>res := (res s2)[i := payoff P (prd s2) (path s2)]\<rparr>)"

definition mcSimul_exec ::
  "('p, real) Product \<Rightarrow> ('m, real) Model \<Rightarrow> 'r RNG \<Rightarrow> 'p \<Rightarrow> 'm \<Rightarrow> 'r \<Rightarrow> nat \<Rightarrow> bool \<Rightarrow>
   ('p, 'm, 'r, real) simul_state" where
  "mcSimul_exec P M R prd0 mdl0 rng0 nPath antithetic =
     (let cMdl0 = clone_Model M mdl0;
          cRng0 = clone_RNG R rng0;
          res0 = replicate nPath 0;
          cMdl1 = init_Model M (timeline P prd0) cMdl0;
          cRng1 = init_RNG R (simDim_Model M cMdl1) cRng0;
          gaussVec0 = replicate (simDim_Model M cMdl1) 0;
          path0 = replicate (length (timeline P prd0)) \<lparr>spot = 0\<rparr>
      in forLoop 0 nPath (mcSimul_body P M R antithetic)
           \<lparr>prd = prd0, mdl = mdl0, rng = rng0, res = res0, cMdl = cMdl1, cRng = cRng1,
            gaussVec = gaussVec0, path = path0, antiPath = False\<rparr>)"

definition mcSimul ::
  "('p, real) Product \<Rightarrow> ('m, real) Model \<Rightarrow> 'r RNG \<Rightarrow> 'p \<Rightarrow> 'm \<Rightarrow> 'r \<Rightarrow> nat \<Rightarrow> bool \<Rightarrow>
   real list" where
  "mcSimul P M R prd0 mdl0 rng0 nPath antithetic =
     res (mcSimul_exec P M R prd0 mdl0 rng0 nPath antithetic)"

section \<open>mcParallelSimul (lines 145-237)\<close>

text \<open>
  The \<^verbatim>\<open>while (pathsLeft > 0)\<close> loop (lines 179-231, and again 443-521) queues one task
  per batch; a task is the pair \<^verbatim>\<open>(firstPath, pathsInTask)\<close> its lambda captures by value.
\<close>

definition BATCHSIZE :: nat where
  "BATCHSIZE = 64"

function spawnLoop :: "nat \<Rightarrow> nat \<Rightarrow> (nat \<times> nat) list" where
  "spawnLoop firstPath pathsLeft =
     (if pathsLeft > 0 then
        (let pathsInTask = min pathsLeft BATCHSIZE
         in (firstPath, pathsInTask) # spawnLoop (firstPath + pathsInTask) (pathsLeft - pathsInTask))
      else [])"
  by pat_completeness auto
termination
  by (relation "measure (\<lambda>(firstPath, pathsLeft). pathsLeft)") (auto simp: BATCHSIZE_def)

declare spawnLoop.simps [simp del]

text \<open>
  The memory the tasks share: what the lambda captures by reference. The buffers
  \<^verbatim>\<open>gaussVecs\<close> and \<^verbatim>\<open>paths\<close> hold one entry per thread, 0 for the main thread. The
  locals of a task are its generator and its toggle.
\<close>

record ('p, 'm, 'r, 'T) parallel_state = "('p, 'm, 'r, 'T) clones" +
  gaussVecs :: "real list list"
  paths :: "'T scenario list list"

record 'r task_locals =
  taskRng :: 'r
  antiPath_task :: bool

text \<open>The body of the task's loop (lines 199-223), run by thread \<^verbatim>\<open>threadNum\<close>.\<close>

definition mcParallelSimul_body ::
  "('p, real) Product \<Rightarrow> ('m, real) Model \<Rightarrow> 'r RNG \<Rightarrow> bool \<Rightarrow> nat \<Rightarrow> nat \<Rightarrow> nat \<Rightarrow>
   'r task_locals \<times> ('p, 'm, 'r, real) parallel_state \<Rightarrow>
   'r task_locals \<times> ('p, 'm, 'r, real) parallel_state" where
  "mcParallelSimul_body P M R antithetic threadNum firstPath i = (\<lambda>(t, s).
     (let (r, g, a) = antitheticStep R antithetic
                        (taskRng t, gaussVecs s ! threadNum, antiPath_task t);
          t1 = t\<lparr>taskRng := r, antiPath_task := a\<rparr>;
          s1 = s\<lparr>gaussVecs := (gaussVecs s)[threadNum := g]\<rparr>;
          s2 = s1\<lparr>paths := (paths s1)[threadNum :=
                   generatePath M (cMdl s1) (gaussVecs s1 ! threadNum)]\<rparr>
      in (t1, s2\<lparr>res := (res s2)[firstPath + i := payoff P (prd s2) (paths s2 ! threadNum)]\<rparr>)))"

text \<open>The task (lines 185-227): clone the generator, position it, run the batch.\<close>

definition mcParallelSimul_task ::
  "('p, real) Product \<Rightarrow> ('m, real) Model \<Rightarrow> 'r RNG \<Rightarrow> bool \<Rightarrow> nat \<Rightarrow> nat \<times> nat \<Rightarrow>
   ('p, 'm, 'r, real) parallel_state \<Rightarrow> ('p, 'm, 'r, real) parallel_state" where
  "mcParallelSimul_task P M R antithetic threadNum = (\<lambda>(firstPath, pathsInTask) s.
     (let taskRng0 = clone_RNG R (cRng s);
          taskRng1 = skipTo R (int (if antithetic then firstPath div 2 else firstPath)) taskRng0
      in snd (forLoop 0 pathsInTask
                (mcParallelSimul_body P M R antithetic threadNum firstPath)
                (\<lparr>taskRng = taskRng1, antiPath_task = False\<rparr>, s))))"

text \<open>
  The pool (\<^verbatim>\<open>threadPool.h\<close>, not among the sources) decides which thread runs which
  queued task, and when. Two tasks touch disjoint memory unless the same thread runs them
  (a task writes \<^verbatim>\<open>res\<close> on its own indices and the buffers of its thread only), and a
  thread runs its tasks one after the other: an execution is described by the order in
  which the tasks run and the thread that runs each. A schedule lists the pairs
  (thread number, index of the task in the queue) in that order; it is valid when every
  queued task runs once, on a thread \<^verbatim>\<open>0 .. nThread\<close>.
\<close>

type_synonym schedule = "(nat \<times> nat) list"

definition valid_schedule :: "nat \<Rightarrow> nat \<Rightarrow> schedule \<Rightarrow> bool" where
  "valid_schedule nThread nTask sched \<longleftrightarrow>
     mset (map snd sched) = mset [0..<nTask] \<and> list_all (\<lambda>(threadNum, k). threadNum \<le> nThread) sched"

definition mcParallelSimul_exec ::
  "('p, real) Product \<Rightarrow> ('m, real) Model \<Rightarrow> 'r RNG \<Rightarrow> 'p \<Rightarrow> 'm \<Rightarrow> 'r \<Rightarrow> nat \<Rightarrow> bool \<Rightarrow>
   nat \<Rightarrow> schedule \<Rightarrow> ('p, 'm, 'r, real) parallel_state" where
  "mcParallelSimul_exec P M R prd0 mdl0 rng0 nPath antithetic nThread sched =
     (let cMdl0 = clone_Model M mdl0;
          cRng0 = clone_RNG R rng0;
          res0 = replicate nPath 0;
          cMdl1 = init_Model M (timeline P prd0) cMdl0;
          cRng1 = init_RNG R (simDim_Model M cMdl1) cRng0;
          gaussVecs0 = replicate (nThread + 1) (replicate (simDim_Model M cMdl1) 0);
          paths0 = replicate (nThread + 1) (replicate (length (timeline P prd0)) \<lparr>spot = 0\<rparr>);
          futures = spawnLoop 0 nPath
      in fold (\<lambda>(threadNum, k). mcParallelSimul_task P M R antithetic threadNum (futures ! k))
           sched
           \<lparr>prd = prd0, mdl = mdl0, rng = rng0, res = res0, cMdl = cMdl1, cRng = cRng1,
            gaussVecs = gaussVecs0, paths = paths0\<rparr>)"

definition mcParallelSimul ::
  "('p, real) Product \<Rightarrow> ('m, real) Model \<Rightarrow> 'r RNG \<Rightarrow> 'p \<Rightarrow> 'm \<Rightarrow> 'r \<Rightarrow> nat \<Rightarrow> bool \<Rightarrow>
   nat \<Rightarrow> schedule \<Rightarrow> real list" where
  "mcParallelSimul P M R prd0 mdl0 rng0 nPath antithetic nThread sched =
     res (mcParallelSimul_exec P M R prd0 mdl0 rng0 nPath antithetic nThread sched)"


section \<open>mcSimulAAD (lines 247-342)\<close>

text \<open>
  \<^verbatim>\<open>AADNumber.h\<close> is not among the sources. What the simulators use of \<^verbatim>\<open>Number\<close> as a
  value is a parameter: the default-constructed \<^verbatim>\<open>Number\<close> and the conversion to
  \<^verbatim>\<open>double\<close> (\<^verbatim>\<open>convert\<close>, line 336).
\<close>

record 'T Number =
  Number_default :: 'T
  convert :: "'T \<Rightarrow> real"

text \<open>
  The tape is the object the AAD protocol acts on: the simulators call
  \<^verbatim>\<open>rewind\<close>, \<^verbatim>\<open>mark\<close>, \<^verbatim>\<open>rewindToMark\<close> and \<^verbatim>\<open>propagateMarkToStart\<close> on it, and
  \<^verbatim>\<open>putOnTape\<close>, \<^verbatim>\<open>init\<close>, \<^verbatim>\<open>generatePath\<close>, \<^verbatim>\<open>payoff\<close> and \<^verbatim>\<open>propagateToMark\<close> record or
  propagate on the tape that \<^verbatim>\<open>Number::tape\<close> points to. To state in which order these
  calls happen, each thread keeps the trace of the calls it makes, in program order. A
  tape is named by a number: 0 is the tape \<^verbatim>\<open>Number::tape\<close> points to on the calling
  (main) thread, \<open>k + 1\<close> is \<^verbatim>\<open>tapes[k]\<close> of \<^verbatim>\<open>mcParallelSimulAAD\<close>. An event on a tape
  carries the tape's number; \<^verbatim>\<open>Product_payoff\<close> and \<^verbatim>\<open>Number_propagateToMark\<close> carry the
  index of \<^verbatim>\<open>res\<close> they write or read, the latter also its argument \<^verbatim>\<open>reset\<close>;
  \<open>Adjoint_add t j\<close> is \<^verbatim>\<open>params0[j].adjoint() += params[j].adjoint()\<close> with \<^verbatim>\<open>params\<close>
  the parameters of the clone of thread \<open>t\<close>.
\<close>

datatype event =
    Tape_rewind nat
  | Tape_mark nat
  | Tape_rewindToMark nat
  | Tape_propagateMarkToStart nat
  | Model_putOnTape nat
  | Model_init nat
  | Model_generatePath nat
  | Product_payoff nat nat
  | Number_propagateToMark nat nat bool
  | RNG_init
  | TaskRNG_skipTo int
  | RNG_nextG
  | Gauss_negate
  | Adjoint_add nat nat

text \<open>The call the antithetic block makes: \<^verbatim>\<open>nextG\<close>, or the negation of the vector.\<close>

definition antitheticEvent :: "bool \<Rightarrow> bool \<Rightarrow> event" where
  "antitheticEvent antithetic anti =
     (if \<not> antithetic then RNG_nextG
      else if \<not> anti then RNG_nextG
      else Gauss_negate)"

record ('p, 'm, 'r, 'T) aad_state = "('p, 'm, 'r, 'T) simul_state" +
  trace :: "event list"

definition call :: "event \<Rightarrow> ('p, 'm, 'r, 'T) aad_state \<Rightarrow> ('p, 'm, 'r, 'T) aad_state" where
  "call e s = s\<lparr>trace := trace s @ [e]\<rparr>"

text \<open>The body of the loop (lines 287-321); \<^verbatim>\<open>tape\<close> is \<^verbatim>\<open>*Number::tape\<close>, tape 0.\<close>

definition mcSimulAAD_body ::
  "('p, 'T) Product \<Rightarrow> ('m, 'T) Model \<Rightarrow> 'r RNG \<Rightarrow> bool \<Rightarrow> nat \<Rightarrow>
   ('p, 'm, 'r, 'T) aad_state \<Rightarrow> ('p, 'm, 'r, 'T) aad_state" where
  "mcSimulAAD_body P M R antithetic i s =
     (let s0 = call (Tape_rewindToMark 0) s;
          (r, g, a) = antitheticStep R antithetic (cRng s0, gaussVec s0, antiPath s0);
          s1 = call (antitheticEvent antithetic (antiPath s0))
                 (s0\<lparr>cRng := r, gaussVec := g, antiPath := a\<rparr>);
          s2 = call (Model_generatePath 0)
                 (s1\<lparr>path := generatePath M (cMdl s1) (gaussVec s1)\<rparr>);
          s3 = call (Product_payoff 0 i)
                 (s2\<lparr>res := (res s2)[i := payoff P (prd s2) (path s2)]\<rparr>)
      in call (Number_propagateToMark 0 i False) s3)"

definition mcSimulAAD_exec ::
  "('p, 'T) Product \<Rightarrow> ('m, 'T) Model \<Rightarrow> 'r RNG \<Rightarrow> 'T Number \<Rightarrow> 'p \<Rightarrow> 'm \<Rightarrow> 'r \<Rightarrow>
   nat \<Rightarrow> bool \<Rightarrow> ('p, 'm, 'r, 'T) aad_state" where
  "mcSimulAAD_exec P M R N prd0 mdl0 rng0 nPath antithetic =
     (let cMdl0 = clone_Model M mdl0;
          cRng0 = clone_RNG R rng0;
          tr1 = [Tape_rewind 0];
          cMdl1 = putOnTape M cMdl0;
          tr2 = tr1 @ [Model_putOnTape 0];
          cMdl2 = init_Model M (timeline P prd0) cMdl1;
          tr3 = tr2 @ [Model_init 0];
          tr4 = tr3 @ [Tape_mark 0];
          res0 = replicate nPath (Number_default N);
          cRng1 = init_RNG R (simDim_Model M cMdl2) cRng0;
          tr5 = tr4 @ [RNG_init];
          gaussVec0 = replicate (simDim_Model M cMdl2) 0;
          path0 = replicate (length (timeline P prd0)) \<lparr>spot = Number_default N\<rparr>;
          s = forLoop 0 nPath (mcSimulAAD_body P M R antithetic)
                \<lparr>prd = prd0, mdl = mdl0, rng = rng0, res = res0, cMdl = cMdl2, cRng = cRng1,
                 gaussVec = gaussVec0, path = path0, antiPath = False, trace = tr5\<rparr>
      in call (Tape_propagateMarkToStart 0) s)"

text \<open>The pair returned: the payoffs converted to \<^verbatim>\<open>double\<close>, and the model clone.\<close>

definition mcSimulAAD ::
  "('p, 'T) Product \<Rightarrow> ('m, 'T) Model \<Rightarrow> 'r RNG \<Rightarrow> 'T Number \<Rightarrow> 'p \<Rightarrow> 'm \<Rightarrow> 'r \<Rightarrow>
   nat \<Rightarrow> bool \<Rightarrow> real list \<times> 'm" where
  "mcSimulAAD P M R N prd0 mdl0 rng0 nPath antithetic =
     (let s = mcSimulAAD_exec P M R N prd0 mdl0 rng0 nPath antithetic
      in (map (convert N) (res s), cMdl s))"

section \<open>initSimul (lines 345-388)\<close>

text \<open>\<^verbatim>\<open>vector::resize\<close>: keep the first \<open>n\<close> elements, fill up with value-initialised ones.\<close>

definition resize :: "nat \<Rightarrow> 'a \<Rightarrow> 'a list \<Rightarrow> 'a list" where
  "resize n x xs = take n xs @ replicate (n - length xs) x"

text \<open>
  \<^verbatim>\<open>initSimul\<close> stores into its four reference parameters \<^verbatim>\<open>mdlClone\<close>, \<^verbatim>\<open>rngClone\<close>,
  \<^verbatim>\<open>gaussVec\<close> and \<^verbatim>\<open>path\<close>: it returns what it stores, and the calls it makes. \<open>tape\<close> is
  the tape \<^verbatim>\<open>Number::tape\<close> points to on the thread that runs it.
\<close>

definition initSimul ::
  "('p, 'T) Product \<Rightarrow> ('m, 'T) Model \<Rightarrow> 'r RNG \<Rightarrow> 'T Number \<Rightarrow> 'p \<Rightarrow> 'm \<Rightarrow> 'r \<Rightarrow> nat \<Rightarrow>
   real list \<Rightarrow> 'T scenario list \<Rightarrow> ('m \<times> 'r \<times> real list \<times> 'T scenario list) \<times> event list" where
  "initSimul P M R N prd0 mdl0 rng0 tape gaussVec0 path0 =
     (let mdlClone0 = clone_Model M mdl0;
          rngClone0 = clone_RNG R rng0;
          tr1 = [Tape_rewind tape];
          mdlClone1 = putOnTape M mdlClone0;
          tr2 = tr1 @ [Model_putOnTape tape];
          mdlClone2 = init_Model M (timeline P prd0) mdlClone1;
          tr3 = tr2 @ [Model_init tape];
          tr4 = tr3 @ [Tape_mark tape];
          rngClone1 = init_RNG R (simDim_Model M mdlClone2) rngClone0;
          tr5 = tr4 @ [RNG_init];
          gaussVec1 = resize (simDim_Model M mdlClone2) 0 gaussVec0;
          path1 = resize (length (timeline P prd0)) \<lparr>spot = Number_default N\<rparr> path0
      in ((mdlClone2, rngClone1, gaussVec1, path1), tr5))"

section \<open>mcParallelSimulAAD (lines 396-575)\<close>

text \<open>
  The memory the tasks share. Every vector has one entry per thread, 0 for the main
  thread: the clones (\<^verbatim>\<open>unique_ptr\<close>, null until \<^verbatim>\<open>initSimul\<close> stores one), the buffers,
  the indicators \<^verbatim>\<open>init\<close>, the thread-local pointer \<^verbatim>\<open>Number::tape\<close> of each thread (as
  the number of the tape it points to) and the trace of each thread. The fields are
  suffixed where a simulator above has a variable of the same name and another type.
\<close>

record ('p, 'm, 'r, 'T) parallel_aad_state = "('p, 'm, 'r, 'T) results" +
  cMdl_thr :: "'m option list"
  cRng_thr :: "'r option list"
  gaussVecs_thr :: "real list list"
  paths_thr :: "'T scenario list list"
  init_thr :: "bool list"
  Number_tape :: "nat list"
  traces :: "event list list"

definition call_on ::
  "nat \<Rightarrow> event \<Rightarrow> ('p, 'm, 'r, 'T) parallel_aad_state \<Rightarrow> ('p, 'm, 'r, 'T) parallel_aad_state" where
  "call_on threadNum e s = s\<lparr>traces := (traces s)[threadNum := traces s ! threadNum @ [e]]\<rparr>"

text \<open>\<^verbatim>\<open>initSimul(prd, mdl, rng, cMdl[t], cRng[t], gaussVecs[t], paths[t]); init[t] = true;\<close>\<close>

definition initThread ::
  "('p, 'T) Product \<Rightarrow> ('m, 'T) Model \<Rightarrow> 'r RNG \<Rightarrow> 'T Number \<Rightarrow> nat \<Rightarrow>
   ('p, 'm, 'r, 'T) parallel_aad_state \<Rightarrow> ('p, 'm, 'r, 'T) parallel_aad_state" where
  "initThread P M R N threadNum s =
     (let ((mdlClone, rngClone, gaussVec1, path1), tr) =
            initSimul P M R N (prd s) (mdl s) (rng s) (Number_tape s ! threadNum)
              (gaussVecs_thr s ! threadNum) (paths_thr s ! threadNum)
      in s\<lparr>cMdl_thr := (cMdl_thr s)[threadNum := Some mdlClone],
           cRng_thr := (cRng_thr s)[threadNum := Some rngClone],
           gaussVecs_thr := (gaussVecs_thr s)[threadNum := gaussVec1],
           paths_thr := (paths_thr s)[threadNum := path1],
           init_thr := (init_thr s)[threadNum := True],
           traces := (traces s)[threadNum := traces s ! threadNum @ tr]\<rparr>)"

text \<open>The body of the task's loop (lines 478-513), run by thread \<^verbatim>\<open>threadNum\<close>.\<close>

definition mcParallelSimulAAD_body ::
  "('p, 'T) Product \<Rightarrow> ('m, 'T) Model \<Rightarrow> 'r RNG \<Rightarrow> bool \<Rightarrow> nat \<Rightarrow> nat \<Rightarrow> nat \<Rightarrow>
   'r task_locals \<times> ('p, 'm, 'r, 'T) parallel_aad_state \<Rightarrow>
   'r task_locals \<times> ('p, 'm, 'r, 'T) parallel_aad_state" where
  "mcParallelSimulAAD_body P M R antithetic threadNum firstPath i = (\<lambda>(t, s).
     (let tape = Number_tape s ! threadNum;
          s0 = call_on threadNum (Tape_rewindToMark tape) s;
          (r, g, a) = antitheticStep R antithetic
                        (taskRng t, gaussVecs_thr s0 ! threadNum, antiPath_task t);
          t1 = t\<lparr>taskRng := r, antiPath_task := a\<rparr>;
          s1 = call_on threadNum (antitheticEvent antithetic (antiPath_task t))
                 (s0\<lparr>gaussVecs_thr := (gaussVecs_thr s0)[threadNum := g]\<rparr>);
          s2 = call_on threadNum (Model_generatePath tape)
                 (s1\<lparr>paths_thr := (paths_thr s1)[threadNum :=
                        generatePath M (the (cMdl_thr s1 ! threadNum))
                          (gaussVecs_thr s1 ! threadNum)]\<rparr>);
          s3 = call_on threadNum (Product_payoff tape (firstPath + i))
                 (s2\<lparr>res := (res s2)[firstPath + i :=
                        payoff P (prd s2) (paths_thr s2 ! threadNum)]\<rparr>)
      in (t1, call_on threadNum (Number_propagateToMark tape (firstPath + i) False) s3)))"

text \<open>
  The task (lines 449-517). A worker points \<^verbatim>\<open>Number::tape\<close> to its own tape
  \<^verbatim>\<open>tapes[threadNum - 1]\<close>, tape number \<^verbatim>\<open>threadNum\<close>; a thread initialises itself in the
  first task it runs.
\<close>

definition mcParallelSimulAAD_task ::
  "('p, 'T) Product \<Rightarrow> ('m, 'T) Model \<Rightarrow> 'r RNG \<Rightarrow> 'T Number \<Rightarrow> bool \<Rightarrow> nat \<Rightarrow> nat \<times> nat \<Rightarrow>
   ('p, 'm, 'r, 'T) parallel_aad_state \<Rightarrow> ('p, 'm, 'r, 'T) parallel_aad_state" where
  "mcParallelSimulAAD_task P M R N antithetic threadNum = (\<lambda>(firstPath, pathsInTask) s.
     (let s1 = (if threadNum > 0
                then s\<lparr>Number_tape := (Number_tape s)[threadNum := threadNum]\<rparr>
                else s);
          s2 = (if \<not> init_thr s1 ! threadNum then initThread P M R N threadNum s1 else s1);
          taskRng0 = clone_RNG R (the (cRng_thr s2 ! threadNum));
          position = int (if antithetic then firstPath div 2 else firstPath);
          taskRng1 = skipTo R position taskRng0;
          s3 = call_on threadNum (TaskRNG_skipTo position) s2
      in snd (forLoop 0 pathsInTask
                (mcParallelSimulAAD_body P M R antithetic threadNum firstPath)
                (\<lparr>taskRng = taskRng1, antiPath_task = False\<rparr>, s3))))"

text \<open>
  After the tasks (lines 526-561), on the main thread: propagate from the mark to the
  start on the main tape and on the tape of every initialised worker, then add the
  adjoints of the workers' parameters to those of the main clone.
\<close>

definition propagateWorker ::
  "nat \<Rightarrow> ('p, 'm, 'r, 'T) parallel_aad_state \<Rightarrow> ('p, 'm, 'r, 'T) parallel_aad_state" where
  "propagateWorker i s =
     (if init_thr s ! (i + 1) then
        (let s1 = s\<lparr>Number_tape := (Number_tape s)[0 := i + 1]\<rparr>
         in call_on 0 (Tape_propagateMarkToStart (Number_tape s1 ! 0)) s1)
      else s)"

definition accumulateWorker ::
  "('m, 'T) Model \<Rightarrow> 'T list \<Rightarrow> nat \<Rightarrow>
   ('p, 'm, 'r, 'T) parallel_aad_state \<Rightarrow> ('p, 'm, 'r, 'T) parallel_aad_state" where
  "accumulateWorker M params0 i s =
     (if init_thr s ! (i + 1) then
        (let params = parameters M (the (cMdl_thr s ! (i + 1)))
         in forLoop 0 (length params0) (\<lambda>j. call_on 0 (Adjoint_add (i + 1) j)) s)
      else s)"

definition mcParallelSimulAAD_finish ::
  "('m, 'T) Model \<Rightarrow> nat \<Rightarrow>
   ('p, 'm, 'r, 'T) parallel_aad_state \<Rightarrow> ('p, 'm, 'r, 'T) parallel_aad_state" where
  "mcParallelSimulAAD_finish M nThread s =
     (let s1 = call_on 0 (Tape_propagateMarkToStart (Number_tape s ! 0)) s;
          mainThreadPtr = Number_tape s1 ! 0;
          s2 = forLoop 0 nThread propagateWorker s1;
          s3 = s2\<lparr>Number_tape := (Number_tape s2)[0 := mainThreadPtr]\<rparr>;
          params0 = parameters M (the (cMdl_thr s3 ! 0))
      in forLoop 0 nThread (accumulateWorker M params0) s3)"

text \<open>
  The whole simulator. A worker's \<^verbatim>\<open>Number::tape\<close> is assigned at the start of every task
  it runs (line 456), before any use: its value before plays no role and is taken to be
  0. The schedule is that of the pool, as for \<^verbatim>\<open>mcParallelSimul\<close>.
\<close>

definition mcParallelSimulAAD_exec ::
  "('p, 'T) Product \<Rightarrow> ('m, 'T) Model \<Rightarrow> 'r RNG \<Rightarrow> 'T Number \<Rightarrow> 'p \<Rightarrow> 'm \<Rightarrow> 'r \<Rightarrow>
   nat \<Rightarrow> bool \<Rightarrow> nat \<Rightarrow> schedule \<Rightarrow> ('p, 'm, 'r, 'T) parallel_aad_state" where
  "mcParallelSimulAAD_exec P M R N prd0 mdl0 rng0 nPath antithetic nThread sched =
     (let s0 = \<lparr>prd = prd0, mdl = mdl0, rng = rng0,
                res = replicate nPath (Number_default N),
                cMdl_thr = replicate (nThread + 1) None,
                cRng_thr = replicate (nThread + 1) None,
                gaussVecs_thr = replicate (nThread + 1) [],
                paths_thr = replicate (nThread + 1) [],
                init_thr = replicate (nThread + 1) False,
                Number_tape = replicate (nThread + 1) 0,
                traces = replicate (nThread + 1) []\<rparr>;
          s1 = initThread P M R N 0 s0;
          futures = spawnLoop 0 nPath;
          s2 = fold (\<lambda>(threadNum, k).
                 mcParallelSimulAAD_task P M R N antithetic threadNum (futures ! k)) sched s1
      in mcParallelSimulAAD_finish M nThread s2)"

definition mcParallelSimulAAD ::
  "('p, 'T) Product \<Rightarrow> ('m, 'T) Model \<Rightarrow> 'r RNG \<Rightarrow> 'T Number \<Rightarrow> 'p \<Rightarrow> 'm \<Rightarrow> 'r \<Rightarrow>
   nat \<Rightarrow> bool \<Rightarrow> nat \<Rightarrow> schedule \<Rightarrow> real list \<times> 'm" where
  "mcParallelSimulAAD P M R N prd0 mdl0 rng0 nPath antithetic nThread sched =
     (let s = mcParallelSimulAAD_exec P M R N prd0 mdl0 rng0 nPath antithetic nThread sched
      in (map (convert N) (res s), the (cMdl_thr s ! 0)))"

section \<open>analytics.h: blackScholes and blackScholesIvol (lines 33-81)\<close>

text \<open>
  \<^verbatim>\<open>gaussians.h\<close> is not among the sources: \<^verbatim>\<open>normalCdf\<close> and \<^verbatim>\<open>EPS\<close> are parameters.
\<close>

record gaussians =
  normalCdf :: "real \<Rightarrow> real"
  EPS :: real

definition blackScholes :: "gaussians \<Rightarrow> real \<Rightarrow> real \<Rightarrow> real \<Rightarrow> real \<Rightarrow> real" where
  "blackScholes G spot' strike vol mat =
     (let std = vol * sqrt mat in
      if std \<le> EPS G then max 0 (spot' - strike)
      else
        let d2 = ln (spot' / strike) / std - 0.5 * std;
            d1 = d2 + std
        in spot' * normalCdf G d1 - strike * normalCdf G d2)"

text \<open>
  \<^verbatim>\<open>double p, pu, pl;\<close> declares three locals without a value: each is \<^const>\<open>None\<close> until
  an assignment stores one. Reading a local that holds no value is the error
  \<open>UninitialisedRead\<close>. The two search loops for the bracket may not end; not returning
  is \<^const>\<open>None\<close>.
\<close>

datatype ivol_error = UninitialisedRead

partial_function (option) ivol_upper :: "(real \<Rightarrow> real) \<Rightarrow> real \<Rightarrow> real \<Rightarrow> real option" where
  "ivol_upper price prem u = (if price u < prem then ivol_upper price prem (u * 2) else Some u)"

partial_function (option) ivol_lower :: "(real \<Rightarrow> real) \<Rightarrow> real \<Rightarrow> real \<Rightarrow> real option" where
  "ivol_lower price prem l = (if price l > prem then ivol_lower price prem (l / 2) else Some l)"

record ivol_locals =
  p :: "real option"
  pu :: "real option"
  pl :: "real option"
  u :: real
  l :: real

lemma ceiling_half_less: "1 < (x::real) \<Longrightarrow> nat \<lceil>x / 2\<rceil> < nat \<lceil>x\<rceil>"
proof -
  assume x: "1 < x"
  have "\<lceil>x / 2\<rceil> < \<lceil>x\<rceil>"
  proof (cases "x \<le> 2")
    case True
    with x have "\<lceil>x / 2\<rceil> = 1" by (simp add: ceiling_eq_iff)
    moreover from x have "\<lceil>x\<rceil> \<ge> 2" by (simp add: le_ceiling_iff)
    ultimately show ?thesis by simp
  next
    case False
    then have "x / 2 + 1 < x" by simp
    moreover have "of_int \<lceil>x / 2\<rceil> < x / 2 + 1" by linarith
    ultimately have "of_int \<lceil>x / 2\<rceil> < x" by linarith
    then show ?thesis by (simp add: less_ceiling_iff)
  qed
  moreover have "0 < \<lceil>x\<rceil>" using x by (simp add: less_ceiling_iff)
  ultimately show ?thesis by simp
qed

text \<open>The bisection \<^verbatim>\<open>while (u - l > 1.e-12)\<close> (lines 64-78); the bracket halves each turn.\<close>

function ivol_bisect :: "(real \<Rightarrow> real) \<Rightarrow> real \<Rightarrow> ivol_locals \<Rightarrow> ivol_locals" where
  "ivol_bisect price prem s =
     (if u s - l s > 1 / 10 ^ 12 then
        (let m = 0.5 * (u s + l s);
             pv = price m
         in if pv > prem
            then ivol_bisect price prem (s\<lparr>p := Some pv, u := m, pu := Some pv\<rparr>)
            else ivol_bisect price prem (s\<lparr>p := Some pv, l := m, pl := Some pv\<rparr>))
      else s)"
  by pat_completeness auto
termination
proof (relation "measure (\<lambda>(price, prem, s). nat \<lceil>(u s - l s) * 10 ^ 12\<rceil>)", goal_cases)
  case 1
  then show ?case by simp
next
  case (2 price prem s m pv)
  then have big: "1 < (u s - l s) * 10 ^ 12" by (simp add: field_simps)
  have eq: "(m - l s) * 10 ^ 12 = (u s - l s) * 10 ^ 12 / 2" using 2 by (simp add: field_simps)
  have "nat \<lceil>(m - l s) * 10 ^ 12\<rceil> < nat \<lceil>(u s - l s) * 10 ^ 12\<rceil>"
    using ceiling_half_less[OF big] by (simp only: eq)
  then show ?case by simp
next
  case (3 price prem s m pv)
  then have big: "1 < (u s - l s) * 10 ^ 12" by (simp add: field_simps)
  have eq: "(u s - m) * 10 ^ 12 = (u s - l s) * 10 ^ 12 / 2" using 3 by (simp add: field_simps)
  have "nat \<lceil>(u s - m) * 10 ^ 12\<rceil> < nat \<lceil>(u s - l s) * 10 ^ 12\<rceil>"
    using ceiling_half_less[OF big] by (simp only: eq)
  then show ?case by simp
qed

declare ivol_bisect.simps [simp del]

text \<open>
  Line 61 assigns \<^verbatim>\<open>pu\<close>; line 62 calls \<^verbatim>\<open>blackScholes(spot, strike, l, mat)\<close> and drops
  the value. The return statement reads \<^verbatim>\<open>pl\<close> and \<^verbatim>\<open>pu\<close>.
\<close>

definition blackScholesIvol ::
  "gaussians \<Rightarrow> real \<Rightarrow> real \<Rightarrow> real \<Rightarrow> real \<Rightarrow> (ivol_error + real) option" where
  "blackScholesIvol G spot' strike prem mat =
     (if prem \<le> max 0 (spot' - strike) + EPS G then Some (Inr 0)
      else
        let price = (\<lambda>vol. blackScholes G spot' strike vol mat) in
        case ivol_upper price prem 0.5 of
          None \<Rightarrow> None
        | Some u0 \<Rightarrow>
        (case ivol_lower price prem 0.05 of
          None \<Rightarrow> None
        | Some l0 \<Rightarrow>
          let s = ivol_bisect price prem
                    \<lparr>p = None, pu = Some (price u0), pl = None, u = u0, l = l0\<rparr>
          in (case (pl s, pu s) of
                (Some plv, Some puv) \<Rightarrow>
                  Some (Inr (l s + (prem - plv) / (puv - plv) * (u s - l s)))
              | _ \<Rightarrow> Some (Inl UninitialisedRead))))"

text \<open>
  A distribution function to run the definitions on: the uniform distribution on
  \<open>[-2, 2]\<close>.
\<close>

definition uniformCdf :: "real \<Rightarrow> real" where
  "uniformCdf x = max 0 (min 1 (1 / 2 + x / 4))"

section \<open>Notions used in the statements\<close>

text \<open>
  The Gaussian vector that path \<open>i\<close> consumes when the generator starts in state \<open>r\<close>,
  the number of draws that \<open>k\<close> paths take from the generator, the value of path \<open>i\<close>,
  the model and the generator as the set-up of a simulator leaves them (lines 103-108),
  and the functional skip-ahead contract of \<^verbatim>\<open>skipTo\<close> at a state \<open>r\<close>: on a clone of \<open>r\<close>,
  after \<^verbatim>\<open>skipTo(k)\<close> the generator returns the draws \<open>k, k+1, ...\<close> of \<open>r\<close>.
\<close>

definition gaussSeq :: "'r RNG \<Rightarrow> bool \<Rightarrow> 'r \<Rightarrow> nat \<Rightarrow> real list" where
  "gaussSeq R antithetic r i =
     (if antithetic
      then (if even i then draw R r (i div 2) else map uminus (draw R r (i div 2)))
      else draw R r i)"

definition drawsUsed :: "bool \<Rightarrow> nat \<Rightarrow> nat" where
  "drawsUsed antithetic k = (if antithetic then (k + 1) div 2 else k)"

definition pathValue ::
  "('p, 'T) Product \<Rightarrow> ('m, 'T) Model \<Rightarrow> 'r RNG \<Rightarrow> bool \<Rightarrow> 'p \<Rightarrow> 'm \<Rightarrow> 'r \<Rightarrow> nat \<Rightarrow> 'T" where
  "pathValue P M R antithetic prd0 m r i =
     payoff P prd0 (generatePath M m (gaussSeq R antithetic r i))"

definition exact_skip :: "'r RNG \<Rightarrow> 'r \<Rightarrow> bool" where
  "exact_skip R r \<longleftrightarrow> (\<forall>k j. draw R (skipTo R (int k) (clone_RNG R r)) j = draw R r (k + j))"

definition setupModel :: "('p, 'T) Product \<Rightarrow> ('m, 'T) Model \<Rightarrow> 'p \<Rightarrow> 'm \<Rightarrow> 'm" where
  "setupModel P M prd0 mdl0 = init_Model M (timeline P prd0) (clone_Model M mdl0)"

definition setupRng :: "('p, 'T) Product \<Rightarrow> ('m, 'T) Model \<Rightarrow> 'r RNG \<Rightarrow> 'p \<Rightarrow> 'm \<Rightarrow> 'r \<Rightarrow> 'r" where
  "setupRng P M R prd0 mdl0 rng0 =
     init_RNG R (simDim_Model M (setupModel P M prd0 mdl0)) (clone_RNG R rng0)"


text \<open>
  The calls of the set-up protocol on a tape (lines 261-279 and 364-382), and the calls of
  one iteration of the path loop of the AAD simulators (lines 285-322 and 478-513) for the
  path at index \<open>firstPath + i\<close>, in the order of the source.
\<close>

definition setupEvents :: "nat \<Rightarrow> event list" where
  "setupEvents tape =
     [Tape_rewind tape, Model_putOnTape tape, Model_init tape, Tape_mark tape, RNG_init]"

definition pathEvents :: "nat \<Rightarrow> bool \<Rightarrow> nat \<Rightarrow> nat \<Rightarrow> event list" where
  "pathEvents tape antithetic firstPath i =
     [Tape_rewindToMark tape,
      (if antithetic \<and> odd i then Gauss_negate else RNG_nextG),
      Model_generatePath tape,
      Product_payoff tape (firstPath + i),
      Number_propagateToMark tape (firstPath + i) False]"

text \<open>
  The model and the generator as the set-up of the AAD simulators leaves them.
\<close>

definition setupModelAAD :: "('p, 'T) Product \<Rightarrow> ('m, 'T) Model \<Rightarrow> 'p \<Rightarrow> 'm \<Rightarrow> 'm" where
  "setupModelAAD P M prd0 mdl0 =
     init_Model M (timeline P prd0) (putOnTape M (clone_Model M mdl0))"

definition setupRngAAD :: "('p, 'T) Product \<Rightarrow> ('m, 'T) Model \<Rightarrow> 'r RNG \<Rightarrow> 'p \<Rightarrow> 'm \<Rightarrow> 'r \<Rightarrow> 'r" where
  "setupRngAAD P M R prd0 mdl0 rng0 =
     init_RNG R (simDim_Model M (setupModelAAD P M prd0 mdl0)) (clone_RNG R rng0)"

text \<open>The calls of one task of \<^verbatim>\<open>mcParallelSimulAAD\<close> (lines 473-513).\<close>

definition taskEvents :: "bool \<Rightarrow> nat \<Rightarrow> nat \<times> nat \<Rightarrow> event list" where
  "taskEvents antithetic tape = (\<lambda>(firstPath, pathsInTask).
     TaskRNG_skipTo (int (if antithetic then firstPath div 2 else firstPath))
     # concat (map (pathEvents tape antithetic firstPath) [0..<pathsInTask]))"

text \<open>
  What holds of the memory of \<^verbatim>\<open>mcParallelSimulAAD\<close> between two tasks: the arguments are
  untouched, the vectors have one entry per thread, \<^verbatim>\<open>Number::tape\<close> of the main thread is
  the main tape, and an initialised thread holds the clones of the set-up.
\<close>

definition aad_wf ::
  "('p, 'T) Product \<Rightarrow> ('m, 'T) Model \<Rightarrow> 'r RNG \<Rightarrow> 'p \<Rightarrow> 'm \<Rightarrow> 'r \<Rightarrow> nat \<Rightarrow>
   ('p, 'm, 'r, 'T) parallel_aad_state \<Rightarrow> bool" where
  "aad_wf P M R prd0 mdl0 rng0 nThread s \<longleftrightarrow>
     prd s = prd0 \<and> mdl s = mdl0 \<and> rng s = rng0
     \<and> length (cMdl_thr s) = nThread + 1 \<and> length (cRng_thr s) = nThread + 1
     \<and> length (gaussVecs_thr s) = nThread + 1 \<and> length (paths_thr s) = nThread + 1
     \<and> length (init_thr s) = nThread + 1 \<and> length (Number_tape s) = nThread + 1
     \<and> length (traces s) = nThread + 1
     \<and> Number_tape s ! 0 = 0
     \<and> (\<forall>t \<le> nThread. init_thr s ! t \<longrightarrow>
           cMdl_thr s ! t = Some (setupModelAAD P M prd0 mdl0)
         \<and> cRng_thr s ! t = Some (setupRngAAD P M R prd0 mdl0 rng0))"

text \<open>
  The calls of thread \<open>t\<close> over a list of (thread, task) pairs run in this order; \<open>initd\<close>
  tells whether the thread is initialised at the start.
\<close>

fun threadEvents :: "bool \<Rightarrow> nat \<Rightarrow> bool \<Rightarrow> (nat \<times> nat \<times> nat) list \<Rightarrow> event list" where
  "threadEvents antithetic t initd [] = []"
| "threadEvents antithetic t initd ((th, task) # ts) =
     (if th = t
      then (if initd then [] else setupEvents t) @ taskEvents antithetic t task
           @ threadEvents antithetic t True ts
      else threadEvents antithetic t initd ts)"

text \<open>
  The value of the path at index \<open>j\<close> as its batch computes it: the batch starts at
  \<open>firstPath = 64 * (j div 64)\<close>, from a clone of the generator positioned by \<^verbatim>\<open>skipTo\<close>.
\<close>

definition batchPathValue ::
  "('p, 'T) Product \<Rightarrow> ('m, 'T) Model \<Rightarrow> 'r RNG \<Rightarrow> bool \<Rightarrow> 'p \<Rightarrow> 'm \<Rightarrow> 'r \<Rightarrow> nat \<Rightarrow> 'T" where
  "batchPathValue P M R antithetic prd0 m r j =
     (let firstPath = BATCHSIZE * (j div BATCHSIZE)
      in pathValue P M R antithetic prd0 m
           (skipTo R (int (if antithetic then firstPath div 2 else firstPath)) (clone_RNG R r))
           (j - firstPath))"

text \<open>
  The workers \<open>1, ..., nThread\<close> whose flag \<^verbatim>\<open>init\<close> is set, the calls that follow the tasks
  (lines 526-561) for a list of workers and a number of parameters, and the tasks of a
  schedule with the thread that runs each.
\<close>

definition initialisedWorkers :: "bool list \<Rightarrow> nat \<Rightarrow> nat list" where
  "initialisedWorkers init nThread = filter (\<lambda>t. init ! t) [1..<nThread + 1]"

definition finishEvents :: "nat list \<Rightarrow> nat \<Rightarrow> event list" where
  "finishEvents workers nParams =
     Tape_propagateMarkToStart 0
     # map Tape_propagateMarkToStart workers
     @ concat (map (\<lambda>t. map (Adjoint_add t) [0..<nParams]) workers)"

definition scheduledTasks :: "nat \<Rightarrow> schedule \<Rightarrow> (nat \<times> nat \<times> nat) list" where
  "scheduledTasks nPath sched = map (\<lambda>(threadNum, k). (threadNum, spawnLoop 0 nPath ! k)) sched"

text \<open>The calls of the set-up protocol, and the calls that follow the tasks.\<close>

fun setupCall :: "event \<Rightarrow> bool" where
  "setupCall (Tape_rewind tape) = True"
| "setupCall (Model_putOnTape tape) = True"
| "setupCall (Model_init tape) = True"
| "setupCall (Tape_mark tape) = True"
| "setupCall e = False"

fun finishCall :: "event \<Rightarrow> bool" where
  "finishCall (Tape_propagateMarkToStart tape) = True"
| "finishCall (Adjoint_add w j) = True"
| "finishCall e = False"

section \<open>Concrete collaborators\<close>

text \<open>
  A generator that counts its draws and skips ahead by assignment, a model whose spot is its
  parameter plus the sum of the Gaussians, and a forward contract, to run the simulators on.
\<close>

definition counterRNG :: "(nat \<times> nat) RNG" where
  "counterRNG =
     \<lparr>init_RNG = (\<lambda>d (n, k). (d, k)),
      nextG = (\<lambda>(n, k). (replicate n (real k), (n, k + 1))),
      clone_RNG = (\<lambda>r. r),
      simDim_RNG = fst,
      skipTo = (\<lambda>b (n, k). (n, nat b))\<rparr>"

definition spotModel :: "(real, real) Model" where
  "spotModel =
     \<lparr>init_Model = (\<lambda>tl m. m),
      simDim_Model = (\<lambda>m. 1),
      generatePath = (\<lambda>m g. [\<lparr>spot = m + sum_list g\<rparr>]),
      clone_Model = (\<lambda>m. m),
      parameters = (\<lambda>m. [m]),
      putOnTape = (\<lambda>m. m)\<rparr>"

definition forwardProduct :: "(real, real) Product" where
  "forwardProduct =
     \<lparr>timeline = (\<lambda>strike. [1]),
      payoff = (\<lambda>strike path. case path of [] \<Rightarrow> 0 | sc # _ \<Rightarrow> spot sc - strike),
      clone_Product = (\<lambda>strike. strike)\<rparr>"

definition realNumber :: "real Number" where
  "realNumber = \<lparr>Number_default = 0, convert = (\<lambda>x. x)\<rparr>"

section \<open>The tape (spec, sections 3 and 4.1)\<close>

text \<open>
  \<^verbatim>\<open>Tape\<close> and \<^verbatim>\<open>Number\<close> are declared in \<^verbatim>\<open>AADNumber.h\<close>, which is not among the sources. The
  definitions of this section follow the spec, over the reals.
\<close>

text \<open>
  Modelled from the spec: the tape of \<^verbatim>\<open>AADNumber.h\<close>. A tape is an append-only sequence of
  nodes with a mark; a node carries its own adjoint and, for each of its inputs, the
  input's node (its position on the tape) and the local partial derivative with respect to
  it.
\<close>

record node =
  adjoint :: real
  inputs :: "(nat \<times> real) list"

record tape =
  nodes :: "node list"
  markAt :: nat





text \<open>
  Modelled from the spec: the backward walk, "accumulating
  \<^verbatim>\<open>adjoint(input) += partial * adjoint(output)\<close> for every node visited", from node \<open>hi - 1\<close>
  down to node \<open>lo\<close>.
\<close>

definition accumulate :: "nat \<Rightarrow> nat \<times> real \<Rightarrow> node list \<Rightarrow> node list" where
  "accumulate k = (\<lambda>(j, d) ns.
     ns[j := (ns ! j)\<lparr>adjoint := adjoint (ns ! j) + d * adjoint (ns ! k)\<rparr>])"

definition visit :: "nat \<Rightarrow> node list \<Rightarrow> node list" where
  "visit k ns = fold (accumulate k) (inputs (ns ! k)) ns"

definition sweep :: "nat \<Rightarrow> nat \<Rightarrow> node list \<Rightarrow> node list" where
  "sweep lo hi ns = fold visit (rev [lo..<hi]) ns"


text \<open>
  Modelled from the spec: \<^verbatim>\<open>propagateMarkToStart()\<close> "walks from mark back to start".
\<close>

definition tape_propagateMarkToStart :: "tape \<Rightarrow> tape" where
  "tape_propagateMarkToStart t = t\<lparr>nodes := sweep 0 (markAt t) (nodes t)\<rparr>"










definition freshNodes :: "(nat \<times> real) list list \<Rightarrow> node list" where
  "freshNodes ops = map (\<lambda>ins. \<lparr>adjoint = 0, inputs = ins\<rparr>) ops"



section \<open>The tapes after the tasks of mcParallelSimulAAD (lines 526-561)\<close>

text \<open>
  The state of \<^verbatim>\<open>mcParallelSimulAAD\<close> above records the calls made after the tasks; the
  definitions of this section run the same lines on that state together with the tapes
  themselves, \<open>ts ! 0\<close> the main tape and \<open>ts ! w\<close> the tape \<^verbatim>\<open>tapes[w - 1]\<close> of worker \<open>w\<close>, so
  that the adjoints written are in the result.
\<close>

text \<open>
  Modelled from the spec: the static \<^verbatim>\<open>Number::propagateMarkToStart()\<close> "operates on the
  current thread's tape", the one \<^verbatim>\<open>Number::tape\<close> points to. It runs on the main thread
  (lines 530 and 539).
\<close>

definition Number_propagateMarkToStart ::
  "('p, 'm, 'r, 'T) parallel_aad_state \<times> tape list \<Rightarrow>
   ('p, 'm, 'r, 'T) parallel_aad_state \<times> tape list" where
  "Number_propagateMarkToStart = (\<lambda>(s, ts).
     (let tp = Number_tape s ! 0
      in (call_on 0 (Tape_propagateMarkToStart tp) s,
          ts[tp := tape_propagateMarkToStart (ts ! tp)])))"

text \<open>
  Lines 535-541, for worker \<open>i + 1\<close>: if it was initialised, point \<^verbatim>\<open>Number::tape\<close> to its
  tape and propagate there.
\<close>

definition propagateWorker_tapes ::
  "nat \<Rightarrow> ('p, 'm, 'r, 'T) parallel_aad_state \<times> tape list \<Rightarrow>
   ('p, 'm, 'r, 'T) parallel_aad_state \<times> tape list" where
  "propagateWorker_tapes i = (\<lambda>(s, ts).
     if init_thr s ! (i + 1) then
       Number_propagateMarkToStart (s\<lparr>Number_tape := (Number_tape s)[0 := i + 1]\<rparr>, ts)
     else (s, ts))"

text \<open>
  Modelled from the spec: a \<^verbatim>\<open>Number\<close> is "a pair (value, adjointSlot: ref-into-tape)", and
  \<^verbatim>\<open>adjoint()\<close> returns a reference to the adjoint of its node. \<open>nodeOf x\<close> is the position
  of the node of \<open>x\<close> on the tape it was recorded on: the parameters of the clone of thread
  \<open>t\<close> are put on tape \<open>t\<close> (\<^verbatim>\<open>initSimul\<close> runs on thread \<open>t\<close>), and \<^verbatim>\<open>parameters()\<close> returns
  copies, which refer to the same nodes. \<open>addAdjoint k x\<close> is \<^verbatim>\<open>adjoint() += x\<close> on node \<open>k\<close>.
\<close>

definition addAdjoint :: "nat \<Rightarrow> real \<Rightarrow> tape \<Rightarrow> tape" where
  "addAdjoint k x t =
     t\<lparr>nodes := (nodes t)[k := (nodes t ! k)\<lparr>adjoint := adjoint (nodes t ! k) + x\<rparr>]\<rparr>"

text \<open>
  Lines 553-560, for worker \<open>i + 1\<close>: \<^verbatim>\<open>params0[j].adjoint() += params[j].adjoint()\<close> reads
  the adjoint of the node of \<^verbatim>\<open>params[j]\<close> on the worker's tape and adds it to the adjoint of
  the node of \<^verbatim>\<open>params0[j]\<close> on the main tape.
\<close>

definition accumulateWorker_tapes ::
  "('m, 'T) Model \<Rightarrow> ('T \<Rightarrow> nat) \<Rightarrow> 'T list \<Rightarrow> nat \<Rightarrow>
   ('p, 'm, 'r, 'T) parallel_aad_state \<times> tape list \<Rightarrow>
   ('p, 'm, 'r, 'T) parallel_aad_state \<times> tape list" where
  "accumulateWorker_tapes M nodeOf params0 i = (\<lambda>(s, ts).
     if init_thr s ! (i + 1) then
       (let params = parameters M (the (cMdl_thr s ! (i + 1)))
        in forLoop 0 (length params0)
             (\<lambda>j (s, ts).
                (call_on 0 (Adjoint_add (i + 1) j) s,
                 ts[0 := addAdjoint (nodeOf (params0 ! j))
                           (adjoint (nodes (ts ! (i + 1)) ! nodeOf (params ! j))) (ts ! 0)]))
             (s, ts))
     else (s, ts))"

text \<open>Lines 526-561 as a whole, in the order of the source.\<close>

definition mcParallelSimulAAD_finish_tapes ::
  "('m, 'T) Model \<Rightarrow> ('T \<Rightarrow> nat) \<Rightarrow> nat \<Rightarrow>
   ('p, 'm, 'r, 'T) parallel_aad_state \<times> tape list \<Rightarrow>
   ('p, 'm, 'r, 'T) parallel_aad_state \<times> tape list" where
  "mcParallelSimulAAD_finish_tapes M nodeOf nThread = (\<lambda>(s, ts).
     (let (s1, ts1) = Number_propagateMarkToStart (s, ts);
          mainThreadPtr = Number_tape s1 ! 0;
          (s2, ts2) = forLoop 0 nThread propagateWorker_tapes (s1, ts1);
          s3 = s2\<lparr>Number_tape := (Number_tape s2)[0 := mainThreadPtr]\<rparr>;
          params0 = parameters M (the (cMdl_thr s3 ! 0))
      in forLoop 0 nThread (accumulateWorker_tapes M nodeOf params0) (s3, ts2)))"

text \<open>
  The state when the last task has returned (the definition of \<^verbatim>\<open>mcParallelSimulAAD_exec\<close>
  up to line 524), and the simulator run on the tapes \<open>ts\<close> as the tasks left them.
\<close>

definition mcParallelSimulAAD_tasksDone ::
  "('p, 'T) Product \<Rightarrow> ('m, 'T) Model \<Rightarrow> 'r RNG \<Rightarrow> 'T Number \<Rightarrow> 'p \<Rightarrow> 'm \<Rightarrow> 'r \<Rightarrow>
   nat \<Rightarrow> bool \<Rightarrow> nat \<Rightarrow> schedule \<Rightarrow> ('p, 'm, 'r, 'T) parallel_aad_state" where
  "mcParallelSimulAAD_tasksDone P M R N prd0 mdl0 rng0 nPath antithetic nThread sched =
     (let s0 = \<lparr>prd = prd0, mdl = mdl0, rng = rng0,
                res = replicate nPath (Number_default N),
                cMdl_thr = replicate (nThread + 1) None,
                cRng_thr = replicate (nThread + 1) None,
                gaussVecs_thr = replicate (nThread + 1) [],
                paths_thr = replicate (nThread + 1) [],
                init_thr = replicate (nThread + 1) False,
                Number_tape = replicate (nThread + 1) 0,
                traces = replicate (nThread + 1) []\<rparr>;
          s1 = initThread P M R N 0 s0;
          futures = spawnLoop 0 nPath
      in fold (\<lambda>(threadNum, k).
           mcParallelSimulAAD_task P M R N antithetic threadNum (futures ! k)) sched s1)"

definition mcParallelSimulAAD_exec_tapes ::
  "('p, 'T) Product \<Rightarrow> ('m, 'T) Model \<Rightarrow> 'r RNG \<Rightarrow> 'T Number \<Rightarrow> ('T \<Rightarrow> nat) \<Rightarrow> 'p \<Rightarrow> 'm \<Rightarrow> 'r \<Rightarrow>
   nat \<Rightarrow> bool \<Rightarrow> nat \<Rightarrow> schedule \<Rightarrow> tape list \<Rightarrow>
   ('p, 'm, 'r, 'T) parallel_aad_state \<times> tape list" where
  "mcParallelSimulAAD_exec_tapes P M R N nodeOf prd0 mdl0 rng0 nPath antithetic nThread sched ts =
     mcParallelSimulAAD_finish_tapes M nodeOf nThread
       (mcParallelSimulAAD_tasksDone P M R N prd0 mdl0 rng0 nPath antithetic nThread sched, ts)"

text \<open>
  A tape to run the statements on: a parameter and a pre-calculation twice the parameter,
  marked after both, the adjoint \<open>x\<close> accumulated on the pre-calculation.
\<close>

definition exampleTape :: "real \<Rightarrow> tape" where
  "exampleTape x =
     \<lparr>nodes = [\<lparr>adjoint = 0, inputs = []\<rparr>, \<lparr>adjoint = x, inputs = [(0, 2)]\<rparr>], markAt = 2\<rparr>"

section \<open>The simulators on a heap of objects\<close>

text \<open>
  In the definitions above an object is a value, so a clone shares nothing with its
  original by construction. In this section the products, models and generators live in a
  heap and the code holds their addresses: a reference parameter (\<^verbatim>\<open>const Product<T>& prd\<close>,
  \<^verbatim>\<open>const Model<T>& mdl\<close>, \<^verbatim>\<open>const RNG& rng\<close>) is the address of an object of the caller, a
  \<^verbatim>\<open>unique_ptr\<close> returned by \<^verbatim>\<open>clone()\<close> is the address of a new object, and a call of a
  non-\<^verbatim>\<open>const\<close> method changes the object at the address it is made on, whichever object
  that is. The four simulators are embedded once more on such a heap, line by line as
  above; what differs is only where the objects are.

  The heap also keeps the footprint of the run: the addresses returned by \<^verbatim>\<open>clone()\<close>, the
  addresses a non-\<^verbatim>\<open>const\<close> method was called on (\<^verbatim>\<open>init\<close> and \<^verbatim>\<open>putOnTape\<close> of a model; \<^verbatim>\<open>init\<close>,
  \<^verbatim>\<open>nextG\<close> and \<^verbatim>\<open>skipTo\<close> of a generator), for every tape the models whose parameters are on
  it, and the models whose parameters had an adjoint written.
\<close>

record ('p, 'm, 'r) heap =
  products :: "'p list"
  models :: "'m list"
  rngs :: "'r list"
  clonedModels :: "nat list"
  clonedRngs :: "nat list"
  writtenModels :: "nat list"
  writtenRngs :: "nat list"
  onTape :: "nat \<Rightarrow> nat list"
  adjointsWritten :: "nat list"

text \<open>The heap at the call of a simulator: the objects of the caller, and no footprint yet.\<close>

definition atCall :: "('p, 'm, 'r) heap \<Rightarrow> ('p, 'm, 'r) heap" where
  "atCall h = h\<lparr>clonedModels := [], clonedRngs := [], writtenModels := [], writtenRngs := [],
               adjointsWritten := []\<rparr>"

text \<open>
  The methods, called through an address. \<^verbatim>\<open>clone()\<close> allocates: the new object is appended
  and its address returned. The \<^verbatim>\<open>const\<close> methods (\<^verbatim>\<open>timeline\<close>, \<^verbatim>\<open>payoff\<close>, \<^verbatim>\<open>simDim\<close>,
  \<^verbatim>\<open>generatePath\<close>, \<^verbatim>\<open>parameters\<close>) read the object at the address.
\<close>

definition Model_clone_at ::
  "('m, 'T) Model \<Rightarrow> nat \<Rightarrow> ('p, 'm, 'r) heap \<Rightarrow> nat \<times> ('p, 'm, 'r) heap" where
  "Model_clone_at M a h =
     (length (models h),
      h\<lparr>models := models h @ [clone_Model M (models h ! a)],
        clonedModels := clonedModels h @ [length (models h)]\<rparr>)"

definition Model_init_at ::
  "('m, 'T) Model \<Rightarrow> Time list \<Rightarrow> nat \<Rightarrow> ('p, 'm, 'r) heap \<Rightarrow> ('p, 'm, 'r) heap" where
  "Model_init_at M tline a h =
     h\<lparr>models := (models h)[a := init_Model M tline (models h ! a)],
       writtenModels := writtenModels h @ [a]\<rparr>"

definition RNG_clone_at :: "'r RNG \<Rightarrow> nat \<Rightarrow> ('p, 'm, 'r) heap \<Rightarrow> nat \<times> ('p, 'm, 'r) heap" where
  "RNG_clone_at R a h =
     (length (rngs h),
      h\<lparr>rngs := rngs h @ [clone_RNG R (rngs h ! a)],
        clonedRngs := clonedRngs h @ [length (rngs h)]\<rparr>)"

definition RNG_init_at :: "'r RNG \<Rightarrow> nat \<Rightarrow> nat \<Rightarrow> ('p, 'm, 'r) heap \<Rightarrow> ('p, 'm, 'r) heap" where
  "RNG_init_at R d a h =
     h\<lparr>rngs := (rngs h)[a := init_RNG R d (rngs h ! a)],
       writtenRngs := writtenRngs h @ [a]\<rparr>"

definition RNG_nextG_at ::
  "'r RNG \<Rightarrow> nat \<Rightarrow> ('p, 'm, 'r) heap \<Rightarrow> real list \<times> ('p, 'm, 'r) heap" where
  "RNG_nextG_at R a h =
     (fst (nextG R (rngs h ! a)),
      h\<lparr>rngs := (rngs h)[a := snd (nextG R (rngs h ! a))],
        writtenRngs := writtenRngs h @ [a]\<rparr>)"

definition RNG_skipTo_at :: "'r RNG \<Rightarrow> int \<Rightarrow> nat \<Rightarrow> ('p, 'm, 'r) heap \<Rightarrow> ('p, 'm, 'r) heap" where
  "RNG_skipTo_at R b a h =
     h\<lparr>rngs := (rngs h)[a := skipTo R b (rngs h ! a)],
       writtenRngs := writtenRngs h @ [a]\<rparr>"

text \<open>
  Modelled from the spec: where adjoints are written. \<^verbatim>\<open>putOnTape()\<close> "registers parameters
  as leaf tape nodes" of the current tape, \<^verbatim>\<open>rewind()\<close> "releases all nodes", and a
  propagation (\<^verbatim>\<open>propagateToMark\<close>, \<^verbatim>\<open>propagateMarkToStart\<close>) accumulates into the adjoints of
  nodes of the tape it runs on: it can write the adjoints of the parameters of the models
  registered on that tape since its last rewind, and of no other model. \<^verbatim>\<open>mark()\<close> and
  \<^verbatim>\<open>rewindToMark()\<close> leave the parameters on the tape and are not part of the heap.
  \<open>Adjoint_add_at a\<close> is \<^verbatim>\<open>x.adjoint() += ...\<close> for a parameter \<open>x\<close> of the model at \<open>a\<close>
  (\<^verbatim>\<open>parameters()\<close> returns copies, which refer to the nodes of the model's parameters).
\<close>

definition Tape_rewind_at :: "nat \<Rightarrow> ('p, 'm, 'r) heap \<Rightarrow> ('p, 'm, 'r) heap" where
  "Tape_rewind_at tp h = h\<lparr>onTape := (onTape h)(tp := [])\<rparr>"

definition Model_putOnTape_at ::
  "('m, 'T) Model \<Rightarrow> nat \<Rightarrow> nat \<Rightarrow> ('p, 'm, 'r) heap \<Rightarrow> ('p, 'm, 'r) heap" where
  "Model_putOnTape_at M tp a h =
     h\<lparr>models := (models h)[a := putOnTape M (models h ! a)],
       writtenModels := writtenModels h @ [a],
       onTape := (onTape h)(tp := onTape h tp @ [a])\<rparr>"

definition Tape_propagate_at :: "nat \<Rightarrow> ('p, 'm, 'r) heap \<Rightarrow> ('p, 'm, 'r) heap" where
  "Tape_propagate_at tp h = h\<lparr>adjointsWritten := adjointsWritten h @ onTape h tp\<rparr>"

definition Adjoint_add_at :: "nat \<Rightarrow> ('p, 'm, 'r) heap \<Rightarrow> ('p, 'm, 'r) heap" where
  "Adjoint_add_at a h = h\<lparr>adjointsWritten := adjointsWritten h @ [a]\<rparr>"

text \<open>The antithetic block of the four loops, on the generator at address \<open>a\<close>.\<close>

definition antitheticStep_at ::
  "'r RNG \<Rightarrow> bool \<Rightarrow> nat \<Rightarrow> ('p, 'm, 'r) heap \<times> real list \<times> bool \<Rightarrow>
   ('p, 'm, 'r) heap \<times> real list \<times> bool" where
  "antitheticStep_at R antithetic a = (\<lambda>(h, gaussVec, antiPath).
     if \<not> antithetic then
       (let (g, h1) = RNG_nextG_at R a h in (h1, g, antiPath))
     else if \<not> antiPath then
       (let (g, h1) = RNG_nextG_at R a h in (h1, g, True))
     else (h, map uminus gaussVec, False))"

text \<open>
  The memory of \<^verbatim>\<open>mcSimul\<close> and \<^verbatim>\<open>mcSimulAAD\<close>: the heap, and the locals; \<^verbatim>\<open>cMdl\<close> and \<^verbatim>\<open>cRng\<close>
  are addresses. The fields are suffixed, the simulators above having fields of the same
  names.
\<close>

record ('p, 'm, 'r, 'T) heap_results =
  hp :: "('p, 'm, 'r) heap"
  res_s :: "'T list"

record ('p, 'm, 'r, 'T) heap_clones = "('p, 'm, 'r, 'T) heap_results" +
  cMdl_s :: nat
  cRng_s :: nat

record ('p, 'm, 'r, 'T) simul_heap = "('p, 'm, 'r, 'T) heap_clones" +
  gaussVec_s :: "real list"
  path_s :: "'T scenario list"
  antiPath_s :: bool

text \<open>\<^verbatim>\<open>mcSimul\<close> (lines 93-141); \<open>prdRef\<close>, \<open>mdlRef\<close> and \<open>rngRef\<close> are the three references.\<close>

definition mcSimul_heap_body ::
  "('p, 'T) Product \<Rightarrow> ('m, 'T) Model \<Rightarrow> 'r RNG \<Rightarrow> bool \<Rightarrow> nat \<Rightarrow> nat \<Rightarrow>
   ('p, 'm, 'r, 'T) simul_heap \<Rightarrow> ('p, 'm, 'r, 'T) simul_heap" where
  "mcSimul_heap_body P M R antithetic prdRef i s =
     (let (h, g, a) = antitheticStep_at R antithetic (cRng_s s) (hp s, gaussVec_s s, antiPath_s s);
          s1 = s\<lparr>hp := h, gaussVec_s := g, antiPath_s := a\<rparr>;
          s2 = s1\<lparr>path_s := generatePath M (models (hp s1) ! cMdl_s s1) (gaussVec_s s1)\<rparr>
      in s2\<lparr>res_s := (res_s s2)[i := payoff P (products (hp s2) ! prdRef) (path_s s2)]\<rparr>)"

definition mcSimul_heap ::
  "('p, real) Product \<Rightarrow> ('m, real) Model \<Rightarrow> 'r RNG \<Rightarrow> nat \<Rightarrow> nat \<Rightarrow> nat \<Rightarrow> nat \<Rightarrow> bool \<Rightarrow>
   ('p, 'm, 'r) heap \<Rightarrow> ('p, 'm, 'r, real) simul_heap" where
  "mcSimul_heap P M R prdRef mdlRef rngRef nPath antithetic h0 =
     (let (cMdl0, h1) = Model_clone_at M mdlRef h0;
          (cRng0, h2) = RNG_clone_at R rngRef h1;
          res0 = replicate nPath 0;
          h3 = Model_init_at M (timeline P (products h2 ! prdRef)) cMdl0 h2;
          h4 = RNG_init_at R (simDim_Model M (models h3 ! cMdl0)) cRng0 h3;
          gaussVec0 = replicate (simDim_Model M (models h4 ! cMdl0)) 0;
          path0 = replicate (length (timeline P (products h4 ! prdRef))) \<lparr>spot = 0\<rparr>
      in forLoop 0 nPath (mcSimul_heap_body P M R antithetic prdRef)
           \<lparr>hp = h4, res_s = res0, cMdl_s = cMdl0, cRng_s = cRng0,
            gaussVec_s = gaussVec0, path_s = path0, antiPath_s = False\<rparr>)"

text \<open>
  \<^verbatim>\<open>mcSimulAAD\<close> (lines 247-342), on the tape \<^verbatim>\<open>Number::tape\<close> points to, tape 0: the body of
  \<^verbatim>\<open>mcSimul\<close> followed by \<^verbatim>\<open>res[i].propagateToMark(false)\<close>, and \<^verbatim>\<open>propagateMarkToStart\<close> after
  the loop.
\<close>

definition mcSimulAAD_heap_body ::
  "('p, 'T) Product \<Rightarrow> ('m, 'T) Model \<Rightarrow> 'r RNG \<Rightarrow> bool \<Rightarrow> nat \<Rightarrow> nat \<Rightarrow>
   ('p, 'm, 'r, 'T) simul_heap \<Rightarrow> ('p, 'm, 'r, 'T) simul_heap" where
  "mcSimulAAD_heap_body P M R antithetic prdRef i s =
     (let s1 = mcSimul_heap_body P M R antithetic prdRef i s
      in s1\<lparr>hp := Tape_propagate_at 0 (hp s1)\<rparr>)"

definition mcSimulAAD_heap ::
  "('p, 'T) Product \<Rightarrow> ('m, 'T) Model \<Rightarrow> 'r RNG \<Rightarrow> 'T Number \<Rightarrow> nat \<Rightarrow> nat \<Rightarrow> nat \<Rightarrow> nat \<Rightarrow> bool \<Rightarrow>
   ('p, 'm, 'r) heap \<Rightarrow> ('p, 'm, 'r, 'T) simul_heap" where
  "mcSimulAAD_heap P M R N prdRef mdlRef rngRef nPath antithetic h0 =
     (let (cMdl0, h1) = Model_clone_at M mdlRef h0;
          (cRng0, h2) = RNG_clone_at R rngRef h1;
          h3 = Tape_rewind_at 0 h2;
          h4 = Model_putOnTape_at M 0 cMdl0 h3;
          h5 = Model_init_at M (timeline P (products h4 ! prdRef)) cMdl0 h4;
          res0 = replicate nPath (Number_default N);
          h6 = RNG_init_at R (simDim_Model M (models h5 ! cMdl0)) cRng0 h5;
          gaussVec0 = replicate (simDim_Model M (models h6 ! cMdl0)) 0;
          path0 = replicate (length (timeline P (products h6 ! prdRef))) \<lparr>spot = Number_default N\<rparr>;
          s = forLoop 0 nPath (mcSimulAAD_heap_body P M R antithetic prdRef)
                \<lparr>hp = h6, res_s = res0, cMdl_s = cMdl0, cRng_s = cRng0,
                 gaussVec_s = gaussVec0, path_s = path0, antiPath_s = False\<rparr>
      in s\<lparr>hp := Tape_propagate_at 0 (hp s)\<rparr>)"

text \<open>\<^verbatim>\<open>mcParallelSimul\<close> (lines 145-237); \<^verbatim>\<open>taskRng\<close> is the address of the task's clone.\<close>

record ('p, 'm, 'r, 'T) parallel_heap = "('p, 'm, 'r, 'T) heap_clones" +
  gaussVecs_s :: "real list list"
  paths_s :: "'T scenario list list"

record task_heap_locals =
  taskRng_s :: nat
  antiPath_task_s :: bool

definition mcParallelSimul_heap_body ::
  "('p, real) Product \<Rightarrow> ('m, real) Model \<Rightarrow> 'r RNG \<Rightarrow> bool \<Rightarrow> nat \<Rightarrow> nat \<Rightarrow> nat \<Rightarrow> nat \<Rightarrow>
   task_heap_locals \<times> ('p, 'm, 'r, real) parallel_heap \<Rightarrow>
   task_heap_locals \<times> ('p, 'm, 'r, real) parallel_heap" where
  "mcParallelSimul_heap_body P M R antithetic prdRef threadNum firstPath i = (\<lambda>(t, s).
     (let (h, g, a) = antitheticStep_at R antithetic (taskRng_s t)
                        (hp s, gaussVecs_s s ! threadNum, antiPath_task_s t);
          t1 = t\<lparr>antiPath_task_s := a\<rparr>;
          s1 = s\<lparr>hp := h, gaussVecs_s := (gaussVecs_s s)[threadNum := g]\<rparr>;
          s2 = s1\<lparr>paths_s := (paths_s s1)[threadNum :=
                   generatePath M (models (hp s1) ! cMdl_s s1) (gaussVecs_s s1 ! threadNum)]\<rparr>
      in (t1, s2\<lparr>res_s := (res_s s2)[firstPath + i :=
                      payoff P (products (hp s2) ! prdRef) (paths_s s2 ! threadNum)]\<rparr>)))"

definition mcParallelSimul_heap_task ::
  "('p, real) Product \<Rightarrow> ('m, real) Model \<Rightarrow> 'r RNG \<Rightarrow> bool \<Rightarrow> nat \<Rightarrow> nat \<Rightarrow> nat \<times> nat \<Rightarrow>
   ('p, 'm, 'r, real) parallel_heap \<Rightarrow> ('p, 'm, 'r, real) parallel_heap" where
  "mcParallelSimul_heap_task P M R antithetic prdRef threadNum = (\<lambda>(firstPath, pathsInTask) s.
     (let (taskRng, h1) = RNG_clone_at R (cRng_s s) (hp s);
          h2 = RNG_skipTo_at R (int (if antithetic then firstPath div 2 else firstPath)) taskRng h1
      in snd (forLoop 0 pathsInTask
                (mcParallelSimul_heap_body P M R antithetic prdRef threadNum firstPath)
                (\<lparr>taskRng_s = taskRng, antiPath_task_s = False\<rparr>, s\<lparr>hp := h2\<rparr>))))"

definition mcParallelSimul_heap ::
  "('p, real) Product \<Rightarrow> ('m, real) Model \<Rightarrow> 'r RNG \<Rightarrow> nat \<Rightarrow> nat \<Rightarrow> nat \<Rightarrow> nat \<Rightarrow> bool \<Rightarrow>
   nat \<Rightarrow> schedule \<Rightarrow> ('p, 'm, 'r) heap \<Rightarrow> ('p, 'm, 'r, real) parallel_heap" where
  "mcParallelSimul_heap P M R prdRef mdlRef rngRef nPath antithetic nThread sched h0 =
     (let (cMdl0, h1) = Model_clone_at M mdlRef h0;
          (cRng0, h2) = RNG_clone_at R rngRef h1;
          res0 = replicate nPath 0;
          h3 = Model_init_at M (timeline P (products h2 ! prdRef)) cMdl0 h2;
          h4 = RNG_init_at R (simDim_Model M (models h3 ! cMdl0)) cRng0 h3;
          gaussVecs0 = replicate (nThread + 1) (replicate (simDim_Model M (models h4 ! cMdl0)) 0);
          paths0 = replicate (nThread + 1)
                     (replicate (length (timeline P (products h4 ! prdRef))) \<lparr>spot = 0\<rparr>);
          futures = spawnLoop 0 nPath
      in fold (\<lambda>(threadNum, k).
                 mcParallelSimul_heap_task P M R antithetic prdRef threadNum (futures ! k))
           sched
           \<lparr>hp = h4, res_s = res0, cMdl_s = cMdl0, cRng_s = cRng0,
            gaussVecs_s = gaussVecs0, paths_s = paths0\<rparr>)"

text \<open>\<^verbatim>\<open>initSimul\<close> (lines 345-388) and \<^verbatim>\<open>mcParallelSimulAAD\<close> (lines 396-575).\<close>

record ('p, 'm, 'r, 'T) parallel_aad_heap = "('p, 'm, 'r, 'T) heap_results" +
  cMdl_thr_s :: "nat option list"
  cRng_thr_s :: "nat option list"
  gaussVecs_thr_s :: "real list list"
  paths_thr_s :: "'T scenario list list"
  init_thr_s :: "bool list"
  Number_tape_s :: "nat list"

definition initSimul_heap ::
  "('p, 'T) Product \<Rightarrow> ('m, 'T) Model \<Rightarrow> 'r RNG \<Rightarrow> 'T Number \<Rightarrow> nat \<Rightarrow> nat \<Rightarrow> nat \<Rightarrow> nat \<Rightarrow>
   real list \<Rightarrow> 'T scenario list \<Rightarrow> ('p, 'm, 'r) heap \<Rightarrow>
   (nat \<times> nat \<times> real list \<times> 'T scenario list) \<times> ('p, 'm, 'r) heap" where
  "initSimul_heap P M R N prdRef mdlRef rngRef tp gaussVec0 path0 h0 =
     (let (mdlClone, h1) = Model_clone_at M mdlRef h0;
          (rngClone, h2) = RNG_clone_at R rngRef h1;
          h3 = Tape_rewind_at tp h2;
          h4 = Model_putOnTape_at M tp mdlClone h3;
          h5 = Model_init_at M (timeline P (products h4 ! prdRef)) mdlClone h4;
          h6 = RNG_init_at R (simDim_Model M (models h5 ! mdlClone)) rngClone h5;
          gaussVec1 = resize (simDim_Model M (models h6 ! mdlClone)) 0 gaussVec0;
          path1 = resize (length (timeline P (products h6 ! prdRef))) \<lparr>spot = Number_default N\<rparr> path0
      in ((mdlClone, rngClone, gaussVec1, path1), h6))"

definition initThread_heap ::
  "('p, 'T) Product \<Rightarrow> ('m, 'T) Model \<Rightarrow> 'r RNG \<Rightarrow> 'T Number \<Rightarrow> nat \<Rightarrow> nat \<Rightarrow> nat \<Rightarrow> nat \<Rightarrow>
   ('p, 'm, 'r, 'T) parallel_aad_heap \<Rightarrow> ('p, 'm, 'r, 'T) parallel_aad_heap" where
  "initThread_heap P M R N prdRef mdlRef rngRef threadNum s =
     (let ((mdlClone, rngClone, gaussVec1, path1), h) =
            initSimul_heap P M R N prdRef mdlRef rngRef (Number_tape_s s ! threadNum)
              (gaussVecs_thr_s s ! threadNum) (paths_thr_s s ! threadNum) (hp s)
      in s\<lparr>hp := h,
           cMdl_thr_s := (cMdl_thr_s s)[threadNum := Some mdlClone],
           cRng_thr_s := (cRng_thr_s s)[threadNum := Some rngClone],
           gaussVecs_thr_s := (gaussVecs_thr_s s)[threadNum := gaussVec1],
           paths_thr_s := (paths_thr_s s)[threadNum := path1],
           init_thr_s := (init_thr_s s)[threadNum := True]\<rparr>)"

definition mcParallelSimulAAD_heap_body ::
  "('p, 'T) Product \<Rightarrow> ('m, 'T) Model \<Rightarrow> 'r RNG \<Rightarrow> bool \<Rightarrow> nat \<Rightarrow> nat \<Rightarrow> nat \<Rightarrow> nat \<Rightarrow>
   task_heap_locals \<times> ('p, 'm, 'r, 'T) parallel_aad_heap \<Rightarrow>
   task_heap_locals \<times> ('p, 'm, 'r, 'T) parallel_aad_heap" where
  "mcParallelSimulAAD_heap_body P M R antithetic prdRef threadNum firstPath i = (\<lambda>(t, s).
     (let tape = Number_tape_s s ! threadNum;
          (h, g, a) = antitheticStep_at R antithetic (taskRng_s t)
                        (hp s, gaussVecs_thr_s s ! threadNum, antiPath_task_s t);
          t1 = t\<lparr>antiPath_task_s := a\<rparr>;
          s1 = s\<lparr>hp := h, gaussVecs_thr_s := (gaussVecs_thr_s s)[threadNum := g]\<rparr>;
          s2 = s1\<lparr>paths_thr_s := (paths_thr_s s1)[threadNum :=
                   generatePath M (models (hp s1) ! the (cMdl_thr_s s1 ! threadNum))
                     (gaussVecs_thr_s s1 ! threadNum)]\<rparr>;
          s3 = s2\<lparr>res_s := (res_s s2)[firstPath + i :=
                   payoff P (products (hp s2) ! prdRef) (paths_thr_s s2 ! threadNum)]\<rparr>
      in (t1, s3\<lparr>hp := Tape_propagate_at tape (hp s3)\<rparr>)))"

definition mcParallelSimulAAD_heap_task ::
  "('p, 'T) Product \<Rightarrow> ('m, 'T) Model \<Rightarrow> 'r RNG \<Rightarrow> 'T Number \<Rightarrow> bool \<Rightarrow> nat \<Rightarrow> nat \<Rightarrow> nat \<Rightarrow>
   nat \<Rightarrow> nat \<times> nat \<Rightarrow>
   ('p, 'm, 'r, 'T) parallel_aad_heap \<Rightarrow> ('p, 'm, 'r, 'T) parallel_aad_heap" where
  "mcParallelSimulAAD_heap_task P M R N antithetic prdRef mdlRef rngRef threadNum =
     (\<lambda>(firstPath, pathsInTask) s.
     (let s1 = (if threadNum > 0
                then s\<lparr>Number_tape_s := (Number_tape_s s)[threadNum := threadNum]\<rparr>
                else s);
          s2 = (if \<not> init_thr_s s1 ! threadNum
                then initThread_heap P M R N prdRef mdlRef rngRef threadNum s1 else s1);
          (taskRng, h1) = RNG_clone_at R (the (cRng_thr_s s2 ! threadNum)) (hp s2);
          h2 = RNG_skipTo_at R (int (if antithetic then firstPath div 2 else firstPath)) taskRng h1
      in snd (forLoop 0 pathsInTask
                (mcParallelSimulAAD_heap_body P M R antithetic prdRef threadNum firstPath)
                (\<lparr>taskRng_s = taskRng, antiPath_task_s = False\<rparr>, s2\<lparr>hp := h2\<rparr>))))"

definition propagateWorker_heap ::
  "nat \<Rightarrow> ('p, 'm, 'r, 'T) parallel_aad_heap \<Rightarrow> ('p, 'm, 'r, 'T) parallel_aad_heap" where
  "propagateWorker_heap i s =
     (if init_thr_s s ! (i + 1) then
        (let s1 = s\<lparr>Number_tape_s := (Number_tape_s s)[0 := i + 1]\<rparr>
         in s1\<lparr>hp := Tape_propagate_at (Number_tape_s s1 ! 0) (hp s1)\<rparr>)
      else s)"

definition accumulateWorker_heap ::
  "('m, 'T) Model \<Rightarrow> 'T list \<Rightarrow> nat \<Rightarrow>
   ('p, 'm, 'r, 'T) parallel_aad_heap \<Rightarrow> ('p, 'm, 'r, 'T) parallel_aad_heap" where
  "accumulateWorker_heap M params0 i s =
     (if init_thr_s s ! (i + 1) then
        (let params = parameters M (models (hp s) ! the (cMdl_thr_s s ! (i + 1)))
         in forLoop 0 (length params0)
              (\<lambda>j s. s\<lparr>hp := Adjoint_add_at (the (cMdl_thr_s s ! 0)) (hp s)\<rparr>) s)
      else s)"

definition mcParallelSimulAAD_heap_finish ::
  "('m, 'T) Model \<Rightarrow> nat \<Rightarrow>
   ('p, 'm, 'r, 'T) parallel_aad_heap \<Rightarrow> ('p, 'm, 'r, 'T) parallel_aad_heap" where
  "mcParallelSimulAAD_heap_finish M nThread s =
     (let s1 = s\<lparr>hp := Tape_propagate_at (Number_tape_s s ! 0) (hp s)\<rparr>;
          mainThreadPtr = Number_tape_s s1 ! 0;
          s2 = forLoop 0 nThread propagateWorker_heap s1;
          s3 = s2\<lparr>Number_tape_s := (Number_tape_s s2)[0 := mainThreadPtr]\<rparr>;
          params0 = parameters M (models (hp s3) ! the (cMdl_thr_s s3 ! 0))
      in forLoop 0 nThread (accumulateWorker_heap M params0) s3)"

definition mcParallelSimulAAD_heap ::
  "('p, 'T) Product \<Rightarrow> ('m, 'T) Model \<Rightarrow> 'r RNG \<Rightarrow> 'T Number \<Rightarrow> nat \<Rightarrow> nat \<Rightarrow> nat \<Rightarrow>
   nat \<Rightarrow> bool \<Rightarrow> nat \<Rightarrow> schedule \<Rightarrow> ('p, 'm, 'r) heap \<Rightarrow> ('p, 'm, 'r, 'T) parallel_aad_heap" where
  "mcParallelSimulAAD_heap P M R N prdRef mdlRef rngRef nPath antithetic nThread sched h0 =
     (let s0 = \<lparr>hp = h0,
                res_s = replicate nPath (Number_default N),
                cMdl_thr_s = replicate (nThread + 1) None,
                cRng_thr_s = replicate (nThread + 1) None,
                gaussVecs_thr_s = replicate (nThread + 1) [],
                paths_thr_s = replicate (nThread + 1) [],
                init_thr_s = replicate (nThread + 1) False,
                Number_tape_s = replicate (nThread + 1) 0\<rparr>;
          s1 = initThread_heap P M R N prdRef mdlRef rngRef 0 s0;
          futures = spawnLoop 0 nPath;
          s2 = fold (\<lambda>(threadNum, k).
                 mcParallelSimulAAD_heap_task P M R N antithetic prdRef mdlRef rngRef threadNum
                   (futures ! k)) sched s1
      in mcParallelSimulAAD_heap_finish M nThread s2)"

text \<open>
  What a run may do to the heap \<open>h0\<close> it is called on, \<open>h\<close> being the heap it leaves: the
  products are those of \<open>h0\<close>; the models and the generators that \<open>h0\<close> holds, those the
  arguments refer to among them, are in \<open>h\<close> at the same addresses with the same values;
  every address returned by \<^verbatim>\<open>clone()\<close> is that of an object \<open>h0\<close> does not hold; a
  non-\<^verbatim>\<open>const\<close> method was called only on addresses returned by \<^verbatim>\<open>clone()\<close>; and an adjoint
  was written only for parameters of models at addresses returned by \<^verbatim>\<open>clone()\<close>.
\<close>

definition onlyClonesWritten :: "('p, 'm, 'r) heap \<Rightarrow> ('p, 'm, 'r) heap \<Rightarrow> bool" where
  "onlyClonesWritten h0 h \<longleftrightarrow>
     products h = products h0
     \<and> length (models h0) \<le> length (models h)
     \<and> take (length (models h0)) (models h) = models h0
     \<and> length (rngs h0) \<le> length (rngs h)
     \<and> take (length (rngs h0)) (rngs h) = rngs h0
     \<and> set (clonedModels h) \<subseteq> {length (models h0)..<length (models h)}
     \<and> set (clonedRngs h) \<subseteq> {length (rngs h0)..<length (rngs h)}
     \<and> set (writtenModels h) \<subseteq> set (clonedModels h)
     \<and> set (writtenRngs h) \<subseteq> set (clonedRngs h)
     \<and> set (adjointsWritten h) \<subseteq> set (clonedModels h)"

text \<open>
  A heap to run the statements on: one product, one model and one generator, the model
  being on every tape when the simulator is called.
\<close>

text \<open>
  For the proofs: what holds of the memory of each simulator between two steps. The clones
  in use are at addresses returned by \<^verbatim>\<open>clone()\<close>, and so are the models on the tape of a
  thread that is initialised.
\<close>

definition clonesOnly ::
  "('p, 'm, 'r) heap \<Rightarrow> ('p, 'm, 'r, 'T, 'z) heap_clones_scheme \<Rightarrow> bool" where
  "clonesOnly h0 s \<longleftrightarrow>
     onlyClonesWritten h0 (hp s)
     \<and> cMdl_s s \<in> set (clonedModels (hp s))
     \<and> cRng_s s \<in> set (clonedRngs (hp s))"

definition clonesOnlyTape ::
  "('p, 'm, 'r) heap \<Rightarrow> ('p, 'm, 'r, 'T, 'z) simul_heap_scheme \<Rightarrow> bool" where
  "clonesOnlyTape h0 s \<longleftrightarrow>
     clonesOnly h0 s \<and> set (onTape (hp s) 0) \<subseteq> set (clonedModels (hp s))"

definition taskClonesOnly ::
  "('p, 'm, 'r) heap \<Rightarrow> task_heap_locals \<times> ('p, 'm, 'r, 'T, 'z) heap_clones_scheme \<Rightarrow> bool" where
  "taskClonesOnly h0 = (\<lambda>(t, s). clonesOnly h0 s \<and> taskRng_s t \<in> set (clonedRngs (hp s)))"

definition threadsClonesOnly ::
  "('p, 'm, 'r) heap \<Rightarrow> nat \<Rightarrow> ('p, 'm, 'r, 'T) parallel_aad_heap \<Rightarrow> bool" where
  "threadsClonesOnly h0 nThread s \<longleftrightarrow>
     onlyClonesWritten h0 (hp s)
     \<and> length (cMdl_thr_s s) = nThread + 1
     \<and> length (cRng_thr_s s) = nThread + 1
     \<and> length (init_thr_s s) = nThread + 1
     \<and> length (Number_tape_s s) = nThread + 1
     \<and> (\<forall>t \<le> nThread. init_thr_s s ! t \<longrightarrow>
            (\<exists>a. cMdl_thr_s s ! t = Some a \<and> a \<in> set (clonedModels (hp s)))
          \<and> (\<exists>b. cRng_thr_s s ! t = Some b \<and> b \<in> set (clonedRngs (hp s)))
          \<and> set (onTape (hp s) t) \<subseteq> set (clonedModels (hp s)))"

definition taskThreadsClonesOnly ::
  "('p, 'm, 'r) heap \<Rightarrow> nat \<Rightarrow> nat \<Rightarrow>
   task_heap_locals \<times> ('p, 'm, 'r, 'T) parallel_aad_heap \<Rightarrow> bool" where
  "taskThreadsClonesOnly h0 nThread th = (\<lambda>(t, s).
     threadsClonesOnly h0 nThread s
     \<and> init_thr_s s ! th
     \<and> init_thr_s s ! 0
     \<and> Number_tape_s s ! th = th
     \<and> Number_tape_s s ! 0 = 0
     \<and> taskRng_s t \<in> set (clonedRngs (hp s)))"

definition finishInv ::
  "('p, 'm, 'r) heap \<Rightarrow> nat \<Rightarrow> bool list \<Rightarrow> nat option list \<Rightarrow>
   ('p, 'm, 'r, 'T) parallel_aad_heap \<Rightarrow> bool" where
  "finishInv h0 nThread ini cm s \<longleftrightarrow>
     threadsClonesOnly h0 nThread s \<and> init_thr_s s = ini \<and> cMdl_thr_s s = cm"

text \<open>
  A heap to run the statements on: one product, one model and one generator, the model
  being on every tape when the simulator is called.
\<close>

definition exampleHeap :: "(real, real, nat \<times> nat) heap" where
  "exampleHeap =
     \<lparr>products = [100], models = [100], rngs = [(0, 0)],
      clonedModels = [], clonedRngs = [], writtenModels = [], writtenRngs = [],
      onTape = (\<lambda>tp. [0]), adjointsWritten = []\<rparr>"

section \<open>The default skipTo: results\<close>

lemma skipTo_loop_overflow:
  "i \<le> INT_MAX \<Longrightarrow> INT_MAX < b \<Longrightarrow> skipTo_loop R i b r = Inl SignedIntOverflow"
proof (induction R i b r rule: skipTo_loop.induct)
  case (1 R i b r)
  show ?case
  proof (cases "i = INT_MAX")
    case True
    with "1.prems" show ?thesis by (subst skipTo_loop.simps) simp
  next
    case False
    with "1.prems" have lt: "i < b" and le: "i + 1 \<le> INT_MAX" by simp_all
    from "1.IH"[OF lt refl False le "1.prems"(2)] lt False show ?thesis
      by (subst skipTo_loop.simps) simp
  qed
qed

lemma skipTo_loop_in_range:
  "i \<le> b \<Longrightarrow> b \<le> INT_MAX \<Longrightarrow>
   skipTo_loop R i b r = Inr ((advance R ^^ nat (b - i)) r)"
proof (induction R i b r rule: skipTo_loop.induct)
  case (1 R i b r)
  show ?case
  proof (cases "i < b")
    case False
    with "1.prems" show ?thesis by (subst skipTo_loop.simps) simp
  next
    case True
    with "1.prems" have ne: "i \<noteq> INT_MAX" and le: "i + 1 \<le> b" by simp_all
    from True have "nat (b - i) = Suc (nat (b - (i + 1)))" by simp
    then have "(advance R ^^ nat (b - i)) r = (advance R ^^ nat (b - (i + 1))) (advance R r)"
      by (simp add: funpow_swap1)
    moreover have "snd (nextG R r) = advance R r" by (simp add: advance_def)
    ultimately show ?thesis
      using "1.IH"[OF True refl ne le "1.prems"(2)] True ne
      by (subst skipTo_loop.simps) simp
  qed
qed

text \<open>
  Claim C7 (functional skip-ahead of the default \<^verbatim>\<open>skipTo\<close>, for every \<open>k \<ge> 0\<close>). The
  contract holds up to \<open>k = INT_MAX\<close> (lemma \<open>skipTo_loop_in_range\<close>, theorem
  \<open>RNG_skipTo_contract_int_range\<close>). It fails beyond: for \<open>k = 2^31\<close>, a value of the
  parameter's type \<^verbatim>\<open>long\<close>, the \<^verbatim>\<open>int\<close> counter reaches \<^verbatim>\<open>INT_MAX\<close> while
  \<^verbatim>\<open>i < b\<close> still holds, and \<^verbatim>\<open>++i\<close> is a signed overflow, undefined behaviour: from there
  the code guarantees nothing, in particular not that the generator ends on draw \<open>2^31\<close>.
\<close>

theorem RNG_skipTo_overflows_beyond_INT_MAX:
  "RNG_skipTo R 2147483648 (clone_RNG R r) = Inl SignedIntOverflow"
  unfolding RNG_skipTo_def by (rule skipTo_loop_overflow) (simp_all add: INT_MAX_def)

text \<open>
  Within the range of the counter, the default \<^verbatim>\<open>skipTo\<close> is a functional skip-ahead:
  after \<^verbatim>\<open>skipTo(k)\<close> on a clone, \<^verbatim>\<open>nextG\<close> returns draw number \<open>k\<close> of the clone's stream,
  the vector that the \<open>(k+1)\<close>-th of \<open>k+1\<close> calls of \<^verbatim>\<open>nextG\<close> returns.
\<close>

theorem RNG_skipTo_contract_int_range:
  "0 \<le> k \<Longrightarrow> k \<le> INT_MAX \<Longrightarrow>
   (\<exists>r'. RNG_skipTo R k (clone_RNG R r) = Inr r' \<and>
         fst (nextG R r') = draw R (clone_RNG R r) (nat k))"
  by (simp add: RNG_skipTo_def skipTo_loop_in_range draw_def)

section \<open>Loops and the antithetic block: results\<close>

lemma forLoop_fold: "forLoop i n body s = fold body [i..<n] s"
proof (induction i n body s rule: forLoop.induct)
  case (1 i n body s)
  show ?case
  proof (cases "i < n")
    case True
    then have "[i..<n] = i # [i + 1..<n]" by (simp add: upt_conv_Cons)
    with "1.IH"[OF True] True show ?thesis by (subst forLoop.simps) simp
  next
    case False
    then show ?thesis by (subst forLoop.simps) simp
  qed
qed

lemma forLoop_0 [simp]: "forLoop i i body s = s"
  by (simp add: forLoop_fold)

lemma forLoop_Suc: "i \<le> n \<Longrightarrow> forLoop i (Suc n) body s = body n (forLoop i n body s)"
  by (simp add: forLoop_fold)

lemma antitheticStep_plain:
  "antitheticStep R False (r, g, a) = (advance R r, fst (nextG R r), a)"
  by (simp add: antitheticStep_def advance_def)

lemma antitheticStep_primary:
  "antitheticStep R True (r, g, False) = (advance R r, fst (nextG R r), True)"
  by (simp add: antitheticStep_def advance_def)

lemma antitheticStep_negate:
  "antitheticStep R True (r, g, True) = (r, map uminus g, False)"
  by (simp add: antitheticStep_def)

lemma antitheticStep_iterate:
  "(antitheticStep R antithetic ^^ k) (r, g, False) =
     ((advance R ^^ drawsUsed antithetic k) r,
      (if k = 0 then g else gaussSeq R antithetic r (k - 1)),
      antithetic \<and> odd k)"
proof (induction k)
  case 0
  show ?case by (simp add: drawsUsed_def)
next
  case (Suc k)
  have step: "(antitheticStep R antithetic ^^ Suc k) (r, g, False) =
      antitheticStep R antithetic ((antitheticStep R antithetic ^^ k) (r, g, False))"
    by simp
  show ?case
  proof (cases antithetic)
    case False
    then show ?thesis unfolding step Suc
      by (simp add: antitheticStep_plain drawsUsed_def gaussSeq_def draw_def)
  next
    case True
    show ?thesis
    proof (cases "odd k")
      case odd: True
      then have k: "k \<noteq> 0" "even (k - 1)" "(k - 1) div 2 = k div 2"
        by (auto elim: oddE)
      from odd have d: "(Suc k + 1) div 2 = (k + 1) div 2" by (auto elim: oddE)
      show ?thesis unfolding step Suc using True odd k d
        by (simp add: antitheticStep_negate drawsUsed_def gaussSeq_def)
    next
      case even: False
      then have d: "(Suc k + 1) div 2 = Suc ((k + 1) div 2)" "(k + 1) div 2 = k div 2"
        by (auto elim: evenE)
      show ?thesis unfolding step Suc using True even d
        by (simp add: antitheticStep_primary drawsUsed_def gaussSeq_def draw_def)
    qed
  qed
qed

section \<open>mcSimul: results\<close>

lemma mcSimul_body_simps:
  "prd (mcSimul_body P M R antithetic i s) = prd s"
  "mdl (mcSimul_body P M R antithetic i s) = mdl s"
  "rng (mcSimul_body P M R antithetic i s) = rng s"
  "cMdl (mcSimul_body P M R antithetic i s) = cMdl s"
  "(cRng (mcSimul_body P M R antithetic i s), gaussVec (mcSimul_body P M R antithetic i s),
    antiPath (mcSimul_body P M R antithetic i s))
     = antitheticStep R antithetic (cRng s, gaussVec s, antiPath s)"
  "res (mcSimul_body P M R antithetic i s) =
     (res s)[i := payoff P (prd s) (generatePath M (cMdl s)
        (fst (snd (antitheticStep R antithetic (cRng s, gaussVec s, antiPath s)))))]"
  by (simp_all add: mcSimul_body_def Let_def split: prod.split)

lemma mcSimul_loop:
  assumes "k \<le> length (res s0)" and "antiPath s0 = False"
  shows "prd (forLoop 0 k (mcSimul_body P M R antithetic) s0) = prd s0
       \<and> mdl (forLoop 0 k (mcSimul_body P M R antithetic) s0) = mdl s0
       \<and> rng (forLoop 0 k (mcSimul_body P M R antithetic) s0) = rng s0
       \<and> cMdl (forLoop 0 k (mcSimul_body P M R antithetic) s0) = cMdl s0
       \<and> (cRng (forLoop 0 k (mcSimul_body P M R antithetic) s0),
          gaussVec (forLoop 0 k (mcSimul_body P M R antithetic) s0),
          antiPath (forLoop 0 k (mcSimul_body P M R antithetic) s0))
           = (antitheticStep R antithetic ^^ k) (cRng s0, gaussVec s0, False)
       \<and> length (res (forLoop 0 k (mcSimul_body P M R antithetic) s0)) = length (res s0)
       \<and> (\<forall>i<k. res (forLoop 0 k (mcSimul_body P M R antithetic) s0) ! i
                  = pathValue P M R antithetic (prd s0) (cMdl s0) (cRng s0) i)
       \<and> (\<forall>i\<ge>k. res (forLoop 0 k (mcSimul_body P M R antithetic) s0) ! i = res s0 ! i)"
  using assms(1)
proof (induction k)
  case 0
  show ?case using assms(2) by simp
next
  case (Suc k)
  let ?s = "forLoop 0 k (mcSimul_body P M R antithetic) s0"
  from Suc have IH:
    "prd ?s = prd s0" "mdl ?s = mdl s0" "rng ?s = rng s0" "cMdl ?s = cMdl s0"
    "(cRng ?s, gaussVec ?s, antiPath ?s) = (antitheticStep R antithetic ^^ k) (cRng s0, gaussVec s0, False)"
    "length (res ?s) = length (res s0)"
    "\<forall>i<k. res ?s ! i = pathValue P M R antithetic (prd s0) (cMdl s0) (cRng s0) i"
    "\<forall>i\<ge>k. res ?s ! i = res s0 ! i"
    by simp_all
  have unfold: "forLoop 0 (Suc k) (mcSimul_body P M R antithetic) s0
      = mcSimul_body P M R antithetic k ?s"
    by (simp add: forLoop_Suc)
  have trip: "antitheticStep R antithetic (cRng ?s, gaussVec ?s, antiPath ?s)
      = (antitheticStep R antithetic ^^ Suc k) (cRng s0, gaussVec s0, False)"
    by (simp add: IH(5))
  have g: "fst (snd (antitheticStep R antithetic (cRng ?s, gaussVec ?s, antiPath ?s)))
      = gaussSeq R antithetic (cRng s0) k"
    unfolding trip by (simp add: antitheticStep_iterate del: funpow.simps)
  have klt: "k < length (res ?s)" using Suc.prems IH(6) by simp
  let ?t = "mcSimul_body P M R antithetic k ?s"
  have res_t: "res ?t = (res ?s)[k := pathValue P M R antithetic (prd s0) (cMdl s0) (cRng s0) k]"
    by (simp only: mcSimul_body_simps(6) g IH(1,4) pathValue_def)
  have c1: "prd ?t = prd s0" "mdl ?t = mdl s0" "rng ?t = rng s0" "cMdl ?t = cMdl s0"
    by (simp_all only: mcSimul_body_simps(1-4) IH(1-4))
  have c5: "(cRng ?t, gaussVec ?t, antiPath ?t)
      = (antitheticStep R antithetic ^^ Suc k) (cRng s0, gaussVec s0, False)"
    by (simp only: mcSimul_body_simps(5) trip)
  have c6: "length (res ?t) = length (res s0)"
    by (simp add: res_t IH(6))
  have c7: "\<forall>i<Suc k. res ?t ! i = pathValue P M R antithetic (prd s0) (cMdl s0) (cRng s0) i"
    using klt IH(7) by (simp add: res_t nth_list_update less_Suc_eq)
  have c8: "\<forall>i\<ge>Suc k. res ?t ! i = res s0 ! i"
    using IH(8) by (simp add: res_t nth_list_update)
  show ?case
    unfolding unfold by (intro conjI c1 c5 c6 c7 c8)
qed

section \<open>mcParallelSimul: results\<close>

lemma mcParallelSimul_body_simps:
  "prd (snd (mcParallelSimul_body P M R antithetic th f i (t, s))) = prd s"
  "mdl (snd (mcParallelSimul_body P M R antithetic th f i (t, s))) = mdl s"
  "rng (snd (mcParallelSimul_body P M R antithetic th f i (t, s))) = rng s"
  "cMdl (snd (mcParallelSimul_body P M R antithetic th f i (t, s))) = cMdl s"
  "cRng (snd (mcParallelSimul_body P M R antithetic th f i (t, s))) = cRng s"
  "length (gaussVecs (snd (mcParallelSimul_body P M R antithetic th f i (t, s)))) = length (gaussVecs s)"
  "length (paths (snd (mcParallelSimul_body P M R antithetic th f i (t, s)))) = length (paths s)"
  by (simp_all add: mcParallelSimul_body_def Let_def split: prod.split)

lemma mcParallelSimul_body_step:
  assumes "th < length (gaussVecs s)"
  shows "(taskRng (fst (mcParallelSimul_body P M R antithetic th f i (t, s))),
          gaussVecs (snd (mcParallelSimul_body P M R antithetic th f i (t, s))) ! th,
          antiPath_task (fst (mcParallelSimul_body P M R antithetic th f i (t, s))))
         = antitheticStep R antithetic (taskRng t, gaussVecs s ! th, antiPath_task t)"
  using assms by (simp add: mcParallelSimul_body_def Let_def split: prod.split)

lemma mcParallelSimul_body_res:
  assumes "th < length (gaussVecs s)" "th < length (paths s)"
  shows "res (snd (mcParallelSimul_body P M R antithetic th f i (t, s))) =
     (res s)[f + i := payoff P (prd s) (generatePath M (cMdl s)
        (fst (snd (antitheticStep R antithetic (taskRng t, gaussVecs s ! th, antiPath_task t)))))]"
  using assms by (simp add: mcParallelSimul_body_def Let_def split: prod.split)

lemma mcParallelSimul_loop:
  assumes "th < length (gaussVecs s0)" "th < length (paths s0)" "antiPath_task t0 = False"
  shows "prd (snd (forLoop 0 k (mcParallelSimul_body P M R antithetic th f) (t0, s0))) = prd s0
       \<and> mdl (snd (forLoop 0 k (mcParallelSimul_body P M R antithetic th f) (t0, s0))) = mdl s0
       \<and> rng (snd (forLoop 0 k (mcParallelSimul_body P M R antithetic th f) (t0, s0))) = rng s0
       \<and> cMdl (snd (forLoop 0 k (mcParallelSimul_body P M R antithetic th f) (t0, s0))) = cMdl s0
       \<and> cRng (snd (forLoop 0 k (mcParallelSimul_body P M R antithetic th f) (t0, s0))) = cRng s0
       \<and> length (gaussVecs (snd (forLoop 0 k (mcParallelSimul_body P M R antithetic th f) (t0, s0))))
           = length (gaussVecs s0)
       \<and> length (paths (snd (forLoop 0 k (mcParallelSimul_body P M R antithetic th f) (t0, s0))))
           = length (paths s0)
       \<and> (taskRng (fst (forLoop 0 k (mcParallelSimul_body P M R antithetic th f) (t0, s0))),
          gaussVecs (snd (forLoop 0 k (mcParallelSimul_body P M R antithetic th f) (t0, s0))) ! th,
          antiPath_task (fst (forLoop 0 k (mcParallelSimul_body P M R antithetic th f) (t0, s0))))
           = (antitheticStep R antithetic ^^ k) (taskRng t0, gaussVecs s0 ! th, False)
       \<and> length (res (snd (forLoop 0 k (mcParallelSimul_body P M R antithetic th f) (t0, s0))))
           = length (res s0)
       \<and> (\<forall>j. res (snd (forLoop 0 k (mcParallelSimul_body P M R antithetic th f) (t0, s0))) ! j
               = (if f \<le> j \<and> j < f + k \<and> j < length (res s0)
                  then pathValue P M R antithetic (prd s0) (cMdl s0) (taskRng t0) (j - f)
                  else res s0 ! j))"
proof (induction k)
  case 0
  show ?case using assms(3) by simp
next
  case (Suc k)
  obtain t s where L: "forLoop 0 k (mcParallelSimul_body P M R antithetic th f) (t0, s0) = (t, s)"
    by (cases "forLoop 0 k (mcParallelSimul_body P M R antithetic th f) (t0, s0)")
  from Suc have IH:
    "prd s = prd s0" "mdl s = mdl s0" "rng s = rng s0" "cMdl s = cMdl s0" "cRng s = cRng s0"
    "length (gaussVecs s) = length (gaussVecs s0)" "length (paths s) = length (paths s0)"
    "(taskRng t, gaussVecs s ! th, antiPath_task t)
       = (antitheticStep R antithetic ^^ k) (taskRng t0, gaussVecs s0 ! th, False)"
    "length (res s) = length (res s0)"
    "\<forall>j. res s ! j = (if f \<le> j \<and> j < f + k \<and> j < length (res s0)
                  then pathValue P M R antithetic (prd s0) (cMdl s0) (taskRng t0) (j - f)
                  else res s0 ! j)"
    unfolding L by simp_all
  have th1: "th < length (gaussVecs s)" and th2: "th < length (paths s)"
    using assms IH(6,7) by simp_all
  let ?N = "mcParallelSimul_body P M R antithetic th f k (t, s)"
  have unfold: "forLoop 0 (Suc k) (mcParallelSimul_body P M R antithetic th f) (t0, s0) = ?N"
    by (simp add: forLoop_Suc L)
  have trip: "antitheticStep R antithetic (taskRng t, gaussVecs s ! th, antiPath_task t)
      = (antitheticStep R antithetic ^^ Suc k) (taskRng t0, gaussVecs s0 ! th, False)"
    by (simp add: IH(8))
  have g: "fst (snd (antitheticStep R antithetic (taskRng t, gaussVecs s ! th, antiPath_task t)))
      = gaussSeq R antithetic (taskRng t0) k"
    unfolding trip by (simp add: antitheticStep_iterate del: funpow.simps)
  have res_N: "res (snd ?N) = (res s)[f + k :=
      pathValue P M R antithetic (prd s0) (cMdl s0) (taskRng t0) k]"
    using mcParallelSimul_body_res[OF th1 th2, of P M R antithetic f k t]
    by (simp only: g IH(1,4) pathValue_def)
  have c1: "prd (snd ?N) = prd s0" "mdl (snd ?N) = mdl s0" "rng (snd ?N) = rng s0"
    "cMdl (snd ?N) = cMdl s0" "cRng (snd ?N) = cRng s0"
    "length (gaussVecs (snd ?N)) = length (gaussVecs s0)"
    "length (paths (snd ?N)) = length (paths s0)"
    using mcParallelSimul_body_simps[of P M R antithetic th f k t s] IH(1-7) by simp_all
  have c8: "(taskRng (fst ?N), gaussVecs (snd ?N) ! th, antiPath_task (fst ?N))
      = (antitheticStep R antithetic ^^ Suc k) (taskRng t0, gaussVecs s0 ! th, False)"
    using mcParallelSimul_body_step[OF th1, of P M R antithetic f k t] trip by simp
  have c9: "length (res (snd ?N)) = length (res s0)"
    by (simp add: res_N IH(9))
  have c10: "\<forall>j. res (snd ?N) ! j
               = (if f \<le> j \<and> j < f + Suc k \<and> j < length (res s0)
                  then pathValue P M R antithetic (prd s0) (cMdl s0) (taskRng t0) (j - f)
                  else res s0 ! j)"
  proof
    fix j
    show "res (snd ?N) ! j
               = (if f \<le> j \<and> j < f + Suc k \<and> j < length (res s0)
                  then pathValue P M R antithetic (prd s0) (cMdl s0) (taskRng t0) (j - f)
                  else res s0 ! j)"
    proof (cases "j = f + k")
      case True
      show ?thesis
      proof (cases "j < length (res s0)")
        case inr: True
        then show ?thesis using True by (simp add: res_N IH(9))
      next
        case False
        then show ?thesis using True IH(10) by (simp add: res_N IH(9) list_update_beyond)
      qed
    next
      case False
      then have "res (snd ?N) ! j = res s ! j" by (simp add: res_N)
      also have "\<dots> = (if f \<le> j \<and> j < f + k \<and> j < length (res s0)
                  then pathValue P M R antithetic (prd s0) (cMdl s0) (taskRng t0) (j - f)
                  else res s0 ! j)" using IH(10) by simp
      finally show ?thesis using False by (auto simp: less_Suc_eq)
    qed
  qed
  show ?case
    unfolding unfold by (intro conjI c1 c8 c9 c10)
qed

lemma mcParallelSimul_task_effect:
  assumes "th < length (gaussVecs s)" "th < length (paths s)"
  shows "prd (mcParallelSimul_task P M R antithetic th (f, n) s) = prd s"
    and "mdl (mcParallelSimul_task P M R antithetic th (f, n) s) = mdl s"
    and "rng (mcParallelSimul_task P M R antithetic th (f, n) s) = rng s"
    and "cMdl (mcParallelSimul_task P M R antithetic th (f, n) s) = cMdl s"
    and "cRng (mcParallelSimul_task P M R antithetic th (f, n) s) = cRng s"
    and "length (gaussVecs (mcParallelSimul_task P M R antithetic th (f, n) s)) = length (gaussVecs s)"
    and "length (paths (mcParallelSimul_task P M R antithetic th (f, n) s)) = length (paths s)"
    and "length (res (mcParallelSimul_task P M R antithetic th (f, n) s)) = length (res s)"
    and "res (mcParallelSimul_task P M R antithetic th (f, n) s) ! j
          = (if f \<le> j \<and> j < f + n \<and> j < length (res s)
             then pathValue P M R antithetic (prd s) (cMdl s)
                    (skipTo R (int (if antithetic then f div 2 else f)) (clone_RNG R (cRng s))) (j - f)
             else res s ! j)"
proof -
  let ?t0 = "\<lparr>taskRng = skipTo R (int (if antithetic then f div 2 else f)) (clone_RNG R (cRng s)),
              antiPath_task = False\<rparr>"
  have task: "mcParallelSimul_task P M R antithetic th (f, n) s
      = snd (forLoop 0 n (mcParallelSimul_body P M R antithetic th f) (?t0, s))"
    by (simp add: mcParallelSimul_task_def Let_def)
  have a3: "antiPath_task ?t0 = False" by simp
  note L = mcParallelSimul_loop[OF assms a3, where P=P and M=M and R=R and antithetic=antithetic
      and k=n and f=f]
  show "prd (mcParallelSimul_task P M R antithetic th (f, n) s) = prd s"
    and "mdl (mcParallelSimul_task P M R antithetic th (f, n) s) = mdl s"
    and "rng (mcParallelSimul_task P M R antithetic th (f, n) s) = rng s"
    and "cMdl (mcParallelSimul_task P M R antithetic th (f, n) s) = cMdl s"
    and "cRng (mcParallelSimul_task P M R antithetic th (f, n) s) = cRng s"
    and "length (gaussVecs (mcParallelSimul_task P M R antithetic th (f, n) s)) = length (gaussVecs s)"
    and "length (paths (mcParallelSimul_task P M R antithetic th (f, n) s)) = length (paths s)"
    and "length (res (mcParallelSimul_task P M R antithetic th (f, n) s)) = length (res s)"
    unfolding task using L by simp_all
  from L have "\<forall>j. res (snd (forLoop 0 n (mcParallelSimul_body P M R antithetic th f) (?t0, s))) ! j
               = (if f \<le> j \<and> j < f + n \<and> j < length (res s)
                  then pathValue P M R antithetic (prd s) (cMdl s) (taskRng ?t0) (j - f)
                  else res s ! j)"
    by blast
  then show "res (mcParallelSimul_task P M R antithetic th (f, n) s) ! j
          = (if f \<le> j \<and> j < f + n \<and> j < length (res s)
             then pathValue P M R antithetic (prd s) (cMdl s)
                    (skipTo R (int (if antithetic then f div 2 else f)) (clone_RNG R (cRng s))) (j - f)
             else res s ! j)"
    unfolding task by simp
qed

text \<open>spawnLoop\<close>

lemma spawnLoop_ranges:
  "concat (map (\<lambda>(f, n). [f..<f + n]) (spawnLoop f0 left)) = [f0..<f0 + left]"
proof (induction f0 left rule: spawnLoop.induct)
  case (1 f0 left)
  show ?case
  proof (cases "left > 0")
    case False
    then show ?thesis by (subst spawnLoop.simps) simp
  next
    case True
    let ?n = "min left BATCHSIZE"
    have "f0 + left = f0 + ?n + (left - ?n)" by simp
    then have "[f0..<f0 + left] = [f0..<f0 + ?n] @ [f0 + ?n..<f0 + ?n + (left - ?n)]"
      using upt_add_eq_append[of f0 "f0 + ?n" "left - ?n"] by simp
    with "1.IH"[OF True refl] True show ?thesis
      by (subst spawnLoop.simps) (simp add: Let_def)
  qed
qed

lemma spawnLoop_task:
  "(f, n) \<in> set (spawnLoop f0 left) \<Longrightarrow>
     f0 \<le> f \<and> BATCHSIZE dvd (f - f0) \<and> 0 < n \<and> n = min (f0 + left - f) BATCHSIZE \<and> f + n \<le> f0 + left"
proof (induction f0 left rule: spawnLoop.induct)
  case (1 f0 left)
  show ?case
  proof (cases "left > 0")
    case False
    with "1.prems" show ?thesis by (subst (asm) spawnLoop.simps) simp
  next
    case True
    let ?n = "min left BATCHSIZE"
    from "1.prems" True
    have "(f, n) = (f0, ?n) \<or> (f, n) \<in> set (spawnLoop (f0 + ?n) (left - ?n))"
      by (subst (asm) spawnLoop.simps) (simp add: Let_def)
    then show ?thesis
    proof
      assume "(f, n) = (f0, ?n)"
      with True show ?thesis by (auto simp: BATCHSIZE_def)
    next
      assume "(f, n) \<in> set (spawnLoop (f0 + ?n) (left - ?n))"
      from "1.IH"[OF True refl this]
      have *: "f0 + ?n \<le> f" "BATCHSIZE dvd (f - (f0 + ?n))" "0 < n"
        "n = min (f0 + ?n + (left - ?n) - f) BATCHSIZE" "f + n \<le> f0 + ?n + (left - ?n)"
        by blast+
      have "f0 \<le> f" using *(1) by simp
      moreover have "BATCHSIZE dvd (f - f0)"
      proof (cases "left \<le> BATCHSIZE")
        case True
        with *(1,5) \<open>0 < n\<close> show ?thesis by (simp add: min_def BATCHSIZE_def split: if_splits)
      next
        case False
        then have n: "?n = BATCHSIZE" by simp
        with *(1) have "f - f0 = (f - (f0 + BATCHSIZE)) + BATCHSIZE" by simp
        with *(2) n show ?thesis by (metis dvd_add dvd_refl)
      qed
      moreover have "n = min (f0 + left - f) BATCHSIZE" using *(4) by simp
      moreover have "f + n \<le> f0 + left" using *(5) by simp
      ultimately show ?thesis using *(3) by simp
    qed
  qed
qed

lemma spawnLoop_cover:
  "(\<exists>(f, n) \<in> set (spawnLoop f0 left). f \<le> j \<and> j < f + n) \<longleftrightarrow> f0 \<le> j \<and> j < f0 + left"
proof -
  have "j \<in> set (concat (map (\<lambda>(f, n). [f..<f + n]) (spawnLoop f0 left)))
        \<longleftrightarrow> f0 \<le> j \<and> j < f0 + left"
    by (simp only: spawnLoop_ranges) simp
  then show ?thesis by auto
qed

lemma gaussSeq_skip:
  assumes "exact_skip R r" and "antithetic \<longrightarrow> even f"
  shows "gaussSeq R antithetic (skipTo R (int (if antithetic then f div 2 else f)) (clone_RNG R r)) i
         = gaussSeq R antithetic r (f + i)"
proof (cases antithetic)
  case False
  with assms(1) show ?thesis by (simp add: gaussSeq_def exact_skip_def)
next
  case True
  with assms(2) have ev: "even f" by simp
  then have "(f + i) div 2 = f div 2 + i div 2" by (auto elim: evenE)
  with True ev assms(1) show ?thesis by (simp add: gaussSeq_def exact_skip_def)
qed

lemma valid_schedule_set:
  assumes "valid_schedule nThread nTask sched"
  shows "set (map snd sched) = {0..<nTask}" and "\<forall>(th, k) \<in> set sched. th \<le> nThread"
proof -
  from assms have "mset (map snd sched) = mset [0..<nTask]" by (simp add: valid_schedule_def)
  then have "set_mset (mset (map snd sched)) = set_mset (mset [0..<nTask])" by simp
  then show "set (map snd sched) = {0..<nTask}" by simp
  from assms show "\<forall>(th, k) \<in> set sched. th \<le> nThread"
    by (auto simp: valid_schedule_def list_all_iff)
qed

section \<open>mcSimulAAD and mcSimul: the final state\<close>

lemma mcSimulAAD_body_eq:
  "mcSimulAAD_body P M R antithetic i s =
     (mcSimul_body P M R antithetic i s)
       \<lparr>trace := trace s @ [Tape_rewindToMark 0, antitheticEvent antithetic (antiPath s),
           Model_generatePath 0, Product_payoff 0 i, Number_propagateToMark 0 i False]\<rparr>"
  by (simp add: mcSimulAAD_body_def mcSimul_body_def call_def Let_def split: prod.split)

lemma mcSimul_body_trace [simp]:
  "trace (mcSimul_body P M R antithetic i s) = trace s"
  by (simp add: mcSimul_body_def Let_def split: prod.split)

lemma mcSimul_body_trace_update:
  "mcSimul_body P M R antithetic i (s\<lparr>trace := tr\<rparr>)
     = (mcSimul_body P M R antithetic i s)\<lparr>trace := tr\<rparr>"
  by (simp add: mcSimul_body_def Let_def split: prod.split)

lemma antitheticEvent_odd:
  "antitheticEvent antithetic (antithetic \<and> odd k) = (if antithetic \<and> odd k then Gauss_negate else RNG_nextG)"
  by (simp add: antitheticEvent_def)

lemma mcSimulAAD_loop:
  assumes "k \<le> length (res s0)" and "antiPath s0 = False"
  shows "forLoop 0 k (mcSimulAAD_body P M R antithetic) s0
       = (forLoop 0 k (mcSimul_body P M R antithetic) s0)
           \<lparr>trace := trace s0 @ concat (map (pathEvents 0 antithetic 0) [0..<k])\<rparr>"
  using assms(1)
proof (induction k)
  case 0
  show ?case by simp
next
  case (Suc k)
  let ?s = "forLoop 0 k (mcSimul_body P M R antithetic) s0"
  from Suc.prems have k: "k \<le> length (res s0)" by simp
  from mcSimul_loop[OF k assms(2), of P M R antithetic]
  have "(cRng ?s, gaussVec ?s, antiPath ?s)
           = (antitheticStep R antithetic ^^ k) (cRng s0, gaussVec s0, False)" by blast
  then have ap: "antiPath ?s = (antithetic \<and> odd k)"
    by (simp add: antitheticStep_iterate)
  have tr: "trace ?s = trace s0"
    by (induction k) (simp_all add: forLoop_Suc)
  have "forLoop 0 (Suc k) (mcSimulAAD_body P M R antithetic) s0
      = mcSimulAAD_body P M R antithetic k
          (?s\<lparr>trace := trace s0 @ concat (map (pathEvents 0 antithetic 0) [0..<k])\<rparr>)"
    by (simp only: forLoop_Suc[OF le0] Suc.IH[OF k])
  also have "\<dots> = (mcSimul_body P M R antithetic k ?s)
           \<lparr>trace := trace s0 @ concat (map (pathEvents 0 antithetic 0) [0..<Suc k])\<rparr>"
    by (subst mcSimulAAD_body_eq)
       (simp add: mcSimul_body_trace_update ap pathEvents_def antitheticEvent_odd)
  also have "mcSimul_body P M R antithetic k ?s
      = forLoop 0 (Suc k) (mcSimul_body P M R antithetic) s0"
    by (simp only: forLoop_Suc[OF le0])
  finally show ?case .
qed

lemma mcSimul_loop_res:
  assumes "antiPath s0 = False" and "length (res s0) = n"
  shows "res (forLoop 0 n (mcSimul_body P M R antithetic) s0)
         = map (pathValue P M R antithetic (prd s0) (cMdl s0) (cRng s0)) [0..<n]"
proof -
  have le: "n \<le> length (res s0)" using assms(2) by simp
  note L = mcSimul_loop[OF le assms(1), of P M R antithetic]
  from L have len: "length (res (forLoop 0 n (mcSimul_body P M R antithetic) s0)) = n"
    using assms(2) by simp
  from L have val: "\<forall>i<n. res (forLoop 0 n (mcSimul_body P M R antithetic) s0) ! i
                  = pathValue P M R antithetic (prd s0) (cMdl s0) (cRng s0) i" by blast
  show ?thesis by (rule nth_equalityI) (simp_all add: len val)
qed

lemma mcSimulAAD_exec_eq:
  "res (mcSimulAAD_exec P M R N prd0 mdl0 rng0 nPath antithetic)
     = map (pathValue P M R antithetic prd0 (setupModelAAD P M prd0 mdl0)
              (setupRngAAD P M R prd0 mdl0 rng0)) [0..<nPath]"
  "cMdl (mcSimulAAD_exec P M R N prd0 mdl0 rng0 nPath antithetic) = setupModelAAD P M prd0 mdl0"
  "cRng (mcSimulAAD_exec P M R N prd0 mdl0 rng0 nPath antithetic)
     = (advance R ^^ drawsUsed antithetic nPath) (setupRngAAD P M R prd0 mdl0 rng0)"
  "antiPath (mcSimulAAD_exec P M R N prd0 mdl0 rng0 nPath antithetic) = (antithetic \<and> odd nPath)"
  "prd (mcSimulAAD_exec P M R N prd0 mdl0 rng0 nPath antithetic) = prd0"
  "mdl (mcSimulAAD_exec P M R N prd0 mdl0 rng0 nPath antithetic) = mdl0"
  "rng (mcSimulAAD_exec P M R N prd0 mdl0 rng0 nPath antithetic) = rng0"
  "trace (mcSimulAAD_exec P M R N prd0 mdl0 rng0 nPath antithetic)
     = setupEvents 0 @ concat (map (pathEvents 0 antithetic 0) [0..<nPath])
       @ [Tape_propagateMarkToStart 0]"
proof -
  define m where "m = setupModelAAD P M prd0 mdl0"
  define r where "r = setupRngAAD P M R prd0 mdl0 rng0"
  define s0 where "s0 = \<lparr>prd = prd0, mdl = mdl0, rng = rng0, res = replicate nPath (Number_default N),
      cMdl = m, cRng = r, gaussVec = replicate (simDim_Model M m) 0,
      path = replicate (length (timeline P prd0)) \<lparr>spot = Number_default N\<rparr>, antiPath = False,
      trace = setupEvents 0\<rparr>"
  have s0: "prd s0 = prd0" "mdl s0 = mdl0" "rng s0 = rng0" "cMdl s0 = m" "cRng s0 = r"
    "length (res s0) = nPath" "antiPath s0 = False" "trace s0 = setupEvents 0"
    by (simp_all add: s0_def)
  have le: "nPath \<le> length (res s0)" by (simp add: s0)
  have exec: "mcSimulAAD_exec P M R N prd0 mdl0 rng0 nPath antithetic
      = call (Tape_propagateMarkToStart 0) (forLoop 0 nPath (mcSimulAAD_body P M R antithetic) s0)"
    unfolding s0_def m_def r_def
    by (simp add: mcSimulAAD_exec_def Let_def setupModelAAD_def setupRngAAD_def setupEvents_def)
  note A = mcSimulAAD_loop[OF le s0(7), of P M R antithetic]
  note L = mcSimul_loop[OF le s0(7), of P M R antithetic]
  let ?f = "forLoop 0 nPath (mcSimul_body P M R antithetic) s0"
  have f: "prd ?f = prd0" "mdl ?f = mdl0" "rng ?f = rng0" "cMdl ?f = m"
    using L by (simp_all add: s0)
  from L have "(cRng ?f, gaussVec ?f, antiPath ?f)
           = (antitheticStep R antithetic ^^ nPath) (cRng s0, gaussVec s0, False)" by blast
  then have c: "cRng ?f = (advance R ^^ drawsUsed antithetic nPath) r"
    "antiPath ?f = (antithetic \<and> odd nPath)"
    by (simp_all add: antitheticStep_iterate s0)
  have rs: "res ?f = map (pathValue P M R antithetic prd0 m r) [0..<nPath]"
    using mcSimul_loop_res[OF s0(7,6), of P M R antithetic] by (simp add: s0)
  show "res (mcSimulAAD_exec P M R N prd0 mdl0 rng0 nPath antithetic)
     = map (pathValue P M R antithetic prd0 (setupModelAAD P M prd0 mdl0)
              (setupRngAAD P M R prd0 mdl0 rng0)) [0..<nPath]"
    unfolding exec A by (simp add: call_def rs m_def r_def)
  show "cMdl (mcSimulAAD_exec P M R N prd0 mdl0 rng0 nPath antithetic) = setupModelAAD P M prd0 mdl0"
    unfolding exec A by (simp add: call_def f m_def)
  show "cRng (mcSimulAAD_exec P M R N prd0 mdl0 rng0 nPath antithetic)
     = (advance R ^^ drawsUsed antithetic nPath) (setupRngAAD P M R prd0 mdl0 rng0)"
    unfolding exec A by (simp add: call_def c r_def)
  show "antiPath (mcSimulAAD_exec P M R N prd0 mdl0 rng0 nPath antithetic) = (antithetic \<and> odd nPath)"
    unfolding exec A by (simp add: call_def c)
  show "prd (mcSimulAAD_exec P M R N prd0 mdl0 rng0 nPath antithetic) = prd0"
    "mdl (mcSimulAAD_exec P M R N prd0 mdl0 rng0 nPath antithetic) = mdl0"
    "rng (mcSimulAAD_exec P M R N prd0 mdl0 rng0 nPath antithetic) = rng0"
    unfolding exec A by (simp_all add: call_def f)
  show "trace (mcSimulAAD_exec P M R N prd0 mdl0 rng0 nPath antithetic)
     = setupEvents 0 @ concat (map (pathEvents 0 antithetic 0) [0..<nPath])
       @ [Tape_propagateMarkToStart 0]"
    unfolding exec A by (simp add: call_def s0)
qed

lemma mcSimul_exec_eq:
  "res (mcSimul_exec P M R prd0 mdl0 rng0 nPath antithetic)
     = map (pathValue P M R antithetic prd0 (setupModel P M prd0 mdl0)
              (setupRng P M R prd0 mdl0 rng0)) [0..<nPath]"
  "cMdl (mcSimul_exec P M R prd0 mdl0 rng0 nPath antithetic) = setupModel P M prd0 mdl0"
  "cRng (mcSimul_exec P M R prd0 mdl0 rng0 nPath antithetic)
     = (advance R ^^ drawsUsed antithetic nPath) (setupRng P M R prd0 mdl0 rng0)"
  "antiPath (mcSimul_exec P M R prd0 mdl0 rng0 nPath antithetic) = (antithetic \<and> odd nPath)"
  "prd (mcSimul_exec P M R prd0 mdl0 rng0 nPath antithetic) = prd0"
  "mdl (mcSimul_exec P M R prd0 mdl0 rng0 nPath antithetic) = mdl0"
  "rng (mcSimul_exec P M R prd0 mdl0 rng0 nPath antithetic) = rng0"
proof -
  define m where "m = setupModel P M prd0 mdl0"
  define r where "r = setupRng P M R prd0 mdl0 rng0"
  define s0 where "s0 = \<lparr>prd = prd0, mdl = mdl0, rng = rng0, res = replicate nPath (0::real),
      cMdl = m, cRng = r, gaussVec = replicate (simDim_Model M m) 0,
      path = replicate (length (timeline P prd0)) \<lparr>spot = (0::real)\<rparr>, antiPath = False\<rparr>"
  have s0: "prd s0 = prd0" "mdl s0 = mdl0" "rng s0 = rng0" "cMdl s0 = m" "cRng s0 = r"
    "length (res s0) = nPath" "antiPath s0 = False"
    by (simp_all add: s0_def)
  have le: "nPath \<le> length (res s0)" by (simp add: s0)
  have exec: "mcSimul_exec P M R prd0 mdl0 rng0 nPath antithetic
      = forLoop 0 nPath (mcSimul_body P M R antithetic) s0"
    unfolding s0_def m_def r_def
    by (simp add: mcSimul_exec_def Let_def setupModel_def setupRng_def)
  note L = mcSimul_loop[OF le s0(7), of P M R antithetic]
  let ?f = "forLoop 0 nPath (mcSimul_body P M R antithetic) s0"
  have f: "prd ?f = prd0" "mdl ?f = mdl0" "rng ?f = rng0" "cMdl ?f = m"
    using L by (simp_all add: s0)
  from L have "(cRng ?f, gaussVec ?f, antiPath ?f)
           = (antitheticStep R antithetic ^^ nPath) (cRng s0, gaussVec s0, False)" by blast
  then have c: "cRng ?f = (advance R ^^ drawsUsed antithetic nPath) r"
    "antiPath ?f = (antithetic \<and> odd nPath)"
    by (simp_all add: antitheticStep_iterate s0)
  have rs: "res ?f = map (pathValue P M R antithetic prd0 m r) [0..<nPath]"
    using mcSimul_loop_res[OF s0(7,6), of P M R antithetic] by (simp add: s0)
  show "res (mcSimul_exec P M R prd0 mdl0 rng0 nPath antithetic)
     = map (pathValue P M R antithetic prd0 (setupModel P M prd0 mdl0)
              (setupRng P M R prd0 mdl0 rng0)) [0..<nPath]"
    unfolding exec by (simp add: rs m_def r_def)
  show "cMdl (mcSimul_exec P M R prd0 mdl0 rng0 nPath antithetic) = setupModel P M prd0 mdl0"
    unfolding exec by (simp add: f m_def)
  show "cRng (mcSimul_exec P M R prd0 mdl0 rng0 nPath antithetic)
     = (advance R ^^ drawsUsed antithetic nPath) (setupRng P M R prd0 mdl0 rng0)"
    unfolding exec by (simp add: c r_def)
  show "antiPath (mcSimul_exec P M R prd0 mdl0 rng0 nPath antithetic) = (antithetic \<and> odd nPath)"
    unfolding exec by (simp add: c)
  show "prd (mcSimul_exec P M R prd0 mdl0 rng0 nPath antithetic) = prd0"
    "mdl (mcSimul_exec P M R prd0 mdl0 rng0 nPath antithetic) = mdl0"
    "rng (mcSimul_exec P M R prd0 mdl0 rng0 nPath antithetic) = rng0"
    unfolding exec by (simp_all add: f)
qed

section \<open>mcParallelSimulAAD: results\<close>

lemma call_on_simps [simp]:
  "prd (call_on th e s) = prd s" "mdl (call_on th e s) = mdl s" "rng (call_on th e s) = rng s"
  "res (call_on th e s) = res s" "cMdl_thr (call_on th e s) = cMdl_thr s"
  "cRng_thr (call_on th e s) = cRng_thr s" "gaussVecs_thr (call_on th e s) = gaussVecs_thr s"
  "paths_thr (call_on th e s) = paths_thr s" "init_thr (call_on th e s) = init_thr s"
  "Number_tape (call_on th e s) = Number_tape s"
  "traces (call_on th e s) = (traces s)[th := traces s ! th @ [e]]"
  by (simp_all add: call_on_def)

lemma mcParallelSimulAAD_body_frame:
  "prd (snd (mcParallelSimulAAD_body P M R antithetic th f i (t, s))) = prd s"
  "mdl (snd (mcParallelSimulAAD_body P M R antithetic th f i (t, s))) = mdl s"
  "rng (snd (mcParallelSimulAAD_body P M R antithetic th f i (t, s))) = rng s"
  "cMdl_thr (snd (mcParallelSimulAAD_body P M R antithetic th f i (t, s))) = cMdl_thr s"
  "cRng_thr (snd (mcParallelSimulAAD_body P M R antithetic th f i (t, s))) = cRng_thr s"
  "init_thr (snd (mcParallelSimulAAD_body P M R antithetic th f i (t, s))) = init_thr s"
  "Number_tape (snd (mcParallelSimulAAD_body P M R antithetic th f i (t, s))) = Number_tape s"
  "length (gaussVecs_thr (snd (mcParallelSimulAAD_body P M R antithetic th f i (t, s))))
     = length (gaussVecs_thr s)"
  "length (paths_thr (snd (mcParallelSimulAAD_body P M R antithetic th f i (t, s))))
     = length (paths_thr s)"
  "length (traces (snd (mcParallelSimulAAD_body P M R antithetic th f i (t, s))))
     = length (traces s)"
  by (simp_all add: mcParallelSimulAAD_body_def Let_def split: prod.split)

lemma mcParallelSimulAAD_body_step:
  assumes "th < length (gaussVecs_thr s)"
  shows "(taskRng (fst (mcParallelSimulAAD_body P M R antithetic th f i (t, s))),
          gaussVecs_thr (snd (mcParallelSimulAAD_body P M R antithetic th f i (t, s))) ! th,
          antiPath_task (fst (mcParallelSimulAAD_body P M R antithetic th f i (t, s))))
         = antitheticStep R antithetic (taskRng t, gaussVecs_thr s ! th, antiPath_task t)"
  using assms by (simp add: mcParallelSimulAAD_body_def Let_def split: prod.split)

lemma mcParallelSimulAAD_body_res:
  assumes "th < length (gaussVecs_thr s)" "th < length (paths_thr s)"
  shows "res (snd (mcParallelSimulAAD_body P M R antithetic th f i (t, s))) =
     (res s)[f + i := payoff P (prd s) (generatePath M (the (cMdl_thr s ! th))
        (fst (snd (antitheticStep R antithetic (taskRng t, gaussVecs_thr s ! th, antiPath_task t)))))]"
  using assms by (simp add: mcParallelSimulAAD_body_def Let_def split: prod.split)

lemma mcParallelSimulAAD_body_traces:
  assumes "th < length (traces s)"
  shows "traces (snd (mcParallelSimulAAD_body P M R antithetic th f i (t, s))) =
     (traces s)[th := traces s ! th @
        [Tape_rewindToMark (Number_tape s ! th), antitheticEvent antithetic (antiPath_task t),
         Model_generatePath (Number_tape s ! th), Product_payoff (Number_tape s ! th) (f + i),
         Number_propagateToMark (Number_tape s ! th) (f + i) False]]"
  using assms by (simp add: mcParallelSimulAAD_body_def Let_def split: prod.split)

lemma mcParallelSimulAAD_loop:
  assumes th: "th < length (gaussVecs_thr s0)" "th < length (paths_thr s0)" "th < length (traces s0)"
    and t0: "antiPath_task t0 = False"
  shows "prd (snd (forLoop 0 k (mcParallelSimulAAD_body P M R antithetic th f) (t0, s0))) = prd s0
       \<and> mdl (snd (forLoop 0 k (mcParallelSimulAAD_body P M R antithetic th f) (t0, s0))) = mdl s0
       \<and> rng (snd (forLoop 0 k (mcParallelSimulAAD_body P M R antithetic th f) (t0, s0))) = rng s0
       \<and> cMdl_thr (snd (forLoop 0 k (mcParallelSimulAAD_body P M R antithetic th f) (t0, s0)))
           = cMdl_thr s0
       \<and> cRng_thr (snd (forLoop 0 k (mcParallelSimulAAD_body P M R antithetic th f) (t0, s0)))
           = cRng_thr s0
       \<and> init_thr (snd (forLoop 0 k (mcParallelSimulAAD_body P M R antithetic th f) (t0, s0)))
           = init_thr s0
       \<and> Number_tape (snd (forLoop 0 k (mcParallelSimulAAD_body P M R antithetic th f) (t0, s0)))
           = Number_tape s0
       \<and> length (gaussVecs_thr (snd (forLoop 0 k (mcParallelSimulAAD_body P M R antithetic th f) (t0, s0))))
           = length (gaussVecs_thr s0)
       \<and> length (paths_thr (snd (forLoop 0 k (mcParallelSimulAAD_body P M R antithetic th f) (t0, s0))))
           = length (paths_thr s0)
       \<and> (taskRng (fst (forLoop 0 k (mcParallelSimulAAD_body P M R antithetic th f) (t0, s0))),
          gaussVecs_thr (snd (forLoop 0 k (mcParallelSimulAAD_body P M R antithetic th f) (t0, s0))) ! th,
          antiPath_task (fst (forLoop 0 k (mcParallelSimulAAD_body P M R antithetic th f) (t0, s0))))
           = (antitheticStep R antithetic ^^ k) (taskRng t0, gaussVecs_thr s0 ! th, False)
       \<and> length (res (snd (forLoop 0 k (mcParallelSimulAAD_body P M R antithetic th f) (t0, s0))))
           = length (res s0)
       \<and> (\<forall>j. res (snd (forLoop 0 k (mcParallelSimulAAD_body P M R antithetic th f) (t0, s0))) ! j
               = (if f \<le> j \<and> j < f + k \<and> j < length (res s0)
                  then pathValue P M R antithetic (prd s0) (the (cMdl_thr s0 ! th)) (taskRng t0) (j - f)
                  else res s0 ! j))
       \<and> traces (snd (forLoop 0 k (mcParallelSimulAAD_body P M R antithetic th f) (t0, s0)))
           = (traces s0)[th := traces s0 ! th
                @ concat (map (pathEvents (Number_tape s0 ! th) antithetic f) [0..<k])]"
proof (induction k)
  case 0
  show ?case using t0 by auto
next
  case (Suc k)
  obtain t s where L: "forLoop 0 k (mcParallelSimulAAD_body P M R antithetic th f) (t0, s0) = (t, s)"
    by (cases "forLoop 0 k (mcParallelSimulAAD_body P M R antithetic th f) (t0, s0)")
  from Suc have IH:
    "prd s = prd s0" "mdl s = mdl s0" "rng s = rng s0" "cMdl_thr s = cMdl_thr s0"
    "cRng_thr s = cRng_thr s0" "init_thr s = init_thr s0" "Number_tape s = Number_tape s0"
    "length (gaussVecs_thr s) = length (gaussVecs_thr s0)"
    "length (paths_thr s) = length (paths_thr s0)"
    "(taskRng t, gaussVecs_thr s ! th, antiPath_task t)
       = (antitheticStep R antithetic ^^ k) (taskRng t0, gaussVecs_thr s0 ! th, False)"
    "length (res s) = length (res s0)"
    "\<forall>j. res s ! j = (if f \<le> j \<and> j < f + k \<and> j < length (res s0)
                  then pathValue P M R antithetic (prd s0) (the (cMdl_thr s0 ! th)) (taskRng t0) (j - f)
                  else res s0 ! j)"
    "traces s = (traces s0)[th := traces s0 ! th
                @ concat (map (pathEvents (Number_tape s0 ! th) antithetic f) [0..<k])]"
    unfolding L by simp_all
  have th1: "th < length (gaussVecs_thr s)" and th2: "th < length (paths_thr s)"
    and th3: "th < length (traces s)"
    using th IH(8,9,13) by simp_all
  let ?N = "mcParallelSimulAAD_body P M R antithetic th f k (t, s)"
  have unfold: "forLoop 0 (Suc k) (mcParallelSimulAAD_body P M R antithetic th f) (t0, s0) = ?N"
    by (simp add: forLoop_Suc L)
  have trip: "antitheticStep R antithetic (taskRng t, gaussVecs_thr s ! th, antiPath_task t)
      = (antitheticStep R antithetic ^^ Suc k) (taskRng t0, gaussVecs_thr s0 ! th, False)"
    by (simp add: IH(10))
  have g: "fst (snd (antitheticStep R antithetic (taskRng t, gaussVecs_thr s ! th, antiPath_task t)))
      = gaussSeq R antithetic (taskRng t0) k"
    unfolding trip by (simp add: antitheticStep_iterate del: funpow.simps)
  from IH(10) have ap: "antiPath_task t = (antithetic \<and> odd k)"
    by (simp add: antitheticStep_iterate)
  have res_N: "res (snd ?N) = (res s)[f + k :=
      pathValue P M R antithetic (prd s0) (the (cMdl_thr s0 ! th)) (taskRng t0) k]"
    using mcParallelSimulAAD_body_res[OF th1 th2, of P M R antithetic f k t]
    by (simp only: g IH(1,4) pathValue_def)
  have c1: "prd (snd ?N) = prd s0" "mdl (snd ?N) = mdl s0" "rng (snd ?N) = rng s0"
    "cMdl_thr (snd ?N) = cMdl_thr s0" "cRng_thr (snd ?N) = cRng_thr s0"
    "init_thr (snd ?N) = init_thr s0" "Number_tape (snd ?N) = Number_tape s0"
    "length (gaussVecs_thr (snd ?N)) = length (gaussVecs_thr s0)"
    "length (paths_thr (snd ?N)) = length (paths_thr s0)"
    using mcParallelSimulAAD_body_frame[of P M R antithetic th f k t s] IH(1-9) by simp_all
  have c8: "(taskRng (fst ?N), gaussVecs_thr (snd ?N) ! th, antiPath_task (fst ?N))
      = (antitheticStep R antithetic ^^ Suc k) (taskRng t0, gaussVecs_thr s0 ! th, False)"
    using mcParallelSimulAAD_body_step[OF th1, of P M R antithetic f k t] trip by simp
  have c9: "length (res (snd ?N)) = length (res s0)"
    by (simp add: res_N IH(11))
  have c10: "\<forall>j. res (snd ?N) ! j
               = (if f \<le> j \<and> j < f + Suc k \<and> j < length (res s0)
                  then pathValue P M R antithetic (prd s0) (the (cMdl_thr s0 ! th)) (taskRng t0) (j - f)
                  else res s0 ! j)"
  proof
    fix j
    show "res (snd ?N) ! j
               = (if f \<le> j \<and> j < f + Suc k \<and> j < length (res s0)
                  then pathValue P M R antithetic (prd s0) (the (cMdl_thr s0 ! th)) (taskRng t0) (j - f)
                  else res s0 ! j)"
    proof (cases "j = f + k")
      case True
      show ?thesis
      proof (cases "j < length (res s0)")
        case inr: True
        then show ?thesis using True by (simp add: res_N IH(11))
      next
        case False
        then show ?thesis using True IH(12) by (simp add: res_N IH(11) list_update_beyond)
      qed
    next
      case False
      then have "res (snd ?N) ! j = res s ! j" by (simp add: res_N)
      also have "\<dots> = (if f \<le> j \<and> j < f + k \<and> j < length (res s0)
                  then pathValue P M R antithetic (prd s0) (the (cMdl_thr s0 ! th)) (taskRng t0) (j - f)
                  else res s0 ! j)" using IH(12) by simp
      finally show ?thesis using False by (auto simp: less_Suc_eq)
    qed
  qed
  have c11: "traces (snd ?N) = (traces s0)[th := traces s0 ! th
                @ concat (map (pathEvents (Number_tape s0 ! th) antithetic f) [0..<Suc k])]"
    using th(3)
    by (simp add: mcParallelSimulAAD_body_traces[OF th3] IH(7,13) ap pathEvents_def
        antitheticEvent_odd)
  show ?case
    unfolding unfold by (intro conjI c1 c8 c9 c10 c11)
qed

lemma initSimul_eq:
  "initSimul P M R N prd0 mdl0 rng0 tape g0 p0 =
     ((setupModelAAD P M prd0 mdl0, setupRngAAD P M R prd0 mdl0 rng0,
       resize (simDim_Model M (setupModelAAD P M prd0 mdl0)) 0 g0,
       resize (length (timeline P prd0)) \<lparr>spot = Number_default N\<rparr> p0),
      setupEvents tape)"
  by (simp add: initSimul_def Let_def setupModelAAD_def setupRngAAD_def setupEvents_def)

lemma initThread_eq:
  "initThread P M R N th s =
     s\<lparr>cMdl_thr := (cMdl_thr s)[th := Some (setupModelAAD P M (prd s) (mdl s))],
       cRng_thr := (cRng_thr s)[th := Some (setupRngAAD P M R (prd s) (mdl s) (rng s))],
       gaussVecs_thr := (gaussVecs_thr s)[th :=
          resize (simDim_Model M (setupModelAAD P M (prd s) (mdl s))) 0 (gaussVecs_thr s ! th)],
       paths_thr := (paths_thr s)[th :=
          resize (length (timeline P (prd s))) \<lparr>spot = Number_default N\<rparr> (paths_thr s ! th)],
       init_thr := (init_thr s)[th := True],
       traces := (traces s)[th := traces s ! th @ setupEvents (Number_tape s ! th)]\<rparr>"
  by (simp add: initThread_def initSimul_eq)

lemma mcParallelSimulAAD_task_effect:
  assumes wf: "aad_wf P M R prd0 mdl0 rng0 nThread s" and th: "th \<le> nThread"
  shows "aad_wf P M R prd0 mdl0 rng0 nThread (mcParallelSimulAAD_task P M R N antithetic th (f, n) s)"
    and "init_thr (mcParallelSimulAAD_task P M R N antithetic th (f, n) s) = (init_thr s)[th := True]"
    and "length (res (mcParallelSimulAAD_task P M R N antithetic th (f, n) s)) = length (res s)"
    and "res (mcParallelSimulAAD_task P M R N antithetic th (f, n) s) ! j
          = (if f \<le> j \<and> j < f + n \<and> j < length (res s)
             then pathValue P M R antithetic prd0 (setupModelAAD P M prd0 mdl0)
                    (skipTo R (int (if antithetic then f div 2 else f))
                       (clone_RNG R (setupRngAAD P M R prd0 mdl0 rng0))) (j - f)
             else res s ! j)"
    and "traces (mcParallelSimulAAD_task P M R N antithetic th (f, n) s)
          = (traces s)[th := traces s ! th
               @ (if init_thr s ! th then [] else setupEvents th)
               @ taskEvents antithetic th (f, n)]"
    and "Number_tape (mcParallelSimulAAD_task P M R N antithetic th (f, n) s) ! th = th"
proof -
  define m where "m = setupModelAAD P M prd0 mdl0"
  define r where "r = setupRngAAD P M R prd0 mdl0 rng0"
  from wf have W: "prd s = prd0" "mdl s = mdl0" "rng s = rng0"
    "length (cMdl_thr s) = nThread + 1" "length (cRng_thr s) = nThread + 1"
    "length (gaussVecs_thr s) = nThread + 1" "length (paths_thr s) = nThread + 1"
    "length (init_thr s) = nThread + 1" "length (Number_tape s) = nThread + 1"
    "length (traces s) = nThread + 1" "Number_tape s ! 0 = 0"
    and Winit: "\<And>t. t \<le> nThread \<Longrightarrow> init_thr s ! t \<Longrightarrow>
           cMdl_thr s ! t = Some m \<and> cRng_thr s ! t = Some r"
    unfolding aad_wf_def m_def r_def by blast+
  define s1 where "s1 = (if th > 0 then s\<lparr>Number_tape := (Number_tape s)[th := th]\<rparr> else s)"
  define s2 where "s2 = (if \<not> init_thr s1 ! th then initThread P M R N th s1 else s1)"
  define pos where "pos = int (if antithetic then f div 2 else f)"
  define s3 where "s3 = call_on th (TaskRNG_skipTo pos) s2"
  define t0 where "t0 = \<lparr>taskRng = skipTo R pos (clone_RNG R (the (cRng_thr s2 ! th))),
                        antiPath_task = False\<rparr>"
  have task: "mcParallelSimulAAD_task P M R N antithetic th (f, n) s
      = snd (forLoop 0 n (mcParallelSimulAAD_body P M R antithetic th f) (t0, s3))"
    by (simp add: mcParallelSimulAAD_task_def Let_def s1_def s2_def s3_def t0_def pos_def)
  have s1: "prd s1 = prd0" "mdl s1 = mdl0" "rng s1 = rng0" "res s1 = res s"
    "cMdl_thr s1 = cMdl_thr s" "cRng_thr s1 = cRng_thr s" "gaussVecs_thr s1 = gaussVecs_thr s"
    "paths_thr s1 = paths_thr s" "init_thr s1 = init_thr s" "traces s1 = traces s"
    "length (Number_tape s1) = nThread + 1" "Number_tape s1 ! th = th" "Number_tape s1 ! 0 = 0"
    using W th by (auto simp: s1_def)
  have s2: "prd s2 = prd0" "mdl s2 = mdl0" "rng s2 = rng0" "res s2 = res s"
    "cMdl_thr s2 ! th = Some m" "cRng_thr s2 ! th = Some r"
    "length (cMdl_thr s2) = nThread + 1" "length (cRng_thr s2) = nThread + 1"
    "length (gaussVecs_thr s2) = nThread + 1" "length (paths_thr s2) = nThread + 1"
    "init_thr s2 = (init_thr s)[th := True]" "Number_tape s2 = Number_tape s1"
    "traces s2 = (traces s)[th := traces s ! th @ (if init_thr s ! th then [] else setupEvents th)]"
  proof -
    show "prd s2 = prd0" "mdl s2 = mdl0" "rng s2 = rng0" "res s2 = res s"
      "length (cMdl_thr s2) = nThread + 1" "length (cRng_thr s2) = nThread + 1"
      "length (gaussVecs_thr s2) = nThread + 1" "length (paths_thr s2) = nThread + 1"
      "Number_tape s2 = Number_tape s1"
      using W s1 by (simp_all add: s2_def initThread_eq)
    show "cMdl_thr s2 ! th = Some m" "cRng_thr s2 ! th = Some r"
      using W s1 th Winit[OF th] by (auto simp: s2_def initThread_eq m_def r_def)
    show "init_thr s2 = (init_thr s)[th := True]"
    proof (cases "init_thr s ! th")
      case True
      then have "(init_thr s)[th := True] = init_thr s" by (metis list_update_id)
      with True s1 show ?thesis by (simp add: s2_def)
    next
      case False
      with s1 show ?thesis by (simp add: s2_def initThread_eq)
    qed
    show "traces s2 = (traces s)[th := traces s ! th @ (if init_thr s ! th then [] else setupEvents th)]"
      using s1 by (simp add: s2_def initThread_eq)
  qed
  have s2': "\<And>t. t \<le> nThread \<Longrightarrow> init_thr s2 ! t \<Longrightarrow>
           cMdl_thr s2 ! t = Some m \<and> cRng_thr s2 ! t = Some r"
  proof -
    fix t assume t: "t \<le> nThread" and i: "init_thr s2 ! t"
    show "cMdl_thr s2 ! t = Some m \<and> cRng_thr s2 ! t = Some r"
    proof (cases "t = th")
      case True
      then show ?thesis using s2(5,6) by simp
    next
      case False
      with i t W have "init_thr s ! t" by (simp add: s2(11))
      from Winit[OF t this] False s1 show ?thesis
        by (auto simp: s2_def initThread_eq)
    qed
  qed
  have s3: "prd s3 = prd0" "mdl s3 = mdl0" "rng s3 = rng0" "res s3 = res s"
    "cMdl_thr s3 = cMdl_thr s2" "cRng_thr s3 = cRng_thr s2"
    "length (gaussVecs_thr s3) = nThread + 1" "length (paths_thr s3) = nThread + 1"
    "init_thr s3 = (init_thr s)[th := True]" "Number_tape s3 = Number_tape s1"
    "traces s3 = (traces s)[th := traces s ! th @ (if init_thr s ! th then [] else setupEvents th)
                   @ [TaskRNG_skipTo pos]]"
    using s2 W th by (simp_all add: s3_def)
  have thl: "th < length (gaussVecs_thr s3)" "th < length (paths_thr s3)" "th < length (traces s3)"
    using s3 W th by simp_all
  have a0: "antiPath_task t0 = False" by (simp add: t0_def)
  note L = mcParallelSimulAAD_loop[OF thl a0, where P=P and M=M and R=R and antithetic=antithetic
      and k=n and f=f]
  let ?F = "snd (forLoop 0 n (mcParallelSimulAAD_body P M R antithetic th f) (t0, s3))"
  note F = L[THEN conjunct1] L[THEN conjunct2, THEN conjunct1] L[THEN conjunct2, THEN conjunct2, THEN conjunct1]
    L[THEN conjunct2, THEN conjunct2, THEN conjunct2, THEN conjunct1] L[THEN conjunct2, THEN conjunct2, THEN conjunct2, THEN conjunct2, THEN conjunct1] L[THEN conjunct2, THEN conjunct2, THEN conjunct2, THEN conjunct2, THEN conjunct2, THEN conjunct1]
    L[THEN conjunct2, THEN conjunct2, THEN conjunct2, THEN conjunct2, THEN conjunct2, THEN conjunct2, THEN conjunct1] L[THEN conjunct2, THEN conjunct2, THEN conjunct2, THEN conjunct2, THEN conjunct2, THEN conjunct2, THEN conjunct2, THEN conjunct1] L[THEN conjunct2, THEN conjunct2, THEN conjunct2, THEN conjunct2, THEN conjunct2, THEN conjunct2, THEN conjunct2, THEN conjunct2, THEN conjunct1]
    L[THEN conjunct2, THEN conjunct2, THEN conjunct2, THEN conjunct2, THEN conjunct2, THEN conjunct2, THEN conjunct2, THEN conjunct2, THEN conjunct2, THEN conjunct2, THEN conjunct1] L[THEN conjunct2, THEN conjunct2, THEN conjunct2, THEN conjunct2, THEN conjunct2, THEN conjunct2, THEN conjunct2, THEN conjunct2, THEN conjunct2, THEN conjunct2, THEN conjunct2, THEN conjunct2]
  note Fres = L[THEN conjunct2, THEN conjunct2, THEN conjunct2, THEN conjunct2, THEN conjunct2, THEN conjunct2, THEN conjunct2, THEN conjunct2, THEN conjunct2, THEN conjunct2, THEN conjunct2, THEN conjunct1]
  show "aad_wf P M R prd0 mdl0 rng0 nThread (mcParallelSimulAAD_task P M R N antithetic th (f, n) s)"
    unfolding task aad_wf_def m_def[symmetric] r_def[symmetric]
  proof (intro conjI allI impI)
    show "prd ?F = prd0" by (simp only: F(1) s3(1))
    show "mdl ?F = mdl0" by (simp only: F(2) s3(2))
    show "rng ?F = rng0" by (simp only: F(3) s3(3))
    show "length (cMdl_thr ?F) = nThread + 1" by (simp only: F(4) s3(5) s2(7))
    show "length (cRng_thr ?F) = nThread + 1" by (simp only: F(5) s3(6) s2(8))
    show "length (gaussVecs_thr ?F) = nThread + 1" by (simp only: F(8) s3(7))
    show "length (paths_thr ?F) = nThread + 1" by (simp only: F(9) s3(8))
    show "length (init_thr ?F) = nThread + 1" by (simp only: F(6) s3(9) length_list_update W(8))
    show "length (Number_tape ?F) = nThread + 1" by (simp only: F(7) s3(10) s1(11))
    show "length (traces ?F) = nThread + 1"
      by (simp only: F(11) s3(11) length_list_update W(10))
    show "Number_tape ?F ! 0 = 0" by (simp only: F(7) s3(10) s1(13))
    fix t assume t: "t \<le> nThread" and i: "init_thr ?F ! t"
    from i have "init_thr s2 ! t" by (simp only: F(6) s3(9) s2(11))
    from s2'[OF t this] show "cMdl_thr ?F ! t = Some m" "cRng_thr ?F ! t = Some r"
      by (simp_all only: F(4,5) s3(5,6))
  qed
  show "init_thr (mcParallelSimulAAD_task P M R N antithetic th (f, n) s) = (init_thr s)[th := True]"
    unfolding task by (simp add: F s3)
  show "length (res (mcParallelSimulAAD_task P M R N antithetic th (f, n) s)) = length (res s)"
    unfolding task by (simp add: F s3)
  show "res (mcParallelSimulAAD_task P M R N antithetic th (f, n) s) ! j
          = (if f \<le> j \<and> j < f + n \<and> j < length (res s)
             then pathValue P M R antithetic prd0 (setupModelAAD P M prd0 mdl0)
                    (skipTo R (int (if antithetic then f div 2 else f))
                       (clone_RNG R (setupRngAAD P M R prd0 mdl0 rng0))) (j - f)
             else res s ! j)"
    unfolding task using Fres
    by (simp add: s3 s2 t0_def pos_def m_def r_def)
  show "traces (mcParallelSimulAAD_task P M R N antithetic th (f, n) s)
          = (traces s)[th := traces s ! th
               @ (if init_thr s ! th then [] else setupEvents th)
               @ taskEvents antithetic th (f, n)]"
    unfolding task using W th
    by (simp add: F s3 s1 taskEvents_def pos_def)
  show "Number_tape (mcParallelSimulAAD_task P M R N antithetic th (f, n) s) ! th = th"
    unfolding task by (simp add: F s3 s1)
qed

lemma batch_of_index:
  assumes "BATCHSIZE dvd f" "n \<le> BATCHSIZE" "f \<le> j" "j < f + n"
  shows "BATCHSIZE * (j div BATCHSIZE) = f"
proof -
  from assms(1) obtain q where q: "f = BATCHSIZE * q" by (auto simp: dvd_def)
  have pos: "0 < BATCHSIZE" by (simp add: BATCHSIZE_def)
  from assms q have "BATCHSIZE * q \<le> j" "j < BATCHSIZE * Suc q" by simp_all
  then have "j div BATCHSIZE = q" by (rule div_nat_eqI)
  with q show ?thesis by simp
qed

lemma mcParallelSimulAAD_tasks:
  assumes "aad_wf P M R prd0 mdl0 rng0 nThread s"
    and "\<forall>(th, f, n) \<in> set ts. th \<le> nThread \<and> BATCHSIZE dvd f \<and> n \<le> BATCHSIZE"
  shows "aad_wf P M R prd0 mdl0 rng0 nThread
           (fold (\<lambda>(th, fn). mcParallelSimulAAD_task P M R N antithetic th fn) ts s)
       \<and> length (res (fold (\<lambda>(th, fn). mcParallelSimulAAD_task P M R N antithetic th fn) ts s))
           = length (res s)
       \<and> (\<forall>j. res (fold (\<lambda>(th, fn). mcParallelSimulAAD_task P M R N antithetic th fn) ts s) ! j
              = (if j < length (res s) \<and> (\<exists>(th, f, n) \<in> set ts. f \<le> j \<and> j < f + n)
                 then batchPathValue P M R antithetic prd0 (setupModelAAD P M prd0 mdl0)
                        (setupRngAAD P M R prd0 mdl0 rng0) j
                 else res s ! j))
       \<and> (\<forall>t \<le> nThread.
             init_thr (fold (\<lambda>(th, fn). mcParallelSimulAAD_task P M R N antithetic th fn) ts s) ! t
              = (init_thr s ! t \<or> t \<in> fst ` set ts))
       \<and> (\<forall>t \<le> nThread.
             traces (fold (\<lambda>(th, fn). mcParallelSimulAAD_task P M R N antithetic th fn) ts s) ! t
              = traces s ! t @ threadEvents antithetic t (init_thr s ! t) ts)"
  using assms
proof (induction ts arbitrary: s)
  case Nil
  show ?case using Nil.prems(1) by simp
next
  case (Cons x ts)
  obtain th f n where x: "x = (th, f, n)" by (cases x)
  let ?s1 = "mcParallelSimulAAD_task P M R N antithetic th (f, n) s"
  from Cons.prems(2) x have th: "th \<le> nThread" and dv: "BATCHSIZE dvd f" and nb: "n \<le> BATCHSIZE"
    by simp_all
  note E = mcParallelSimulAAD_task_effect[OF Cons.prems(1) th, where N=N
      and antithetic=antithetic and f=f and n=n]
  from Cons.prems(1) have len: "length (init_thr s) = nThread + 1" "length (traces s) = nThread + 1"
    by (simp_all add: aad_wf_def)
  have pre2: "\<forall>(th, f, n) \<in> set ts. th \<le> nThread \<and> BATCHSIZE dvd f \<and> n \<le> BATCHSIZE"
    using Cons.prems(2) by simp
  note IH = Cons.IH[OF E(1) pre2]
  note IH1 = IH[THEN conjunct1]
  note IH2 = IH[THEN conjunct2, THEN conjunct1]
  note IH3 = IH[THEN conjunct2, THEN conjunct2, THEN conjunct1, THEN spec]
  note IH4 = IH[THEN conjunct2, THEN conjunct2, THEN conjunct2, THEN conjunct1, THEN spec, THEN mp]
  note IH5 = IH[THEN conjunct2, THEN conjunct2, THEN conjunct2, THEN conjunct2, THEN spec, THEN mp]
  have fold_eq: "fold (\<lambda>(th, fn). mcParallelSimulAAD_task P M R N antithetic th fn) (x # ts) s
      = fold (\<lambda>(th, fn). mcParallelSimulAAD_task P M R N antithetic th fn) ts ?s1"
    by (simp add: x)
  let ?V = "batchPathValue P M R antithetic prd0 (setupModelAAD P M prd0 mdl0)
                        (setupRngAAD P M R prd0 mdl0 rng0)"
  have res1: "res ?s1 ! j = (if f \<le> j \<and> j < f + n \<and> j < length (res s)
             then ?V j else res s ! j)" for j
  proof (cases "f \<le> j \<and> j < f + n \<and> j < length (res s)")
    case True
    with batch_of_index[OF dv nb] have "BATCHSIZE * (j div BATCHSIZE) = f" by simp
    with True show ?thesis by (simp add: E(4) batchPathValue_def)
  next
    case False
    then show ?thesis by (simp only: E(4) if_False)
  qed
  have c1: "aad_wf P M R prd0 mdl0 rng0 nThread
           (fold (\<lambda>(th, fn). mcParallelSimulAAD_task P M R N antithetic th fn) ts ?s1)"
    by (rule IH1)
  have c2: "length (res (fold (\<lambda>(th, fn). mcParallelSimulAAD_task P M R N antithetic th fn) ts ?s1))
           = length (res s)"
    using IH2 by (simp add: E(3))
  have c3: "\<forall>j. res (fold (\<lambda>(th, fn). mcParallelSimulAAD_task P M R N antithetic th fn) ts ?s1) ! j
              = (if j < length (res s) \<and> (\<exists>(th, f, n) \<in> set (x # ts). f \<le> j \<and> j < f + n)
                 then ?V j else res s ! j)"
  proof
    fix j
    have "res (fold (\<lambda>(th, fn). mcParallelSimulAAD_task P M R N antithetic th fn) ts ?s1) ! j
              = (if j < length (res ?s1) \<and> (\<exists>(th, f, n) \<in> set ts. f \<le> j \<and> j < f + n)
                 then ?V j else res ?s1 ! j)" by (rule IH3)
    then show "res (fold (\<lambda>(th, fn). mcParallelSimulAAD_task P M R N antithetic th fn) ts ?s1) ! j
              = (if j < length (res s) \<and> (\<exists>(th, f, n) \<in> set (x # ts). f \<le> j \<and> j < f + n)
                 then ?V j else res s ! j)"
      by (auto simp: E(3) res1 x)
  qed
  have c4: "\<forall>t \<le> nThread.
             init_thr (fold (\<lambda>(th, fn). mcParallelSimulAAD_task P M R N antithetic th fn) ts ?s1) ! t
              = (init_thr s ! t \<or> t \<in> fst ` set (x # ts))"
  proof (intro allI impI)
    fix t assume t: "t \<le> nThread"
    have "init_thr (fold (\<lambda>(th, fn). mcParallelSimulAAD_task P M R N antithetic th fn) ts ?s1) ! t
              = (init_thr ?s1 ! t \<or> t \<in> fst ` set ts)" by (rule IH4[OF t])
    moreover have "init_thr ?s1 ! t = (init_thr s ! t \<or> t = th)"
      using t th len by (auto simp: E(2) nth_list_update)
    ultimately show "init_thr (fold (\<lambda>(th, fn). mcParallelSimulAAD_task P M R N antithetic th fn) ts ?s1) ! t
              = (init_thr s ! t \<or> t \<in> fst ` set (x # ts))"
      by (auto simp: x)
  qed
  have c5: "\<forall>t \<le> nThread.
             traces (fold (\<lambda>(th, fn). mcParallelSimulAAD_task P M R N antithetic th fn) ts ?s1) ! t
              = traces s ! t @ threadEvents antithetic t (init_thr s ! t) (x # ts)"
  proof (intro allI impI)
    fix t assume t: "t \<le> nThread"
    have *: "traces (fold (\<lambda>(th, fn). mcParallelSimulAAD_task P M R N antithetic th fn) ts ?s1) ! t
              = traces ?s1 ! t @ threadEvents antithetic t (init_thr ?s1 ! t) ts" by (rule IH5[OF t])
    show "traces (fold (\<lambda>(th, fn). mcParallelSimulAAD_task P M R N antithetic th fn) ts ?s1) ! t
              = traces s ! t @ threadEvents antithetic t (init_thr s ! t) (x # ts)"
    proof (cases "t = th")
      case True
      with t len show ?thesis unfolding * by (simp add: E(2,5) x)
    next
      case False
      with t len show ?thesis unfolding * by (simp add: E(2,5) x)
    qed
  qed
  show ?case
    unfolding fold_eq by (intro conjI c1 c2 c3 c4 c5)
qed

lemma initialisedWorkers_Suc:
  "initialisedWorkers init (Suc k) =
     initialisedWorkers init k @ (if init ! (k + 1) then [k + 1] else [])"
  by (simp add: initialisedWorkers_def)

lemma propagateWorker_loop:
  assumes "0 < length (Number_tape s)" "0 < length (traces s)"
  shows "forLoop 0 k propagateWorker s =
     s\<lparr>Number_tape := (Number_tape s)[0 := last (Number_tape s ! 0 # initialisedWorkers (init_thr s) k)],
       traces := (traces s)[0 := traces s ! 0
          @ map Tape_propagateMarkToStart (initialisedWorkers (init_thr s) k)]\<rparr>"
proof (induction k)
  case 0
  show ?case by (simp add: initialisedWorkers_def)
next
  case (Suc k)
  have "forLoop 0 (Suc k) propagateWorker s = propagateWorker k (forLoop 0 k propagateWorker s)"
    by (simp only: forLoop_Suc[OF le0])
  also have "\<dots> = propagateWorker k
     (s\<lparr>Number_tape := (Number_tape s)[0 := last (Number_tape s ! 0 # initialisedWorkers (init_thr s) k)],
       traces := (traces s)[0 := traces s ! 0
          @ map Tape_propagateMarkToStart (initialisedWorkers (init_thr s) k)]\<rparr>)"
    by (simp only: Suc)
  also have "\<dots> = s\<lparr>Number_tape := (Number_tape s)[0 := last (Number_tape s ! 0 # initialisedWorkers (init_thr s) (Suc k))],
       traces := (traces s)[0 := traces s ! 0
          @ map Tape_propagateMarkToStart (initialisedWorkers (init_thr s) (Suc k))]\<rparr>"
    using assms
    by (simp add: propagateWorker_def initialisedWorkers_Suc call_on_def Let_def)
  finally show ?case .
qed

lemma adjoint_loop:
  assumes "0 < length (traces s)"
  shows "forLoop 0 n (\<lambda>j. call_on 0 (Adjoint_add t j)) s =
     s\<lparr>traces := (traces s)[0 := traces s ! 0 @ map (Adjoint_add t) [0..<n]]\<rparr>"
proof (induction n)
  case 0
  show ?case by simp
next
  case (Suc n)
  have "forLoop 0 (Suc n) (\<lambda>j. call_on 0 (Adjoint_add t j)) s
      = call_on 0 (Adjoint_add t n) (forLoop 0 n (\<lambda>j. call_on 0 (Adjoint_add t j)) s)"
    by (simp only: forLoop_Suc[OF le0])
  also have "\<dots> = call_on 0 (Adjoint_add t n)
      (s\<lparr>traces := (traces s)[0 := traces s ! 0 @ map (Adjoint_add t) [0..<n]]\<rparr>)"
    by (simp only: Suc)
  also have "\<dots> = s\<lparr>traces := (traces s)[0 := traces s ! 0 @ map (Adjoint_add t) [0..<Suc n]]\<rparr>"
    using assms by (simp add: call_on_def)
  finally show ?case .
qed

lemma accumulateWorker_loop:
  assumes "0 < length (traces s)"
  shows "forLoop 0 k (accumulateWorker M params0) s =
     s\<lparr>traces := (traces s)[0 := traces s ! 0
          @ concat (map (\<lambda>t. map (Adjoint_add t) [0..<length params0])
                      (initialisedWorkers (init_thr s) k))]\<rparr>"
proof (induction k)
  case 0
  show ?case by (simp add: initialisedWorkers_def)
next
  case (Suc k)
  let ?tr = "\<lambda>k. (traces s)[0 := traces s ! 0
          @ concat (map (\<lambda>t. map (Adjoint_add t) [0..<length params0])
                      (initialisedWorkers (init_thr s) k))]"
  have "forLoop 0 (Suc k) (accumulateWorker M params0) s
      = accumulateWorker M params0 k (forLoop 0 k (accumulateWorker M params0) s)"
    by (simp only: forLoop_Suc[OF le0])
  also have "\<dots> = accumulateWorker M params0 k (s\<lparr>traces := ?tr k\<rparr>)"
    by (simp only: Suc)
  also have "\<dots> = s\<lparr>traces := ?tr (Suc k)\<rparr>"
    using assms
    by (simp add: accumulateWorker_def initialisedWorkers_Suc adjoint_loop Let_def)
  finally show ?case .
qed

lemma mcParallelSimulAAD_finish_eq:
  assumes "0 < length (Number_tape s)" "0 < length (traces s)" "Number_tape s ! 0 = 0"
  shows "mcParallelSimulAAD_finish M nThread s =
     s\<lparr>traces := (traces s)[0 := traces s ! 0
          @ finishEvents (initialisedWorkers (init_thr s) nThread)
              (length (parameters M (the (cMdl_thr s ! 0))))]\<rparr>"
proof -
  have id: "(Number_tape s)[0 := 0] = Number_tape s"
    using assms(3) by (metis list_update_id)
  show ?thesis
    using assms
    by (simp add: mcParallelSimulAAD_finish_def Let_def propagateWorker_loop accumulateWorker_loop
        call_on_def finishEvents_def id)
qed

lemma scheduledTasks_valid:
  assumes "valid_schedule nThread (length (spawnLoop 0 nPath)) sched"
  shows "\<forall>(th, f, n) \<in> set (scheduledTasks nPath sched).
           th \<le> nThread \<and> BATCHSIZE dvd f \<and> n \<le> BATCHSIZE"
    and "j < nPath \<Longrightarrow> \<exists>(th, f, n) \<in> set (scheduledTasks nPath sched). f \<le> j \<and> j < f + n"
    and "fst ` set (scheduledTasks nPath sched) = fst ` set sched"
proof -
  define futures where "futures = spawnLoop 0 nPath"
  note V = valid_schedule_set[OF assms[folded futures_def]]
  have *: "th \<le> nThread \<and> BATCHSIZE dvd fst (futures ! k) \<and> snd (futures ! k) \<le> BATCHSIZE"
    if in_s: "(th, k) \<in> set sched" for th k
  proof -
    from in_s V(2) have 1: "th \<le> nThread" by auto
    from in_s have "k \<in> set (map snd sched)" by force
    with V(1) have "k < length futures" by simp
    then have "futures ! k \<in> set futures" by simp
    then have "(fst (futures ! k), snd (futures ! k)) \<in> set (spawnLoop 0 nPath)"
      by (simp add: futures_def)
    from spawnLoop_task[OF this]
    have "BATCHSIZE dvd fst (futures ! k)" "snd (futures ! k) \<le> BATCHSIZE" by simp_all
    with 1 show ?thesis by simp
  qed
  show "\<forall>(th, f, n) \<in> set (scheduledTasks nPath sched).
           th \<le> nThread \<and> BATCHSIZE dvd f \<and> n \<le> BATCHSIZE"
  proof (rule ballI)
    fix x assume "x \<in> set (scheduledTasks nPath sched)"
    then obtain th k where "(th, k) \<in> set sched" "x = (th, futures ! k)"
      by (auto simp: scheduledTasks_def futures_def)
    with *[of th k] show "case x of (th, f, n) \<Rightarrow> th \<le> nThread \<and> BATCHSIZE dvd f \<and> n \<le> BATCHSIZE"
      by (simp add: case_prod_unfold)
  qed
  show "\<exists>(th, f, n) \<in> set (scheduledTasks nPath sched). f \<le> j \<and> j < f + n" if "j < nPath"
  proof -
    from that have "0 \<le> j \<and> j < 0 + nPath" by simp
    then have "\<exists>(f, n) \<in> set (spawnLoop 0 nPath). f \<le> j \<and> j < f + n"
      by (simp only: spawnLoop_cover)
    then obtain f n where fn: "(f, n) \<in> set futures" "f \<le> j" "j < f + n"
      by (auto simp: futures_def)
    then obtain k where k: "k < length futures" "futures ! k = (f, n)"
      by (auto simp: in_set_conv_nth)
    with V(1) have "k \<in> set (map snd sched)" by simp
    then obtain th where "(th, k) \<in> set sched" by auto
    then have "(th, f, n) \<in> set (scheduledTasks nPath sched)"
      using k(2) by (force simp: scheduledTasks_def futures_def)
    with fn show ?thesis by blast
  qed
  show "fst ` set (scheduledTasks nPath sched) = fst ` set sched"
    by (force simp: scheduledTasks_def)
qed

lemma mcParallelSimulAAD_exec_eq:
  assumes sched: "valid_schedule nThread (length (spawnLoop 0 nPath)) sched"
  shows "res (mcParallelSimulAAD_exec P M R N prd0 mdl0 rng0 nPath antithetic nThread sched)
           = map (batchPathValue P M R antithetic prd0 (setupModelAAD P M prd0 mdl0)
                    (setupRngAAD P M R prd0 mdl0 rng0)) [0..<nPath]"
    and "aad_wf P M R prd0 mdl0 rng0 nThread
           (mcParallelSimulAAD_exec P M R N prd0 mdl0 rng0 nPath antithetic nThread sched)"
    and "t \<le> nThread \<Longrightarrow>
         init_thr (mcParallelSimulAAD_exec P M R N prd0 mdl0 rng0 nPath antithetic nThread sched) ! t
           = (t = 0 \<or> t \<in> fst ` set sched)"
    and "traces (mcParallelSimulAAD_exec P M R N prd0 mdl0 rng0 nPath antithetic nThread sched) ! 0
           = setupEvents 0 @ threadEvents antithetic 0 True (scheduledTasks nPath sched)
             @ finishEvents
                 (initialisedWorkers (init_thr
                    (mcParallelSimulAAD_exec P M R N prd0 mdl0 rng0 nPath antithetic nThread sched))
                    nThread)
                 (length (parameters M (setupModelAAD P M prd0 mdl0)))"
    and "0 < t \<Longrightarrow> t \<le> nThread \<Longrightarrow>
         traces (mcParallelSimulAAD_exec P M R N prd0 mdl0 rng0 nPath antithetic nThread sched) ! t
           = threadEvents antithetic t False (scheduledTasks nPath sched)"
proof -
  define m where "m = setupModelAAD P M prd0 mdl0"
  define r where "r = setupRngAAD P M R prd0 mdl0 rng0"
  define ts where "ts = scheduledTasks nPath sched"
  define s0 :: "('b, 'c, 'd, 'a) parallel_aad_state" where "s0 = \<lparr>prd = prd0, mdl = mdl0, rng = rng0,
                res = replicate nPath (Number_default N),
                cMdl_thr = replicate (nThread + 1) None,
                cRng_thr = replicate (nThread + 1) None,
                gaussVecs_thr = replicate (nThread + 1) [],
                paths_thr = replicate (nThread + 1) [],
                init_thr = replicate (nThread + 1) False,
                Number_tape = replicate (nThread + 1) 0,
                traces = replicate (nThread + 1) []\<rparr>"
  define s1 where "s1 = initThread P M R N 0 s0"
  define s2 where "s2 = fold (\<lambda>(th, fn). mcParallelSimulAAD_task P M R N antithetic th fn) ts s1"
  have exec: "mcParallelSimulAAD_exec P M R N prd0 mdl0 rng0 nPath antithetic nThread sched
      = mcParallelSimulAAD_finish M nThread s2"
    unfolding s2_def s1_def s0_def ts_def scheduledTasks_def
    by (simp add: mcParallelSimulAAD_exec_def Let_def fold_map comp_def case_prod_unfold)
  have s1: "res s1 = replicate nPath (Number_default N)"
    "init_thr s1 = (replicate (nThread + 1) False)[0 := True]"
    "traces s1 = (replicate (nThread + 1) [])[0 := setupEvents 0]"
    by (simp_all add: s1_def s0_def initThread_eq)
  have wf1: "aad_wf P M R prd0 mdl0 rng0 nThread s1"
    unfolding aad_wf_def
    by (auto simp: s1_def s0_def initThread_eq nth_list_update nth_Cons split: nat.splits)
  note V = scheduledTasks_valid[OF sched, folded ts_def]
  note T = mcParallelSimulAAD_tasks[OF wf1 V(1), where N=N and antithetic=antithetic, folded s2_def]
  note T1 = T[THEN conjunct1]
  note T2 = T[THEN conjunct2, THEN conjunct1]
  note T3 = T[THEN conjunct2, THEN conjunct2, THEN conjunct1, THEN spec]
  note T4 = T[THEN conjunct2, THEN conjunct2, THEN conjunct2, THEN conjunct1, THEN spec, THEN mp]
  note T5 = T[THEN conjunct2, THEN conjunct2, THEN conjunct2, THEN conjunct2, THEN spec, THEN mp]
  from T1 have W2: "0 < length (Number_tape s2)" "0 < length (traces s2)" "Number_tape s2 ! 0 = 0"
    "cMdl_thr s2 ! 0 = Some m" if "init_thr s2 ! 0"
    using that by (simp_all add: aad_wf_def m_def)
  have i2: "init_thr s2 ! t = (t = 0 \<or> t \<in> fst ` set sched)" if "t \<le> nThread" for t
    using T4[OF that] that by (auto simp: s1 V(3) nth_list_update)
  then have i0: "init_thr s2 ! 0" by simp
  note F = mcParallelSimulAAD_finish_eq[OF W2(1-3)[OF i0], of M nThread]
  have len2: "length (res s2) = nPath" using T2 by (simp add: s1)
  have res2: "res s2 ! j = batchPathValue P M R antithetic prd0 m r j" if "j < nPath" for j
    using T3[of j] V(2)[OF that] that unfolding m_def r_def by (simp add: s1)
  show "res (mcParallelSimulAAD_exec P M R N prd0 mdl0 rng0 nPath antithetic nThread sched)
           = map (batchPathValue P M R antithetic prd0 (setupModelAAD P M prd0 mdl0)
                    (setupRngAAD P M R prd0 mdl0 rng0)) [0..<nPath]"
    unfolding exec F m_def[symmetric] r_def[symmetric]
    by (rule nth_equalityI) (simp_all add: len2 res2)
  show "aad_wf P M R prd0 mdl0 rng0 nThread
           (mcParallelSimulAAD_exec P M R N prd0 mdl0 rng0 nPath antithetic nThread sched)"
    unfolding exec F using T1 by (simp add: aad_wf_def)
  show "init_thr (mcParallelSimulAAD_exec P M R N prd0 mdl0 rng0 nPath antithetic nThread sched) ! t
           = (t = 0 \<or> t \<in> fst ` set sched)" if "t \<le> nThread"
    unfolding exec F using i2[OF that] by simp
  show "traces (mcParallelSimulAAD_exec P M R N prd0 mdl0 rng0 nPath antithetic nThread sched) ! 0
           = setupEvents 0 @ threadEvents antithetic 0 True (scheduledTasks nPath sched)
             @ finishEvents
                 (initialisedWorkers (init_thr
                    (mcParallelSimulAAD_exec P M R N prd0 mdl0 rng0 nPath antithetic nThread sched))
                    nThread)
                 (length (parameters M (setupModelAAD P M prd0 mdl0)))"
    unfolding exec F using T5[of 0] W2(2,4)[OF i0]
    by (simp add: s1 ts_def m_def)
  show "traces (mcParallelSimulAAD_exec P M R N prd0 mdl0 rng0 nPath antithetic nThread sched) ! t
           = threadEvents antithetic t False (scheduledTasks nPath sched)"
    if "0 < t" "t \<le> nThread"
    unfolding exec F using T5[OF that(2)] that
    by (simp add: s1 ts_def)
qed

section \<open>mcParallelSimul: the final state\<close>

lemma batchPathValue_exact:
  assumes "exact_skip R r"
  shows "batchPathValue P M R antithetic prd0 m r j = pathValue P M R antithetic prd0 m r j"
proof -
  define f where "f = BATCHSIZE * (j div BATCHSIZE)"
  have fj: "f \<le> j" by (simp add: f_def)
  have "even f" by (simp add: f_def BATCHSIZE_def)
  then have ev: "antithetic \<longrightarrow> even f" by simp
  from fj have "f + (j - f) = j" by simp
  with gaussSeq_skip[OF assms ev, of "j - f"] show ?thesis
    by (simp add: batchPathValue_def Let_def pathValue_def f_def[symmetric])
qed

lemma mcParallelSimul_tasks_batch:
  assumes "\<forall>(th, f, n) \<in> set ts. th < length (gaussVecs s) \<and> th < length (paths s)
              \<and> BATCHSIZE dvd f \<and> n \<le> BATCHSIZE"
  shows "prd (fold (\<lambda>(th, fn). mcParallelSimul_task P M R antithetic th fn) ts s) = prd s
       \<and> mdl (fold (\<lambda>(th, fn). mcParallelSimul_task P M R antithetic th fn) ts s) = mdl s
       \<and> rng (fold (\<lambda>(th, fn). mcParallelSimul_task P M R antithetic th fn) ts s) = rng s
       \<and> cMdl (fold (\<lambda>(th, fn). mcParallelSimul_task P M R antithetic th fn) ts s) = cMdl s
       \<and> cRng (fold (\<lambda>(th, fn). mcParallelSimul_task P M R antithetic th fn) ts s) = cRng s
       \<and> length (res (fold (\<lambda>(th, fn). mcParallelSimul_task P M R antithetic th fn) ts s))
           = length (res s)
       \<and> (\<forall>j. res (fold (\<lambda>(th, fn). mcParallelSimul_task P M R antithetic th fn) ts s) ! j
              = (if j < length (res s) \<and> (\<exists>(th, f, n) \<in> set ts. f \<le> j \<and> j < f + n)
                 then batchPathValue P M R antithetic (prd s) (cMdl s) (cRng s) j
                 else res s ! j))"
  using assms
proof (induction ts arbitrary: s)
  case Nil
  show ?case by simp
next
  case (Cons x ts)
  obtain th f n where x: "x = (th, f, n)" by (cases x)
  let ?s1 = "mcParallelSimul_task P M R antithetic th (f, n) s"
  from Cons.prems x have th: "th < length (gaussVecs s)" "th < length (paths s)"
    and dv: "BATCHSIZE dvd f" and nb: "n \<le> BATCHSIZE" by simp_all
  note E = mcParallelSimul_task_effect[OF th, where P=P and M=M and R=R
      and antithetic=antithetic and f=f and n=n]
  have pre1: "\<forall>(th, f, n) \<in> set ts. th < length (gaussVecs ?s1) \<and> th < length (paths ?s1)
              \<and> BATCHSIZE dvd f \<and> n \<le> BATCHSIZE"
    using Cons.prems by (simp add: E(6,7))
  note IH = Cons.IH[OF pre1]
  note IH1 = IH[THEN conjunct1]
  note IH2 = IH[THEN conjunct2, THEN conjunct1]
  note IH3 = IH[THEN conjunct2, THEN conjunct2, THEN conjunct1]
  note IH4 = IH[THEN conjunct2, THEN conjunct2, THEN conjunct2, THEN conjunct1]
  note IH5 = IH[THEN conjunct2, THEN conjunct2, THEN conjunct2, THEN conjunct2, THEN conjunct1]
  note IH6 = IH[THEN conjunct2, THEN conjunct2, THEN conjunct2, THEN conjunct2, THEN conjunct2,
      THEN conjunct1]
  note IH7 = IH[THEN conjunct2, THEN conjunct2, THEN conjunct2, THEN conjunct2, THEN conjunct2,
      THEN conjunct2, THEN spec]
  have fold_eq: "fold (\<lambda>(th, fn). mcParallelSimul_task P M R antithetic th fn) (x # ts) s
      = fold (\<lambda>(th, fn). mcParallelSimul_task P M R antithetic th fn) ts ?s1"
    by (simp add: x)
  let ?V = "batchPathValue P M R antithetic (prd s) (cMdl s) (cRng s)"
  have res1: "res ?s1 ! j = (if f \<le> j \<and> j < f + n \<and> j < length (res s)
             then ?V j else res s ! j)" for j
  proof (cases "f \<le> j \<and> j < f + n \<and> j < length (res s)")
    case True
    with batch_of_index[OF dv nb] have "BATCHSIZE * (j div BATCHSIZE) = f" by simp
    with True show ?thesis by (simp add: E(9) batchPathValue_def)
  next
    case False
    then show ?thesis by (simp only: E(9) if_False)
  qed
  have c1: "prd (fold (\<lambda>(th, fn). mcParallelSimul_task P M R antithetic th fn) ts ?s1) = prd s"
    "mdl (fold (\<lambda>(th, fn). mcParallelSimul_task P M R antithetic th fn) ts ?s1) = mdl s"
    "rng (fold (\<lambda>(th, fn). mcParallelSimul_task P M R antithetic th fn) ts ?s1) = rng s"
    "cMdl (fold (\<lambda>(th, fn). mcParallelSimul_task P M R antithetic th fn) ts ?s1) = cMdl s"
    "cRng (fold (\<lambda>(th, fn). mcParallelSimul_task P M R antithetic th fn) ts ?s1) = cRng s"
    "length (res (fold (\<lambda>(th, fn). mcParallelSimul_task P M R antithetic th fn) ts ?s1))
           = length (res s)"
    using IH1 IH2 IH3 IH4 IH5 IH6 by (simp_all only: E(1-5,8))
  have c7: "\<forall>j. res (fold (\<lambda>(th, fn). mcParallelSimul_task P M R antithetic th fn) ts ?s1) ! j
              = (if j < length (res s) \<and> (\<exists>(th, f, n) \<in> set (x # ts). f \<le> j \<and> j < f + n)
                 then ?V j else res s ! j)"
  proof
    fix j
    have "res (fold (\<lambda>(th, fn). mcParallelSimul_task P M R antithetic th fn) ts ?s1) ! j
              = (if j < length (res ?s1) \<and> (\<exists>(th, f, n) \<in> set ts. f \<le> j \<and> j < f + n)
                 then batchPathValue P M R antithetic (prd ?s1) (cMdl ?s1) (cRng ?s1) j
                 else res ?s1 ! j)" by (rule IH7)
    then show "res (fold (\<lambda>(th, fn). mcParallelSimul_task P M R antithetic th fn) ts ?s1) ! j
              = (if j < length (res s) \<and> (\<exists>(th, f, n) \<in> set (x # ts). f \<le> j \<and> j < f + n)
                 then ?V j else res s ! j)"
      by (auto simp: E(1,4,5,8) res1 x)
  qed
  show ?case
    unfolding fold_eq by (intro conjI c1 c7)
qed

lemma mcParallelSimul_exec_eq:
  assumes sched: "valid_schedule nThread (length (spawnLoop 0 nPath)) sched"
  shows "res (mcParallelSimul_exec P M R prd0 mdl0 rng0 nPath antithetic nThread sched)
           = map (batchPathValue P M R antithetic prd0 (setupModel P M prd0 mdl0)
                    (setupRng P M R prd0 mdl0 rng0)) [0..<nPath]"
    and "prd (mcParallelSimul_exec P M R prd0 mdl0 rng0 nPath antithetic nThread sched) = prd0"
    and "mdl (mcParallelSimul_exec P M R prd0 mdl0 rng0 nPath antithetic nThread sched) = mdl0"
    and "rng (mcParallelSimul_exec P M R prd0 mdl0 rng0 nPath antithetic nThread sched) = rng0"
    and "cMdl (mcParallelSimul_exec P M R prd0 mdl0 rng0 nPath antithetic nThread sched)
           = setupModel P M prd0 mdl0"
    and "cRng (mcParallelSimul_exec P M R prd0 mdl0 rng0 nPath antithetic nThread sched)
           = setupRng P M R prd0 mdl0 rng0"
proof -
  define m where "m = setupModel P M prd0 mdl0"
  define r where "r = setupRng P M R prd0 mdl0 rng0"
  define s0 where
    "s0 = \<lparr>prd = prd0, mdl = mdl0, rng = rng0, res = replicate nPath (0::real), cMdl = m,
      cRng = r, gaussVecs = replicate (nThread + 1) (replicate (simDim_Model M m) 0),
      paths = replicate (nThread + 1) (replicate (length (timeline P prd0)) \<lparr>spot = (0::real)\<rparr>)\<rparr>"
  define ts where "ts = scheduledTasks nPath sched"
  have s0: "prd s0 = prd0" "mdl s0 = mdl0" "rng s0 = rng0" "cMdl s0 = m" "cRng s0 = r"
    "length (res s0) = nPath"
    "length (gaussVecs s0) = nThread + 1" "length (paths s0) = nThread + 1"
    by (simp_all add: s0_def)
  have exec: "mcParallelSimul_exec P M R prd0 mdl0 rng0 nPath antithetic nThread sched
      = fold (\<lambda>(th, fn). mcParallelSimul_task P M R antithetic th fn) ts s0"
    unfolding ts_def s0_def m_def r_def scheduledTasks_def
    by (simp add: mcParallelSimul_exec_def Let_def setupModel_def setupRng_def fold_map
        comp_def case_prod_unfold)
  note V = scheduledTasks_valid[OF sched, folded ts_def]
  have pre: "\<forall>(th, f, n) \<in> set ts. th < length (gaussVecs s0) \<and> th < length (paths s0)
              \<and> BATCHSIZE dvd f \<and> n \<le> BATCHSIZE"
    using V(1) by (auto simp: s0)
  note T = mcParallelSimul_tasks_batch[OF pre, where P=P and M=M and R=R and antithetic=antithetic]
  note T1 = T[THEN conjunct1]
  note T2 = T[THEN conjunct2, THEN conjunct1]
  note T3 = T[THEN conjunct2, THEN conjunct2, THEN conjunct1]
  note T4 = T[THEN conjunct2, THEN conjunct2, THEN conjunct2, THEN conjunct1]
  note T5 = T[THEN conjunct2, THEN conjunct2, THEN conjunct2, THEN conjunct2, THEN conjunct1]
  note T6 = T[THEN conjunct2, THEN conjunct2, THEN conjunct2, THEN conjunct2, THEN conjunct2,
      THEN conjunct1]
  note T7 = T[THEN conjunct2, THEN conjunct2, THEN conjunct2, THEN conjunct2, THEN conjunct2,
      THEN conjunct2, THEN spec]
  have len: "length (res (fold (\<lambda>(th, fn). mcParallelSimul_task P M R antithetic th fn) ts s0)) = nPath"
    using T6 by (simp only: s0)
  have val: "res (fold (\<lambda>(th, fn). mcParallelSimul_task P M R antithetic th fn) ts s0) ! j
      = batchPathValue P M R antithetic prd0 m r j" if "j < nPath" for j
    using T7[of j] V(2)[OF that] that by (simp add: s0)
  show "res (mcParallelSimul_exec P M R prd0 mdl0 rng0 nPath antithetic nThread sched)
           = map (batchPathValue P M R antithetic prd0 (setupModel P M prd0 mdl0)
                    (setupRng P M R prd0 mdl0 rng0)) [0..<nPath]"
    unfolding exec m_def[symmetric] r_def[symmetric]
    by (rule nth_equalityI) (simp_all add: len val)
  show "prd (mcParallelSimul_exec P M R prd0 mdl0 rng0 nPath antithetic nThread sched) = prd0"
    unfolding exec using T1 by (simp only: s0)
  show "mdl (mcParallelSimul_exec P M R prd0 mdl0 rng0 nPath antithetic nThread sched) = mdl0"
    unfolding exec using T2 by (simp only: s0)
  show "rng (mcParallelSimul_exec P M R prd0 mdl0 rng0 nPath antithetic nThread sched) = rng0"
    unfolding exec using T3 by (simp only: s0)
  show "cMdl (mcParallelSimul_exec P M R prd0 mdl0 rng0 nPath antithetic nThread sched)
           = setupModel P M prd0 mdl0"
    unfolding exec using T4 by (simp only: s0 m_def)
  show "cRng (mcParallelSimul_exec P M R prd0 mdl0 rng0 nPath antithetic nThread sched)
           = setupRng P M R prd0 mdl0 rng0"
    unfolding exec using T5 by (simp only: s0 r_def)
qed

section \<open>The arguments of the simulators: results\<close>

lemma fold_invariant:
  assumes "\<And>a x. I x \<Longrightarrow> I (f a x)" and "I x"
  shows "I (fold f xs x)"
  using assms(2) by (induction xs arbitrary: x) (simp_all add: assms(1))

lemma forLoop_invariant:
  assumes "\<And>i x. I x \<Longrightarrow> I (body i x)" and "I x"
  shows "I (forLoop i n body x)"
  unfolding forLoop_fold using assms by (rule fold_invariant)

lemma mcParallelSimul_task_frame:
  fixes s :: "('p, 'm, 'r, real) parallel_state"
  shows "prd (mcParallelSimul_task P M R antithetic th fn s) = prd s
   \<and> mdl (mcParallelSimul_task P M R antithetic th fn s) = mdl s
   \<and> rng (mcParallelSimul_task P M R antithetic th fn s) = rng s
   \<and> cMdl (mcParallelSimul_task P M R antithetic th fn s) = cMdl s"
proof -
  obtain f n where fn: "fn = (f, n)" by (cases fn)
  define I where "I = (\<lambda>x :: 'r task_locals \<times> ('p, 'm, 'r, real) parallel_state.
                 prd (snd x) = prd s \<and> mdl (snd x) = mdl s \<and> rng (snd x) = rng s
                 \<and> cMdl (snd x) = cMdl s)"
  have step: "I (mcParallelSimul_body P M R antithetic th f i x)" if "I x" for i x
    using that by (cases x) (simp add: I_def mcParallelSimul_body_simps)
  have "I (forLoop 0 n (mcParallelSimul_body P M R antithetic th f)
            (\<lparr>taskRng = skipTo R (int (if antithetic then f div 2 else f)) (clone_RNG R (cRng s)),
              antiPath_task = False\<rparr>, s))"
    by (rule forLoop_invariant[where I=I, OF step]) (simp_all add: I_def)
  then show ?thesis
    by (simp add: I_def fn mcParallelSimul_task_def Let_def)
qed

lemma mcParallelSimul_exec_frame:
  "prd (mcParallelSimul_exec P M R prd0 mdl0 rng0 nPath antithetic nThread sched) = prd0
   \<and> mdl (mcParallelSimul_exec P M R prd0 mdl0 rng0 nPath antithetic nThread sched) = mdl0
   \<and> rng (mcParallelSimul_exec P M R prd0 mdl0 rng0 nPath antithetic nThread sched) = rng0
   \<and> cMdl (mcParallelSimul_exec P M R prd0 mdl0 rng0 nPath antithetic nThread sched)
       = init_Model M (timeline P prd0) (clone_Model M mdl0)"
  unfolding mcParallelSimul_exec_def Let_def
  by (rule fold_invariant) (simp_all add: mcParallelSimul_task_frame split: prod.split)

lemma mcParallelSimulAAD_task_frame:
  fixes s :: "('p, 'm, 'r, 'T) parallel_aad_state"
  shows "prd (mcParallelSimulAAD_task P M R N antithetic th fn s) = prd s
   \<and> mdl (mcParallelSimulAAD_task P M R N antithetic th fn s) = mdl s
   \<and> rng (mcParallelSimulAAD_task P M R N antithetic th fn s) = rng s"
proof -
  obtain f n where fn: "fn = (f, n)" by (cases fn)
  define I where "I = (\<lambda>x :: 'r task_locals \<times> ('p, 'm, 'r, 'T) parallel_aad_state.
                 prd (snd x) = prd s \<and> mdl (snd x) = mdl s \<and> rng (snd x) = rng s)"
  have step: "I (mcParallelSimulAAD_body P M R antithetic th f i x)" if "I x" for i x
    using that by (cases x) (simp add: I_def mcParallelSimulAAD_body_frame)
  have "I (forLoop 0 n (mcParallelSimulAAD_body P M R antithetic th f) (t0, s0))"
    if "prd s0 = prd s \<and> mdl s0 = mdl s \<and> rng s0 = rng s" for t0 s0
    by (rule forLoop_invariant[where I=I, OF step]) (simp_all add: I_def that)
  then show ?thesis
    by (simp add: I_def fn mcParallelSimulAAD_task_def Let_def initThread_eq)
qed

lemma mcParallelSimulAAD_finish_frame:
  fixes s :: "('p, 'm, 'r, 'T) parallel_aad_state"
  shows "prd (mcParallelSimulAAD_finish M nThread s) = prd s
   \<and> mdl (mcParallelSimulAAD_finish M nThread s) = mdl s
   \<and> rng (mcParallelSimulAAD_finish M nThread s) = rng s"
proof -
  define I where "I = (\<lambda>x :: ('p, 'm, 'r, 'T) parallel_aad_state.
                 prd x = prd s \<and> mdl x = mdl s \<and> rng x = rng s)"
  have c: "I (call_on th e x)" if "I x" for th e x
    using that by (simp add: I_def)
  have p: "I (propagateWorker i x)" if "I x" for i x
    using that by (simp add: I_def propagateWorker_def Let_def)
  have a: "I (accumulateWorker M ps i x)" if "I x" for i x ps
    unfolding accumulateWorker_def Let_def
    using that by (simp add: forLoop_invariant[where I=I] c)
  have "I (forLoop 0 nThread propagateWorker (call_on 0 e s))" for e
    by (rule forLoop_invariant[where I=I, OF p]) (simp_all add: I_def)
  then have "I ((forLoop 0 nThread propagateWorker (call_on 0 e s))\<lparr>Number_tape := nt\<rparr>)" for e nt
    by (simp add: I_def)
  then have "I (forLoop 0 nThread (accumulateWorker M ps)
                 ((forLoop 0 nThread propagateWorker (call_on 0 e s))\<lparr>Number_tape := nt\<rparr>))"
    for e nt ps
    by (intro forLoop_invariant[where I=I] a)
  then show ?thesis
    by (simp add: I_def mcParallelSimulAAD_finish_def Let_def)
qed

lemma mcParallelSimulAAD_exec_frame:
  "prd (mcParallelSimulAAD_exec P M R N prd0 mdl0 rng0 nPath antithetic nThread sched) = prd0
   \<and> mdl (mcParallelSimulAAD_exec P M R N prd0 mdl0 rng0 nPath antithetic nThread sched) = mdl0
   \<and> rng (mcParallelSimulAAD_exec P M R N prd0 mdl0 rng0 nPath antithetic nThread sched) = rng0"
proof -
  have "prd (fold (\<lambda>(threadNum, k). mcParallelSimulAAD_task P M R N antithetic threadNum (fs ! k))
               sched s1) = prd0
      \<and> mdl (fold (\<lambda>(threadNum, k). mcParallelSimulAAD_task P M R N antithetic threadNum (fs ! k))
               sched s1) = mdl0
      \<and> rng (fold (\<lambda>(threadNum, k). mcParallelSimulAAD_task P M R N antithetic threadNum (fs ! k))
               sched s1) = rng0"
    if "prd s1 = prd0 \<and> mdl s1 = mdl0 \<and> rng s1 = rng0" for fs s1
    by (rule fold_invariant) (simp_all add: mcParallelSimulAAD_task_frame that split: prod.split)
  then show ?thesis
    by (simp add: mcParallelSimulAAD_exec_def Let_def mcParallelSimulAAD_finish_frame initThread_eq)
qed

section \<open>The concrete collaborators: results\<close>

lemma counterRNG_simps [simp]:
  "init_RNG counterRNG d (n, k) = (d, k)"
  "nextG counterRNG (n, k) = (replicate n (real k), (n, k + 1))"
  "clone_RNG counterRNG r = r"
  "skipTo counterRNG b (n, k) = (n, nat b)"
  by (simp_all add: counterRNG_def)

lemma counterRNG_advance: "(advance counterRNG ^^ j) (d, k) = (d, k + j)"
  by (induction j) (simp_all add: advance_def)

lemma counterRNG_draw: "draw counterRNG (d, k) j = replicate d (real (k + j))"
  by (simp add: draw_def counterRNG_advance)

lemma counterRNG_exact_skip: "exact_skip counterRNG (d, 0)"
  by (simp add: exact_skip_def counterRNG_draw)

lemma spawnLoop_65: "spawnLoop 0 65 = [(0, 64), (64, 1)]"
  by (simp add: spawnLoop.simps BATCHSIZE_def Let_def)

lemma valid_schedule_65: "valid_schedule 1 (length (spawnLoop 0 65)) [(1, 1), (0, 0)]"
  by (simp add: valid_schedule_def spawnLoop_65 upt_rec)

lemma setupRng_counter:
  "setupRng forwardProduct spotModel counterRNG 100 100 (0, 0) = (1, 0)"
  by (simp add: setupRng_def setupModel_def spotModel_def)

section \<open>The antithetic rule in the batches: results\<close>

lemma batchPathValue_antithetic:
  "batchPathValue P M R True prd0 m r j
     = payoff P prd0 (generatePath M m
         (gaussSeq R True
            (skipTo R (int (BATCHSIZE * (j div BATCHSIZE) div 2)) (clone_RNG R r))
            (j mod BATCHSIZE)))"
  by (simp add: batchPathValue_def pathValue_def Let_def minus_mult_div_eq_mod)

section \<open>The batches: results\<close>

lemma fold_invariant_set:
  assumes "\<And>a x. a \<in> set xs \<Longrightarrow> I x \<Longrightarrow> I (f a x)" and "I x"
  shows "I (fold f xs x)"
  using assms by (induction xs arbitrary: x) simp_all

lemma forLoop_invariant_index:
  assumes "\<And>k x. i \<le> k \<Longrightarrow> k < n \<Longrightarrow> I x \<Longrightarrow> I (body k x)" and "I x"
  shows "I (forLoop i n body x)"
  unfolding forLoop_fold
  by (rule fold_invariant_set[where I=I]) (simp_all add: assms)

lemma spawnLoop_covers_once:
  "length (filter (\<lambda>(f, n). f \<le> j \<and> j < f + n) (spawnLoop f0 left))
     = (if f0 \<le> j \<and> j < f0 + left then 1 else 0)"
proof (induction f0 left rule: spawnLoop.induct)
  case (1 f0 left)
  show ?case
  proof (cases "left > 0")
    case False
    then show ?thesis by (subst spawnLoop.simps) simp
  next
    case True
    define m where "m = min left BATCHSIZE"
    have m: "0 < m" "m \<le> left" using True by (simp_all add: m_def BATCHSIZE_def)
    have unfold: "spawnLoop f0 left = (f0, m) # spawnLoop (f0 + m) (left - m)"
      using True by (subst spawnLoop.simps) (simp add: Let_def m_def)
    have IH: "length (filter (\<lambda>(f, n). f \<le> j \<and> j < f + n) (spawnLoop (f0 + m) (left - m)))
        = (if f0 + m \<le> j \<and> j < f0 + m + (left - m) then 1 else 0)"
      unfolding m_def by (rule "1.IH"[OF True refl])
    have e: "f0 + m + (left - m) = f0 + left" using m by simp
    have L: "length (filter Q (x # xs)) = (if Q x then 1 else 0) + length (filter Q xs)"
      for Q :: "nat \<times> nat \<Rightarrow> bool" and x xs
      by simp
    have "length (filter (\<lambda>(f, n). f \<le> j \<and> j < f + n) (spawnLoop f0 left))
        = (if f0 \<le> j \<and> j < f0 + m then 1 else 0)
          + (if f0 + m \<le> j \<and> j < f0 + left then 1 else 0)"
      unfolding unfold L IH e by simp
    also have "\<dots> = (if f0 \<le> j \<and> j < f0 + left then 1 else 0)"
      using m by auto
    finally show ?thesis .
  qed
qed

lemma mcParallelSimul_body_res_other:
  "j \<noteq> f + i \<Longrightarrow>
     res (snd (mcParallelSimul_body P M R antithetic th f i x)) ! j = res (snd x) ! j"
  by (cases x) (simp add: mcParallelSimul_body_def Let_def split: prod.split)

lemma mcParallelSimul_task_res_other:
  fixes s :: "('p, 'm, 'r, real) parallel_state"
  assumes "j < f \<or> f + n \<le> j"
  shows "res (mcParallelSimul_task P M R antithetic th (f, n) s) ! j = res s ! j"
proof -
  define I where "I = (\<lambda>x :: 'r task_locals \<times> ('p, 'm, 'r, real) parallel_state.
                        res (snd x) ! j = res s ! j)"
  have step: "I (mcParallelSimul_body P M R antithetic th f i x)" if "0 \<le> i" "i < n" "I x" for i x
  proof -
    from that assms have "j \<noteq> f + i" by auto
    with that(3) show ?thesis by (simp add: I_def mcParallelSimul_body_res_other)
  qed
  have "I (forLoop 0 n (mcParallelSimul_body P M R antithetic th f)
            (\<lparr>taskRng = skipTo R (int (if antithetic then f div 2 else f)) (clone_RNG R (cRng s)),
              antiPath_task = False\<rparr>, s))"
    by (rule forLoop_invariant_index[where I=I, OF step]) (simp_all add: I_def)
  then show ?thesis
    by (simp add: I_def mcParallelSimul_task_def Let_def)
qed

lemma mcParallelSimulAAD_body_res_other:
  "j \<noteq> f + i \<Longrightarrow>
     res (snd (mcParallelSimulAAD_body P M R antithetic th f i x)) ! j = res (snd x) ! j"
  by (cases x) (simp add: mcParallelSimulAAD_body_def Let_def split: prod.split)

lemma mcParallelSimulAAD_task_res_other:
  fixes s :: "('p, 'm, 'r, 'T) parallel_aad_state"
  assumes "j < f \<or> f + n \<le> j"
  shows "res (mcParallelSimulAAD_task P M R N antithetic th (f, n) s) ! j = res s ! j"
proof -
  define I where "I = (\<lambda>x :: 'r task_locals \<times> ('p, 'm, 'r, 'T) parallel_aad_state.
                        res (snd x) ! j = res s ! j)"
  have step: "I (mcParallelSimulAAD_body P M R antithetic th f i x)"
    if "0 \<le> i" "i < n" "I x" for i x
  proof -
    from that assms have "j \<noteq> f + i" by auto
    with that(3) show ?thesis by (simp add: I_def mcParallelSimulAAD_body_res_other)
  qed
  have "I (forLoop 0 n (mcParallelSimulAAD_body P M R antithetic th f) (t0, s0))"
    if "res s0 = res s" for t0 s0
    by (rule forLoop_invariant_index[where I=I, OF step]) (simp_all add: I_def that)
  then show ?thesis
    by (simp add: I_def mcParallelSimulAAD_task_def Let_def initThread_eq)
qed

section \<open>The calls of a thread, task by task: results\<close>

lemma threadEvents_initialised:
  "threadEvents antithetic t True ts
     = concat (map (\<lambda>(th, task). taskEvents antithetic t task)
         (filter (\<lambda>(th, task). th = t) ts))"
  by (induction ts) auto

lemma threadEvents_fresh:
  "threadEvents antithetic t False ts
     = (if t \<in> fst ` set ts then setupEvents t else [])
       @ concat (map (\<lambda>(th, task). taskEvents antithetic t task)
           (filter (\<lambda>(th, task). th = t) ts))"
proof (induction ts)
  case Nil
  show ?case by simp
next
  case (Cons x ts)
  obtain th task where x: "x = (th, task)" by (cases x)
  show ?case
  proof (cases "th = t")
    case True
    then show ?thesis by (simp add: x threadEvents_initialised)
  next
    case False
    then show ?thesis using Cons.IH by (simp add: x)
  qed
qed

lemma initialisedWorkers_exec:
  assumes v: "valid_schedule nThread (length (spawnLoop 0 nPath)) sched"
  shows "initialisedWorkers
           (init_thr (mcParallelSimulAAD_exec P M R N prd0 mdl0 rng0 nPath antithetic nThread sched))
           nThread
         = filter (\<lambda>w. w \<in> fst ` set sched) [1..<nThread + 1]"
  unfolding initialisedWorkers_def
proof (rule filter_cong[OF refl])
  fix w assume "w \<in> set [1..<nThread + 1]"
  then have w: "0 < w" "w \<le> nThread" by auto
  from mcParallelSimulAAD_exec_eq(3)[OF v w(2)] w(1)
  show "init_thr (mcParallelSimulAAD_exec P M R N prd0 mdl0 rng0 nPath antithetic nThread sched) ! w
        = (w \<in> fst ` set sched)"
    by simp
qed

lemma mcParallelSimulAAD_exec_traces:
  assumes v: "valid_schedule nThread (length (spawnLoop 0 nPath)) sched" and t: "t \<le> nThread"
  shows "traces (mcParallelSimulAAD_exec P M R N prd0 mdl0 rng0 nPath antithetic nThread sched) ! t
      = (if t = 0 \<or> t \<in> fst ` set sched then setupEvents t else [])
        @ concat (map (\<lambda>(th, task). taskEvents antithetic t task)
            (filter (\<lambda>(th, task). th = t) (scheduledTasks nPath sched)))
        @ (if t = 0
           then finishEvents (filter (\<lambda>w. w \<in> fst ` set sched) [1..<nThread + 1])
                  (length (parameters M (setupModelAAD P M prd0 mdl0)))
           else [])"
proof (cases "t = 0")
  case True
  show ?thesis
    unfolding True mcParallelSimulAAD_exec_eq(4)[OF v] initialisedWorkers_exec[OF v]
      threadEvents_initialised
    by simp
next
  case False
  then have pos: "0 < t" by simp
  show ?thesis
    unfolding mcParallelSimulAAD_exec_eq(5)[OF v pos t] threadEvents_fresh
      scheduledTasks_valid(3)[OF v]
    using False by simp
qed

section \<open>The calls of the set-up: results\<close>

lemma setupCall_setupEvents:
  "filter setupCall (setupEvents t) = [Tape_rewind t, Model_putOnTape t, Model_init t, Tape_mark t]"
  "take 4 (setupEvents t @ es) = [Tape_rewind t, Model_putOnTape t, Model_init t, Tape_mark t]"
  by (simp_all add: setupEvents_def)

lemma setupCall_pathEvents: "filter setupCall (pathEvents tape antithetic f i) = []"
  by (simp add: pathEvents_def)

lemma setupCall_paths:
  "filter setupCall (concat (map (pathEvents tape antithetic f) is)) = []"
  by (induction "is") (simp_all add: setupCall_pathEvents)

lemma setupCall_taskEvents: "filter setupCall (taskEvents antithetic t task) = []"
  by (cases task) (simp add: taskEvents_def setupCall_paths)

lemma setupCall_tasks:
  "filter setupCall (concat (map (\<lambda>(th, task). taskEvents antithetic t task) ts)) = []"
  by (induction ts) (simp_all add: setupCall_taskEvents split: prod.split)

lemma setupCall_finishEvents: "filter setupCall (finishEvents ws n) = []"
proof -
  have a: "filter setupCall (map Tape_propagateMarkToStart xs) = []" for xs
    by (induction xs) simp_all
  have b: "filter setupCall (map (Adjoint_add t) xs) = []" for t xs
    by (induction xs) simp_all
  have c: "filter setupCall (concat (map (\<lambda>t. map (Adjoint_add t) [0..<n]) xs)) = []" for xs
    by (induction xs) (simp_all add: b)
  show ?thesis by (simp add: finishEvents_def a c)
qed

section \<open>The calls after the tasks: results\<close>

lemma finishCall_setupEvents: "filter finishCall (setupEvents t) = []"
  by (simp add: setupEvents_def)

lemma finishCall_paths:
  "filter finishCall (concat (map (pathEvents tape antithetic f) is)) = []"
  by (induction "is") (simp_all add: pathEvents_def)

lemma finishCall_tasks:
  "filter finishCall (concat (map (\<lambda>(th, task). taskEvents antithetic t task) ts)) = []"
  by (induction ts) (simp_all add: taskEvents_def finishCall_paths split: prod.split)

lemma finishCall_finishEvents: "filter finishCall (finishEvents ws n) = finishEvents ws n"
proof -
  have "\<forall>e \<in> set (finishEvents ws n). finishCall e"
    by (auto simp: finishEvents_def)
  then show ?thesis by (simp add: filter_id_conv)
qed

section \<open>The tape: results\<close>

lemma map_inputs_update:
  "map inputs (ns[j := (ns ! j)\<lparr>adjoint := a\<rparr>]) = map inputs ns"
proof (rule nth_equalityI)
  show "length (map inputs (ns[j := (ns ! j)\<lparr>adjoint := a\<rparr>])) = length (map inputs ns)"
    by simp
next
  fix i assume "i < length (map inputs (ns[j := (ns ! j)\<lparr>adjoint := a\<rparr>]))"
  then have i: "i < length ns" by simp
  show "map inputs (ns[j := (ns ! j)\<lparr>adjoint := a\<rparr>]) ! i = map inputs ns ! i"
    using i by (cases "i = j") simp_all
qed

lemma accumulate_simps:
  "length (accumulate k jd ns) = length ns"
  "map inputs (accumulate k jd ns) = map inputs ns"
  by (cases jd, simp add: accumulate_def, cases jd, simp add: accumulate_def map_inputs_update)










lemma freshNodes_simps [simp]:
  "length (freshNodes ops) = length ops"
  "map inputs (freshNodes ops) = ops"
  "k < length ops \<Longrightarrow> adjoint (freshNodes ops ! k) = 0"
  by (simp_all add: freshNodes_def comp_def)

lemma freshNodes_append: "freshNodes (a @ b) = freshNodes a @ freshNodes b"
  by (simp add: freshNodes_def)
















section \<open>The tapes after the tasks\<close>

lemma mcParallelSimulAAD_exec_tasksDone:
  "mcParallelSimulAAD_exec P M R N prd0 mdl0 rng0 nPath antithetic nThread sched
     = mcParallelSimulAAD_finish M nThread
         (mcParallelSimulAAD_tasksDone P M R N prd0 mdl0 rng0 nPath antithetic nThread sched)"
  by (simp add: mcParallelSimulAAD_exec_def mcParallelSimulAAD_tasksDone_def Let_def)

lemma forLoop_fst:
  assumes "\<And>i x. fst (f i x) = g i (fst x)"
  shows "fst (forLoop lo n f x) = forLoop lo n g (fst x)"
proof -
  have "fst (fold f xs x) = fold g xs (fst x)" for xs
    by (induction xs arbitrary: x) (simp_all add: assms)
  then show ?thesis unfolding forLoop_fold .
qed

lemma Number_propagateMarkToStart_fst:
  "fst (Number_propagateMarkToStart x) = call_on 0 (Tape_propagateMarkToStart (Number_tape (fst x) ! 0)) (fst x)"
  by (cases x) (simp add: Number_propagateMarkToStart_def Let_def)

lemma propagateWorker_tapes_fst:
  "fst (propagateWorker_tapes i x) = propagateWorker i (fst x)"
  by (cases x)
    (simp add: propagateWorker_tapes_def propagateWorker_def Number_propagateMarkToStart_fst Let_def)

lemma accumulateWorker_tapes_fst:
  fixes x :: "('p, 'm, 'r, 'T) parallel_aad_state \<times> tape list"
  shows "fst (accumulateWorker_tapes M nodeOf params0 i x) = accumulateWorker M params0 i (fst x)"
proof (cases x)
  case (Pair s ts)
  have "fst (forLoop 0 n (\<lambda>j (s, ts). (call_on 0 (Adjoint_add w j) s, F j s ts)) (s, ts))
        = forLoop 0 n (\<lambda>j. call_on 0 (Adjoint_add w j)) s" for n w
    and F :: "nat \<Rightarrow> ('p, 'm, 'r, 'T) parallel_aad_state \<Rightarrow> tape list \<Rightarrow> tape list"
    using forLoop_fst[where f="\<lambda>j (s, ts). (call_on 0 (Adjoint_add w j) s, F j s ts)"
        and g="\<lambda>j. call_on 0 (Adjoint_add w j)" and x="(s, ts)" and lo=0 and n=n]
    by (simp add: case_prod_unfold)
  then show ?thesis
    by (simp add: Pair accumulateWorker_tapes_def accumulateWorker_def Let_def)
qed

lemma mcParallelSimulAAD_finish_tapes_fst:
  fixes x :: "('p, 'm, 'r, 'T) parallel_aad_state \<times> tape list"
  shows "fst (mcParallelSimulAAD_finish_tapes M nodeOf nThread x)
         = mcParallelSimulAAD_finish M nThread (fst x)"
proof -
  have p: "fst (forLoop 0 nThread propagateWorker_tapes y) = forLoop 0 nThread propagateWorker (fst y)"
    for y :: "('p, 'm, 'r, 'T) parallel_aad_state \<times> tape list"
    by (rule forLoop_fst) (rule propagateWorker_tapes_fst)
  have a: "fst (forLoop 0 nThread (accumulateWorker_tapes M nodeOf ps) y)
         = forLoop 0 nThread (accumulateWorker M ps) (fst y)"
    for y :: "('p, 'm, 'r, 'T) parallel_aad_state \<times> tape list" and ps
    by (rule forLoop_fst) (rule accumulateWorker_tapes_fst)
  show ?thesis
    by (cases x)
      (simp add: mcParallelSimulAAD_finish_tapes_def mcParallelSimulAAD_finish_def Let_def
        case_prod_unfold a p Number_propagateMarkToStart_fst)
qed

lemma addAdjoint_simps:
  "markAt (addAdjoint k x t) = markAt t"
  "length (nodes (addAdjoint k x t)) = length (nodes t)"
  "map inputs (nodes (addAdjoint k x t)) = map inputs (nodes t)"
  "j < length (nodes t) \<Longrightarrow>
     adjoint (nodes (addAdjoint k x t) ! j) = adjoint (nodes t ! j) + (if k = j then x else 0)"
  by (simp_all add: addAdjoint_def map_inputs_update nth_list_update)

lemma fold_addAdjoint:
  fixes nd :: "nat \<Rightarrow> nat" and x :: "nat \<Rightarrow> real"
  shows "markAt (fold (\<lambda>j. addAdjoint (nd j) (x j)) js t) = markAt t
       \<and> length (nodes (fold (\<lambda>j. addAdjoint (nd j) (x j)) js t)) = length (nodes t)
       \<and> map inputs (nodes (fold (\<lambda>j. addAdjoint (nd j) (x j)) js t)) = map inputs (nodes t)
       \<and> (\<forall>k < length (nodes t).
            adjoint (nodes (fold (\<lambda>j. addAdjoint (nd j) (x j)) js t) ! k)
            = adjoint (nodes t ! k) + (\<Sum>j \<leftarrow> js. if nd j = k then x j else 0))"
proof (induction js arbitrary: t)
  case Nil
  show ?case by simp
next
  case (Cons j js)
  let ?t1 = "addAdjoint (nd j) (x j) t"
  note IH = Cons.IH[of ?t1]
  have f: "fold (\<lambda>j. addAdjoint (nd j) (x j)) (j # js) t = fold (\<lambda>j. addAdjoint (nd j) (x j)) js ?t1"
    by simp
  have c4: "adjoint (nodes (fold (\<lambda>j. addAdjoint (nd j) (x j)) js ?t1) ! k)
            = adjoint (nodes t ! k) + (\<Sum>j \<leftarrow> j # js. if nd j = k then x j else 0)"
    if k: "k < length (nodes t)" for k
  proof -
    from k have "k < length (nodes ?t1)" by (simp add: addAdjoint_simps)
    with IH have "adjoint (nodes (fold (\<lambda>j. addAdjoint (nd j) (x j)) js ?t1) ! k)
            = adjoint (nodes ?t1 ! k) + (\<Sum>j \<leftarrow> js. if nd j = k then x j else 0)"
      by blast
    then show ?thesis using k by (simp add: addAdjoint_simps)
  qed
  show ?case
    unfolding f using IH c4 by (simp add: addAdjoint_simps)
qed

lemma propagateWorker_tapes_loop:
  fixes s :: "('p, 'm, 'r, 'T) parallel_aad_state"
  assumes nt: "0 < length (Number_tape s)" and tr: "0 < length (traces s)" and k: "k < length ts"
  shows "length (snd (forLoop 0 k propagateWorker_tapes (s, ts))) = length ts
       \<and> (\<forall>w. snd (forLoop 0 k propagateWorker_tapes (s, ts)) ! w
              = (if 1 \<le> w \<and> w \<le> k \<and> init_thr s ! w
                 then tape_propagateMarkToStart (ts ! w) else ts ! w))"
  using k
proof (induction k)
  case 0
  show ?case by simp
next
  case (Suc k)
  from Suc.prems have k: "k < length ts" and k1: "Suc k < length ts" by simp_all
  obtain sk tsk where L: "forLoop 0 k propagateWorker_tapes (s, ts) = (sk, tsk)"
    by (cases "forLoop 0 k propagateWorker_tapes (s, ts)")
  from Suc.IH[OF k] have len: "length tsk = length ts"
    and nth: "\<And>w. tsk ! w = (if 1 \<le> w \<and> w \<le> k \<and> init_thr s ! w
                 then tape_propagateMarkToStart (ts ! w) else ts ! w)"
    unfolding L by simp_all
  have "sk = fst (forLoop 0 k propagateWorker_tapes (s, ts))" by (simp add: L)
  also have "\<dots> = forLoop 0 k propagateWorker s"
    using forLoop_fst[where f=propagateWorker_tapes and g=propagateWorker and x="(s, ts)",
        OF propagateWorker_tapes_fst]
    by simp
  finally have sk: "sk = forLoop 0 k propagateWorker s" .
  have ik: "init_thr sk = init_thr s" and nk: "0 < length (Number_tape sk)"
    unfolding sk propagateWorker_loop[OF nt tr] using nt by simp_all
  have step: "forLoop 0 (Suc k) propagateWorker_tapes (s, ts) = propagateWorker_tapes k (sk, tsk)"
    by (simp only: forLoop_Suc[OF le0] L)
  have tk: "tsk ! Suc k = ts ! Suc k" by (simp add: nth)
  show ?case
  proof (cases "init_thr s ! Suc k")
    case False
    then have "propagateWorker_tapes k (sk, tsk) = (sk, tsk)"
      by (simp add: propagateWorker_tapes_def ik)
    then show ?thesis unfolding step using len nth False
      by (auto simp: le_Suc_eq)
  next
    case True
    then have "snd (propagateWorker_tapes k (sk, tsk))
        = tsk[Suc k := tape_propagateMarkToStart (ts ! Suc k)]"
      using nk by (simp add: propagateWorker_tapes_def ik Number_propagateMarkToStart_def Let_def tk)
    then show ?thesis unfolding step using len nth True k1
      by (auto simp: nth_list_update le_Suc_eq)
  qed
qed

lemma accumulate_inner_loop:
  fixes s :: "('p, 'm, 'r, 'T) parallel_aad_state"
  assumes "0 < length ts" "w \<noteq> 0"
  shows "snd (forLoop 0 m
            (\<lambda>j (s :: ('p, 'm, 'r, 'T) parallel_aad_state, ts).
                (call_on 0 (Adjoint_add w j) s,
                 ts[0 := addAdjoint (nd0 j) (adjoint (nodes (ts ! w) ! ndw j)) (ts ! 0)]))
            (s, ts))
         = ts[0 := fold (\<lambda>j. addAdjoint (nd0 j) (adjoint (nodes (ts ! w) ! ndw j))) [0..<m] (ts ! 0)]"
proof (induction m)
  case 0
  show ?case by simp
next
  case (Suc m)
  let ?body = "\<lambda>j (s :: ('p, 'm, 'r, 'T) parallel_aad_state, ts).
                (call_on 0 (Adjoint_add w j) s,
                 ts[0 := addAdjoint (nd0 j) (adjoint (nodes (ts ! w) ! ndw j)) (ts ! 0)])"
  obtain sm tsm where L: "forLoop 0 m ?body (s, ts) = (sm, tsm)"
    by (cases "forLoop 0 m ?body (s, ts)")
  from Suc have tsm: "tsm = ts[0 := fold (\<lambda>j. addAdjoint (nd0 j) (adjoint (nodes (ts ! w) ! ndw j)))
                                  [0..<m] (ts ! 0)]"
    unfolding L by simp
  have step: "forLoop 0 (Suc m) ?body (s, ts) = ?body m (sm, tsm)"
    by (simp only: forLoop_Suc[OF le0] L)
  show ?case
    unfolding step using assms by (simp add: tsm)
qed

lemma accumulateWorker_tapes_loop:
  fixes s :: "('p, 'm, 'r, 'T) parallel_aad_state"
  assumes lt: "0 < length ts" and tr: "0 < length (traces s)"
  shows "\<exists>T. snd (forLoop 0 k (accumulateWorker_tapes M nodeOf ps0) (s, ts)) = ts[0 := T]
       \<and> markAt T = markAt (ts ! 0)
       \<and> length (nodes T) = length (nodes (ts ! 0))
       \<and> map inputs (nodes T) = map inputs (nodes (ts ! 0))
       \<and> (\<forall>n < length (nodes (ts ! 0)).
            adjoint (nodes T ! n)
            = adjoint (nodes (ts ! 0) ! n)
              + (\<Sum>w \<leftarrow> initialisedWorkers (init_thr s) k. \<Sum>j \<leftarrow> [0..<length ps0].
                   if nodeOf (ps0 ! j) = n
                   then adjoint (nodes (ts ! w) ! nodeOf (parameters M (the (cMdl_thr s ! w)) ! j))
                   else 0))"
proof (induction k)
  case 0
  have "ts[0 := ts ! 0] = ts" by (rule list_update_id)
  then show ?case
    by (intro exI[of _ "ts ! 0"]) (simp add: initialisedWorkers_def)
next
  case (Suc k)
  let ?X = "\<lambda>w j. adjoint (nodes (ts ! w) ! nodeOf (parameters M (the (cMdl_thr s ! w)) ! j))"
  obtain sk tsk where L: "forLoop 0 k (accumulateWorker_tapes M nodeOf ps0) (s, ts) = (sk, tsk)"
    by (cases "forLoop 0 k (accumulateWorker_tapes M nodeOf ps0) (s, ts)")
  from Suc obtain T where tsk: "tsk = ts[0 := T]"
    and T: "markAt T = markAt (ts ! 0)" "length (nodes T) = length (nodes (ts ! 0))"
      "map inputs (nodes T) = map inputs (nodes (ts ! 0))"
    and TA: "\<And>n. n < length (nodes (ts ! 0)) \<Longrightarrow> adjoint (nodes T ! n)
            = adjoint (nodes (ts ! 0) ! n)
              + (\<Sum>w \<leftarrow> initialisedWorkers (init_thr s) k. \<Sum>j \<leftarrow> [0..<length ps0].
                   if nodeOf (ps0 ! j) = n then ?X w j else 0)"
    unfolding L by auto
  have "sk = fst (forLoop 0 k (accumulateWorker_tapes M nodeOf ps0) (s, ts))" by (simp add: L)
  also have "\<dots> = forLoop 0 k (accumulateWorker M ps0) s"
    using forLoop_fst[where f="accumulateWorker_tapes M nodeOf ps0" and g="accumulateWorker M ps0"
        and x="(s, ts)", OF accumulateWorker_tapes_fst]
    by simp
  finally have sk: "sk = forLoop 0 k (accumulateWorker M ps0) s" .
  have ik: "init_thr sk = init_thr s" and ck: "cMdl_thr sk = cMdl_thr s"
    unfolding sk accumulateWorker_loop[OF tr] by simp_all
  have step: "forLoop 0 (Suc k) (accumulateWorker_tapes M nodeOf ps0) (s, ts)
      = accumulateWorker_tapes M nodeOf ps0 k (sk, tsk)"
    by (simp only: forLoop_Suc[OF le0] L)
  show ?case
  proof (cases "init_thr s ! Suc k")
    case False
    then have "accumulateWorker_tapes M nodeOf ps0 k (sk, tsk) = (sk, tsk)"
      by (simp add: accumulateWorker_tapes_def ik)
    then show ?thesis unfolding step
      using tsk T TA False by (intro exI[of _ T]) (simp add: initialisedWorkers_Suc)
  next
    case True
    define T' where "T' = fold (\<lambda>j. addAdjoint (nodeOf (ps0 ! j)) (?X (Suc k) j)) [0..<length ps0] T"
    have lk: "0 < length tsk" unfolding tsk using lt by simp
    have rd: "tsk ! Suc k = ts ! Suc k" unfolding tsk by simp
    have t0: "tsk ! 0 = T" unfolding tsk using lt by simp
    have "snd (accumulateWorker_tapes M nodeOf ps0 k (sk, tsk))
        = tsk[0 := fold (\<lambda>j. addAdjoint (nodeOf (ps0 ! j))
              (adjoint (nodes (tsk ! Suc k) ! nodeOf (parameters M (the (cMdl_thr sk ! Suc k)) ! j))))
            [0..<length ps0] (tsk ! 0)]"
      using True accumulate_inner_loop[OF lk, of "Suc k" "length ps0" "\<lambda>j. nodeOf (ps0 ! j)"
          "\<lambda>j. nodeOf (parameters M (the (cMdl_thr sk ! Suc k)) ! j)" sk]
      by (simp add: accumulateWorker_tapes_def ik Let_def)
    also have "\<dots> = ts[0 := T']"
      unfolding rd t0 ck T'_def by (simp add: tsk)
    finally have r: "snd (accumulateWorker_tapes M nodeOf ps0 k (sk, tsk)) = ts[0 := T']" .
    note F = fold_addAdjoint[of "\<lambda>j. nodeOf (ps0 ! j)" "?X (Suc k)" "[0..<length ps0]" T,
        folded T'_def]
    have a: "adjoint (nodes T' ! n)
            = adjoint (nodes (ts ! 0) ! n)
              + (\<Sum>w \<leftarrow> initialisedWorkers (init_thr s) (Suc k). \<Sum>j \<leftarrow> [0..<length ps0].
                   if nodeOf (ps0 ! j) = n then ?X w j else 0)"
      if n: "n < length (nodes (ts ! 0))" for n
    proof -
      from n T(2) have "n < length (nodes T)" by simp
      with F have "adjoint (nodes T' ! n) = adjoint (nodes T ! n)
          + (\<Sum>j \<leftarrow> [0..<length ps0]. if nodeOf (ps0 ! j) = n then ?X (Suc k) j else 0)"
        by blast
      then show ?thesis using TA[OF n] True by (simp add: initialisedWorkers_Suc)
    qed
    show ?thesis unfolding step r
      using F T a by (intro exI[of _ T']) simp
  qed
qed

lemma length_visit: "length (visit k ns) = length ns"
proof -
  have "length (fold (accumulate k) ins ns) = length ns" for ins
    by (induction ins arbitrary: ns) (simp_all add: accumulate_simps(1))
  then show ?thesis by (simp add: visit_def)
qed

lemma length_sweep: "length (sweep lo hi ns) = length ns"
proof -
  have "length (fold visit ks ns) = length ns" for ks
    by (induction ks arbitrary: ns) (simp_all add: length_visit)
  then show ?thesis by (simp add: sweep_def)
qed

lemma tape_propagateMarkToStart_simps:
  "markAt (tape_propagateMarkToStart t) = markAt t"
  "length (nodes (tape_propagateMarkToStart t)) = length (nodes t)"
  by (simp_all add: tape_propagateMarkToStart_def length_sweep)

lemma mcParallelSimulAAD_tasksDone_wf:
  fixes P :: "('p, 'T) Product" and M :: "('m, 'T) Model" and R :: "'r RNG"
  assumes sched: "valid_schedule nThread (length (spawnLoop 0 nPath)) sched"
  shows "aad_wf P M R prd0 mdl0 rng0 nThread
           (mcParallelSimulAAD_tasksDone P M R N prd0 mdl0 rng0 nPath antithetic nThread sched)"
    and "t \<le> nThread \<Longrightarrow>
         init_thr (mcParallelSimulAAD_tasksDone P M R N prd0 mdl0 rng0 nPath antithetic nThread sched) ! t
           = (t = 0 \<or> t \<in> fst ` set sched)"
proof -
  define ts where "ts = scheduledTasks nPath sched"
  define s0 :: "('p, 'm, 'r, 'T) parallel_aad_state" where "s0 = \<lparr>prd = prd0, mdl = mdl0, rng = rng0,
                res = replicate nPath (Number_default N),
                cMdl_thr = replicate (nThread + 1) None,
                cRng_thr = replicate (nThread + 1) None,
                gaussVecs_thr = replicate (nThread + 1) [],
                paths_thr = replicate (nThread + 1) [],
                init_thr = replicate (nThread + 1) False,
                Number_tape = replicate (nThread + 1) 0,
                traces = replicate (nThread + 1) []\<rparr>"
  define s1 where "s1 = initThread P M R N 0 s0"
  define s2 where "s2 = fold (\<lambda>(th, fn). mcParallelSimulAAD_task P M R N antithetic th fn) ts s1"
  have dn: "mcParallelSimulAAD_tasksDone P M R N prd0 mdl0 rng0 nPath antithetic nThread sched = s2"
    unfolding s2_def s1_def s0_def ts_def scheduledTasks_def
    by (simp add: mcParallelSimulAAD_tasksDone_def Let_def fold_map comp_def case_prod_unfold)
  have s1: "init_thr s1 = (replicate (nThread + 1) False)[0 := True]"
    by (simp_all add: s1_def s0_def initThread_eq)
  have wf1: "aad_wf P M R prd0 mdl0 rng0 nThread s1"
    unfolding aad_wf_def
    by (auto simp: s1_def s0_def initThread_eq nth_list_update nth_Cons split: nat.splits)
  note V = scheduledTasks_valid[OF sched, folded ts_def]
  note T = mcParallelSimulAAD_tasks[OF wf1 V(1), where N=N and antithetic=antithetic, folded s2_def]
  note T1 = T[THEN conjunct1]
  note T4 = T[THEN conjunct2, THEN conjunct2, THEN conjunct2, THEN conjunct1, THEN spec, THEN mp]
  show "aad_wf P M R prd0 mdl0 rng0 nThread
           (mcParallelSimulAAD_tasksDone P M R N prd0 mdl0 rng0 nPath antithetic nThread sched)"
    unfolding dn by (rule T1)
  show "init_thr (mcParallelSimulAAD_tasksDone P M R N prd0 mdl0 rng0 nPath antithetic nThread sched) ! t
           = (t = 0 \<or> t \<in> fst ` set sched)" if "t \<le> nThread"
    unfolding dn using T4[OF that] that by (auto simp: s1 V(3) nth_list_update)
qed

lemma mcParallelSimulAAD_finish_tapes_effect:
  fixes P :: "('p, 'T) Product" and M :: "('m, 'T) Model" and R :: "'r RNG"
    and s :: "('p, 'm, 'r, 'T) parallel_aad_state"
  assumes wf: "aad_wf P M R prd0 mdl0 rng0 nThread s" and i0: "init_thr s ! 0"
    and lt: "length ts = nThread + 1"
  shows "length (snd (mcParallelSimulAAD_finish_tapes M nodeOf nThread (s, ts))) = length ts"
    and "1 \<le> w \<Longrightarrow> w \<le> nThread \<Longrightarrow>
         snd (mcParallelSimulAAD_finish_tapes M nodeOf nThread (s, ts)) ! w
         = (if init_thr s ! w then tape_propagateMarkToStart (ts ! w) else ts ! w)"
    and "markAt (snd (mcParallelSimulAAD_finish_tapes M nodeOf nThread (s, ts)) ! 0) = markAt (ts ! 0)"
    and "map inputs (nodes (snd (mcParallelSimulAAD_finish_tapes M nodeOf nThread (s, ts)) ! 0))
         = map inputs (nodes (tape_propagateMarkToStart (ts ! 0)))"
    and "n < length (nodes (ts ! 0)) \<Longrightarrow>
         adjoint (nodes (snd (mcParallelSimulAAD_finish_tapes M nodeOf nThread (s, ts)) ! 0) ! n)
         = adjoint (nodes (tape_propagateMarkToStart (ts ! 0)) ! n)
           + (\<Sum>w \<leftarrow> initialisedWorkers (init_thr s) nThread.
                \<Sum>j \<leftarrow> [0..<length (parameters M (setupModelAAD P M prd0 mdl0))].
                  if nodeOf (parameters M (setupModelAAD P M prd0 mdl0) ! j) = n
                  then adjoint (nodes (tape_propagateMarkToStart (ts ! w))
                                  ! nodeOf (parameters M (setupModelAAD P M prd0 mdl0) ! j))
                  else 0)"
proof -
  define ps where "ps = parameters M (setupModelAAD P M prd0 mdl0)"
  from wf have len: "length (Number_tape s) = nThread + 1" "length (traces s) = nThread + 1"
    and nt0: "Number_tape s ! 0 = 0"
    and cl: "\<And>t. t \<le> nThread \<Longrightarrow> init_thr s ! t
               \<Longrightarrow> cMdl_thr s ! t = Some (setupModelAAD P M prd0 mdl0)"
    unfolding aad_wf_def by simp_all
  define s1 where "s1 = call_on 0 (Tape_propagateMarkToStart 0) s"
  define ts1 where "ts1 = ts[0 := tape_propagateMarkToStart (ts ! 0)]"
  have p1: "Number_propagateMarkToStart (s, ts) = (s1, ts1)"
    by (simp add: Number_propagateMarkToStart_def Let_def nt0 s1_def ts1_def)
  have s1: "0 < length (Number_tape s1)" "0 < length (traces s1)" "init_thr s1 = init_thr s"
    "cMdl_thr s1 = cMdl_thr s" "Number_tape s1 ! 0 = 0"
    using len nt0 by (simp_all add: s1_def)
  have lt1: "length ts1 = nThread + 1" "nThread < length ts1" using lt by (simp_all add: ts1_def)
  obtain s2 ts2 where L2: "forLoop 0 nThread propagateWorker_tapes (s1, ts1) = (s2, ts2)"
    by (cases "forLoop 0 nThread propagateWorker_tapes (s1, ts1)")
  note PW = propagateWorker_tapes_loop[OF s1(1) s1(2) lt1(2), unfolded L2 snd_conv]
  have len2: "length ts2 = nThread + 1" using PW lt1 by simp
  have ts2: "ts2 ! v = (if 1 \<le> v \<and> v \<le> nThread \<and> init_thr s ! v
                        then tape_propagateMarkToStart (ts1 ! v) else ts1 ! v)" for v
    using PW by (simp add: s1(3))
  have "s2 = fst (forLoop 0 nThread propagateWorker_tapes (s1, ts1))" by (simp add: L2)
  also have "\<dots> = forLoop 0 nThread propagateWorker s1"
    using forLoop_fst[where f=propagateWorker_tapes and g=propagateWorker and x="(s1, ts1)",
        OF propagateWorker_tapes_fst]
    by simp
  finally have s2: "s2 = forLoop 0 nThread propagateWorker s1" .
  define s3 where "s3 = s2\<lparr>Number_tape := (Number_tape s2)[0 := 0]\<rparr>"
  have s3: "init_thr s3 = init_thr s" "cMdl_thr s3 = cMdl_thr s" "0 < length (traces s3)"
    unfolding s3_def s2 propagateWorker_loop[OF s1(1) s1(2)] using s1 by simp_all
  have ps0: "parameters M (the (cMdl_thr s3 ! 0)) = ps"
    unfolding s3(2) ps_def using cl[OF le0 i0] by simp
  have fin: "mcParallelSimulAAD_finish_tapes M nodeOf nThread (s, ts)
      = forLoop 0 nThread (accumulateWorker_tapes M nodeOf ps) (s3, ts2)"
    unfolding mcParallelSimulAAD_finish_tapes_def prod.case p1 Let_def L2
    by (simp add: s1(5) s3_def[symmetric] ps0)
  have lt2: "0 < length ts2" using len2 by simp
  from accumulateWorker_tapes_loop[OF lt2 s3(3), of nThread M nodeOf ps]
  obtain T where snd: "snd (forLoop 0 nThread (accumulateWorker_tapes M nodeOf ps) (s3, ts2)) = ts2[0 := T]"
    and T: "markAt T = markAt (ts2 ! 0)" "length (nodes T) = length (nodes (ts2 ! 0))"
      "map inputs (nodes T) = map inputs (nodes (ts2 ! 0))"
    and TA: "\<And>n. n < length (nodes (ts2 ! 0)) \<Longrightarrow> adjoint (nodes T ! n)
            = adjoint (nodes (ts2 ! 0) ! n)
              + (\<Sum>w \<leftarrow> initialisedWorkers (init_thr s3) nThread. \<Sum>j \<leftarrow> [0..<length ps].
                   if nodeOf (ps ! j) = n
                   then adjoint (nodes (ts2 ! w) ! nodeOf (parameters M (the (cMdl_thr s3 ! w)) ! j))
                   else 0)"
    by blast
  have t20: "ts2 ! 0 = tape_propagateMarkToStart (ts ! 0)"
    using lt by (simp add: ts2 ts1_def)
  have t2w: "ts2 ! v = (if init_thr s ! v then tape_propagateMarkToStart (ts ! v) else ts ! v)"
    if "1 \<le> v" "v \<le> nThread" for v
    using that by (simp add: ts2 ts1_def)
  show "length (snd (mcParallelSimulAAD_finish_tapes M nodeOf nThread (s, ts))) = length ts"
    unfolding fin snd using len2 lt by simp
  show "snd (mcParallelSimulAAD_finish_tapes M nodeOf nThread (s, ts)) ! w
         = (if init_thr s ! w then tape_propagateMarkToStart (ts ! w) else ts ! w)"
    if "1 \<le> w" "w \<le> nThread"
    unfolding fin snd using that t2w[OF that] by simp
  show "markAt (snd (mcParallelSimulAAD_finish_tapes M nodeOf nThread (s, ts)) ! 0) = markAt (ts ! 0)"
    unfolding fin snd using lt2 T(1) by (simp add: t20 tape_propagateMarkToStart_simps)
  show "map inputs (nodes (snd (mcParallelSimulAAD_finish_tapes M nodeOf nThread (s, ts)) ! 0))
         = map inputs (nodes (tape_propagateMarkToStart (ts ! 0)))"
    unfolding fin snd using lt2 T(3) by (simp add: t20)
  show "adjoint (nodes (snd (mcParallelSimulAAD_finish_tapes M nodeOf nThread (s, ts)) ! 0) ! n)
         = adjoint (nodes (tape_propagateMarkToStart (ts ! 0)) ! n)
           + (\<Sum>w \<leftarrow> initialisedWorkers (init_thr s) nThread.
                \<Sum>j \<leftarrow> [0..<length (parameters M (setupModelAAD P M prd0 mdl0))].
                  if nodeOf (parameters M (setupModelAAD P M prd0 mdl0) ! j) = n
                  then adjoint (nodes (tape_propagateMarkToStart (ts ! w))
                                  ! nodeOf (parameters M (setupModelAAD P M prd0 mdl0) ! j))
                  else 0)"
    if n: "n < length (nodes (ts ! 0))"
  proof -
    from n have n2: "n < length (nodes (ts2 ! 0))"
      by (simp add: t20 tape_propagateMarkToStart_simps)
    have inner: "(\<Sum>j \<leftarrow> [0..<length ps].
                   if nodeOf (ps ! j) = n
                   then adjoint (nodes (ts2 ! v) ! nodeOf (parameters M (the (cMdl_thr s3 ! v)) ! j))
                   else 0)
              = (\<Sum>j \<leftarrow> [0..<length ps].
                   if nodeOf (ps ! j) = n
                   then adjoint (nodes (tape_propagateMarkToStart (ts ! v)) ! nodeOf (ps ! j))
                   else 0)"
      if v: "v \<in> set (initialisedWorkers (init_thr s) nThread)" for v
    proof -
      from v have v1: "1 \<le> v" "v \<le> nThread" "init_thr s ! v"
        by (auto simp: initialisedWorkers_def)
      from cl[OF v1(2) v1(3)] have e1: "parameters M (the (cMdl_thr s3 ! v)) = ps"
        by (simp add: s3(2) ps_def)
      from t2w[OF v1(1) v1(2)] v1(3) have e2: "ts2 ! v = tape_propagateMarkToStart (ts ! v)"
        by simp
      show ?thesis unfolding e1 e2 by (rule refl)
    qed
    have "adjoint (nodes (ts2[0 := T] ! 0) ! n) = adjoint (nodes T ! n)" using lt2 by simp
    also have "\<dots> = adjoint (nodes (ts2 ! 0) ! n)
              + (\<Sum>w \<leftarrow> initialisedWorkers (init_thr s) nThread. \<Sum>j \<leftarrow> [0..<length ps].
                   if nodeOf (ps ! j) = n
                   then adjoint (nodes (ts2 ! w) ! nodeOf (parameters M (the (cMdl_thr s3 ! w)) ! j))
                   else 0)"
      using TA[OF n2] by (simp only: s3(1))
    also have "\<dots> = adjoint (nodes (tape_propagateMarkToStart (ts ! 0)) ! n)
              + (\<Sum>w \<leftarrow> initialisedWorkers (init_thr s) nThread. \<Sum>j \<leftarrow> [0..<length ps].
                   if nodeOf (ps ! j) = n
                   then adjoint (nodes (tape_propagateMarkToStart (ts ! w)) ! nodeOf (ps ! j))
                   else 0)"
      unfolding t20
      by (intro arg_cong2[where f="(+)"] refl arg_cong[where f=sum_list] map_cong inner)
    finally have final: "adjoint (nodes (ts2[0 := T] ! 0) ! n)
          = adjoint (nodes (tape_propagateMarkToStart (ts ! 0)) ! n)
              + (\<Sum>w \<leftarrow> initialisedWorkers (init_thr s) nThread. \<Sum>j \<leftarrow> [0..<length ps].
                   if nodeOf (ps ! j) = n
                   then adjoint (nodes (tape_propagateMarkToStart (ts ! w)) ! nodeOf (ps ! j))
                   else 0)" .
    show ?thesis unfolding fin snd using final unfolding ps_def .
  qed
qed

lemma exampleTape_propagateMarkToStart:
  "tape_propagateMarkToStart (exampleTape x)
     = \<lparr>nodes = [\<lparr>adjoint = 2 * x, inputs = []\<rparr>, \<lparr>adjoint = x, inputs = [(0, 2)]\<rparr>], markAt = 2\<rparr>"
proof -
  have u: "rev [0..<2] = [1, 0]" by (simp add: upt_rec)
  show ?thesis
    by (simp add: tape_propagateMarkToStart_def exampleTape_def sweep_def u visit_def
        accumulate_def)
qed

section \<open>The calls and the adjoints after the tasks\<close>

lemma mcParallelSimulAAD_finish_calls:
  fixes P :: "('p, 'T) Product" and M :: "('m, 'T) Model" and R :: "'r RNG"
  assumes v: "valid_schedule nThread (length (spawnLoop 0 nPath)) sched"
  shows "traces (mcParallelSimulAAD_exec P M R N prd0 mdl0 rng0 nPath antithetic nThread sched) ! 0
       = setupEvents 0
         @ concat (map (\<lambda>(th, task). taskEvents antithetic 0 task)
             (filter (\<lambda>(th, task). th = 0) (scheduledTasks nPath sched)))
         @ Tape_propagateMarkToStart 0
         # map Tape_propagateMarkToStart (filter (\<lambda>w. w \<in> fst ` set sched) [1..<nThread + 1])
         @ concat (map (\<lambda>w. map (Adjoint_add w)
                               [0..<length (parameters M (setupModelAAD P M prd0 mdl0))])
             (filter (\<lambda>w. w \<in> fst ` set sched) [1..<nThread + 1]))
     \<and> filter finishCall
         (traces (mcParallelSimulAAD_exec P M R N prd0 mdl0 rng0 nPath antithetic nThread sched) ! 0)
       = Tape_propagateMarkToStart 0
         # map Tape_propagateMarkToStart (filter (\<lambda>w. w \<in> fst ` set sched) [1..<nThread + 1])
         @ concat (map (\<lambda>w. map (Adjoint_add w)
                               [0..<length (parameters M (setupModelAAD P M prd0 mdl0))])
             (filter (\<lambda>w. w \<in> fst ` set sched) [1..<nThread + 1]))
     \<and> (0 < w \<and> w \<le> nThread \<longrightarrow>
          filter finishCall
            (traces (mcParallelSimulAAD_exec P M R N prd0 mdl0 rng0 nPath antithetic nThread sched) ! w)
          = []
        \<and> init_thr (mcParallelSimulAAD_exec P M R N prd0 mdl0 rng0 nPath antithetic nThread sched) ! w
          = (w \<in> fst ` set sched)
        \<and> (w \<in> fst ` set sched \<longrightarrow>
             cMdl_thr (mcParallelSimulAAD_exec P M R N prd0 mdl0 rng0 nPath antithetic nThread sched) ! w
             = Some (setupModelAAD P M prd0 mdl0)))
     \<and> Number_tape (mcParallelSimulAAD_exec P M R N prd0 mdl0 rng0 nPath antithetic nThread sched) ! 0
       = 0
     \<and> cMdl_thr (mcParallelSimulAAD_exec P M R N prd0 mdl0 rng0 nPath antithetic nThread sched) ! 0
       = Some (setupModelAAD P M prd0 mdl0)
     \<and> snd (mcParallelSimulAAD P M R N prd0 mdl0 rng0 nPath antithetic nThread sched)
       = init_Model M (timeline P prd0) (putOnTape M (clone_Model M mdl0))"
proof -
  let ?s = "mcParallelSimulAAD_exec P M R N prd0 mdl0 rng0 nPath antithetic nThread sched"
  let ?ws = "filter (\<lambda>w. w \<in> fst ` set sched) [1..<nThread + 1]"
  let ?n = "length (parameters M (setupModelAAD P M prd0 mdl0))"
  note tr = mcParallelSimulAAD_exec_traces[OF v, where P=P and M=M and R=R and N=N
      and ?prd0.0=prd0 and ?mdl0.0=mdl0 and ?rng0.0=rng0 and antithetic=antithetic]
  note wf = mcParallelSimulAAD_exec_eq(2)[OF v, where P=P and M=M and R=R and N=N
      and ?prd0.0=prd0 and ?mdl0.0=mdl0 and ?rng0.0=rng0 and antithetic=antithetic]
  note ini = mcParallelSimulAAD_exec_eq(3)[OF v, where P=P and M=M and R=R and N=N
      and ?prd0.0=prd0 and ?mdl0.0=mdl0 and ?rng0.0=rng0 and antithetic=antithetic]
  have fin: "finishEvents ?ws ?n
       = Tape_propagateMarkToStart 0 # map Tape_propagateMarkToStart ?ws
         @ concat (map (\<lambda>w. map (Adjoint_add w) [0..<?n]) ?ws)"
    by (simp only: finishEvents_def)
  have cl: "\<forall>t \<le> nThread. init_thr ?s ! t \<longrightarrow>
              cMdl_thr ?s ! t = Some (setupModelAAD P M prd0 mdl0)
            \<and> cRng_thr ?s ! t = Some (setupRngAAD P M R prd0 mdl0 rng0)"
    using wf unfolding aad_wf_def by (elim conjE)
  have nt: "Number_tape ?s ! 0 = 0"
    using wf unfolding aad_wf_def by (elim conjE)
  have t0: "traces ?s ! 0
       = setupEvents 0
         @ concat (map (\<lambda>(th, task). taskEvents antithetic 0 task)
             (filter (\<lambda>(th, task). th = 0) (scheduledTasks nPath sched)))
         @ finishEvents ?ws ?n"
    using tr[OF le0] by (simp only: simp_thms if_True)
  have c1: "traces ?s ! 0
       = setupEvents 0
         @ concat (map (\<lambda>(th, task). taskEvents antithetic 0 task)
             (filter (\<lambda>(th, task). th = 0) (scheduledTasks nPath sched)))
         @ Tape_propagateMarkToStart 0 # map Tape_propagateMarkToStart ?ws
         @ concat (map (\<lambda>w. map (Adjoint_add w) [0..<?n]) ?ws)"
    unfolding t0 fin by (rule refl)
  have c2: "filter finishCall (traces ?s ! 0)
       = Tape_propagateMarkToStart 0 # map Tape_propagateMarkToStart ?ws
         @ concat (map (\<lambda>w. map (Adjoint_add w) [0..<?n]) ?ws)"
  proof -
    have "filter finishCall (traces ?s ! 0) = finishEvents ?ws ?n"
      unfolding t0
      by (simp only: filter_append finishCall_setupEvents finishCall_tasks
          finishCall_finishEvents append_Nil)
    then show ?thesis by (simp only: fin)
  qed
  have c3: "filter finishCall (traces ?s ! w) = []
        \<and> init_thr ?s ! w = (w \<in> fst ` set sched)
        \<and> (w \<in> fst ` set sched \<longrightarrow> cMdl_thr ?s ! w = Some (setupModelAAD P M prd0 mdl0))"
    if h: "0 < w \<and> w \<le> nThread"
  proof -
    from h have w: "0 < w" "w \<le> nThread" by simp_all
    have a: "filter finishCall (traces ?s ! w) = []"
      using tr[OF w(2)] w(1) by (simp add: finishCall_setupEvents finishCall_tasks)
    have b: "init_thr ?s ! w = (w \<in> fst ` set sched)"
      using ini[OF w(2)] w(1) by simp
    have c: "cMdl_thr ?s ! w = Some (setupModelAAD P M prd0 mdl0)" if "w \<in> fst ` set sched"
      using cl w(2) b that by simp
    from a b c show ?thesis by simp
  qed
  have c5: "cMdl_thr ?s ! 0 = Some (setupModelAAD P M prd0 mdl0)"
    using cl ini[of 0] by simp
  have c6: "snd (mcParallelSimulAAD P M R N prd0 mdl0 rng0 nPath antithetic nThread sched)
       = init_Model M (timeline P prd0) (putOnTape M (clone_Model M mdl0))"
    by (simp add: mcParallelSimulAAD_def Let_def c5 setupModelAAD_def)
  show ?thesis
    by (intro conjI impI c1 c2 c3[THEN conjunct1] c3[THEN conjunct2, THEN conjunct1]
        c3[THEN conjunct2, THEN conjunct2, THEN mp] nt c5 c6) simp_all
qed

lemma mcParallelSimulAAD_finish_adjoints:
  fixes P :: "('p, 'T) Product" and M :: "('m, 'T) Model" and R :: "'r RNG"
  assumes v: "valid_schedule nThread (length (spawnLoop 0 nPath)) sched"
    and lt: "length ts = nThread + 1"
  shows "fst (mcParallelSimulAAD_exec_tapes P M R N nodeOf prd0 mdl0 rng0 nPath antithetic nThread
                sched ts)
       = mcParallelSimulAAD_exec P M R N prd0 mdl0 rng0 nPath antithetic nThread sched
     \<and> length (snd (mcParallelSimulAAD_exec_tapes P M R N nodeOf prd0 mdl0 rng0 nPath antithetic
                      nThread sched ts)) = nThread + 1
     \<and> (0 < w \<and> w \<le> nThread \<longrightarrow>
          snd (mcParallelSimulAAD_exec_tapes P M R N nodeOf prd0 mdl0 rng0 nPath antithetic nThread
                 sched ts) ! w
          = (if w \<in> fst ` set sched then tape_propagateMarkToStart (ts ! w) else ts ! w))
     \<and> markAt (snd (mcParallelSimulAAD_exec_tapes P M R N nodeOf prd0 mdl0 rng0 nPath antithetic
                      nThread sched ts) ! 0) = markAt (ts ! 0)
     \<and> map inputs (nodes (snd (mcParallelSimulAAD_exec_tapes P M R N nodeOf prd0 mdl0 rng0 nPath
                                 antithetic nThread sched ts) ! 0))
       = map inputs (nodes (tape_propagateMarkToStart (ts ! 0)))
     \<and> (n < length (nodes (ts ! 0)) \<longrightarrow>
          adjoint (nodes (snd (mcParallelSimulAAD_exec_tapes P M R N nodeOf prd0 mdl0 rng0 nPath
                                 antithetic nThread sched ts) ! 0) ! n)
          = adjoint (nodes (tape_propagateMarkToStart (ts ! 0)) ! n)
            + (\<Sum>w \<leftarrow> filter (\<lambda>w. w \<in> fst ` set sched) [1..<nThread + 1].
                 \<Sum>j \<leftarrow> [0..<length (parameters M (setupModelAAD P M prd0 mdl0))].
                   if nodeOf (parameters M (setupModelAAD P M prd0 mdl0) ! j) = n
                   then adjoint (nodes (tape_propagateMarkToStart (ts ! w))
                                   ! nodeOf (parameters M (setupModelAAD P M prd0 mdl0) ! j))
                   else 0))"
proof -
  let ?s2 = "mcParallelSimulAAD_tasksDone P M R N prd0 mdl0 rng0 nPath antithetic nThread sched"
  note wf = mcParallelSimulAAD_tasksDone_wf(1)[OF v, where P=P and M=M and R=R and N=N
      and ?prd0.0=prd0 and ?mdl0.0=mdl0 and ?rng0.0=rng0 and antithetic=antithetic]
  note ini = mcParallelSimulAAD_tasksDone_wf(2)[OF v, where P=P and M=M and R=R and N=N
      and ?prd0.0=prd0 and ?mdl0.0=mdl0 and ?rng0.0=rng0 and antithetic=antithetic]
  have i0: "init_thr ?s2 ! 0" using ini[of 0] by simp
  note E = mcParallelSimulAAD_finish_tapes_effect[OF wf i0 lt, where nodeOf=nodeOf,
      folded mcParallelSimulAAD_exec_tapes_def]
  have ws: "initialisedWorkers (init_thr ?s2) nThread
            = filter (\<lambda>w. w \<in> fst ` set sched) [1..<nThread + 1]"
    unfolding initialisedWorkers_def
  proof (rule filter_cong[OF refl])
    fix x assume "x \<in> set [1..<nThread + 1]"
    then have x: "0 < x" "x \<le> nThread" by auto
    from ini[OF x(2)] x(1) show "init_thr ?s2 ! x = (x \<in> fst ` set sched)" by simp
  qed
  have c1: "fst (mcParallelSimulAAD_exec_tapes P M R N nodeOf prd0 mdl0 rng0 nPath antithetic nThread
                sched ts)
       = mcParallelSimulAAD_exec P M R N prd0 mdl0 rng0 nPath antithetic nThread sched"
    by (simp add: mcParallelSimulAAD_exec_tapes_def mcParallelSimulAAD_finish_tapes_fst
        mcParallelSimulAAD_exec_tasksDone)
  have c2: "length (snd (mcParallelSimulAAD_exec_tapes P M R N nodeOf prd0 mdl0 rng0 nPath antithetic
                      nThread sched ts)) = nThread + 1"
    using E(1) lt by simp
  have c3: "snd (mcParallelSimulAAD_exec_tapes P M R N nodeOf prd0 mdl0 rng0 nPath antithetic nThread
                 sched ts) ! w
          = (if w \<in> fst ` set sched then tape_propagateMarkToStart (ts ! w) else ts ! w)"
    if "0 < w \<and> w \<le> nThread"
  proof -
    from that have w: "1 \<le> w" "w \<le> nThread" by simp_all
    from ini[OF w(2)] w(1) have "init_thr ?s2 ! w = (w \<in> fst ` set sched)" by simp
    with E(2)[OF w] show ?thesis by simp
  qed
  note c4 = E(3)
  note c5 = E(4)
  note c6 = E(5)[unfolded ws]
  show ?thesis
    by (intro conjI impI c1 c2 c3 c4 c5 c6) simp_all
qed

section \<open>Only clones are written\<close>

lemma onlyClonesWritten_atCall: "onlyClonesWritten (atCall h) (atCall h)"
  by (simp add: onlyClonesWritten_def atCall_def)

lemma Model_clone_at_frame:
  assumes "onlyClonesWritten h0 h"
  shows "onlyClonesWritten h0 (snd (Model_clone_at M a h))"
  using assms by (auto simp add: onlyClonesWritten_def Model_clone_at_def)

lemma Model_clone_at_simps:
  "fst (Model_clone_at M a h) = length (models h)"
  "clonedModels (snd (Model_clone_at M a h)) = clonedModels h @ [length (models h)]"
  "clonedRngs (snd (Model_clone_at M a h)) = clonedRngs h"
  "onTape (snd (Model_clone_at M a h)) = onTape h"
  by (simp_all add: Model_clone_at_def)

lemma RNG_clone_at_frame:
  assumes "onlyClonesWritten h0 h"
  shows "onlyClonesWritten h0 (snd (RNG_clone_at R a h))"
  using assms by (auto simp add: onlyClonesWritten_def RNG_clone_at_def)

lemma RNG_clone_at_simps:
  "fst (RNG_clone_at R a h) = length (rngs h)"
  "clonedModels (snd (RNG_clone_at R a h)) = clonedModels h"
  "clonedRngs (snd (RNG_clone_at R a h)) = clonedRngs h @ [length (rngs h)]"
  "onTape (snd (RNG_clone_at R a h)) = onTape h"
  by (simp_all add: RNG_clone_at_def)

lemma Model_init_at_frame:
  assumes "onlyClonesWritten h0 h" and "a \<in> set (clonedModels h)"
  shows "onlyClonesWritten h0 (Model_init_at M tline a h)"
  using assms by (auto simp add: onlyClonesWritten_def Model_init_at_def)

lemma Model_init_at_simps:
  "clonedModels (Model_init_at M tline a h) = clonedModels h"
  "clonedRngs (Model_init_at M tline a h) = clonedRngs h"
  "onTape (Model_init_at M tline a h) = onTape h"
  by (simp_all add: Model_init_at_def)

lemma Model_putOnTape_at_frame:
  assumes "onlyClonesWritten h0 h" and "a \<in> set (clonedModels h)"
  shows "onlyClonesWritten h0 (Model_putOnTape_at M tp a h)"
  using assms by (auto simp add: onlyClonesWritten_def Model_putOnTape_at_def)

lemma Model_putOnTape_at_simps:
  "clonedModels (Model_putOnTape_at M tp a h) = clonedModels h"
  "clonedRngs (Model_putOnTape_at M tp a h) = clonedRngs h"
  "onTape (Model_putOnTape_at M tp a h) = (onTape h)(tp := onTape h tp @ [a])"
  by (simp_all add: Model_putOnTape_at_def)

lemma Tape_rewind_at_frame:
  assumes "onlyClonesWritten h0 h"
  shows "onlyClonesWritten h0 (Tape_rewind_at tp h)"
  using assms by (auto simp add: onlyClonesWritten_def Tape_rewind_at_def)

lemma Tape_rewind_at_simps:
  "clonedModels (Tape_rewind_at tp h) = clonedModels h"
  "clonedRngs (Tape_rewind_at tp h) = clonedRngs h"
  "onTape (Tape_rewind_at tp h) = (onTape h)(tp := [])"
  by (simp_all add: Tape_rewind_at_def)

lemma RNG_init_at_frame:
  assumes "onlyClonesWritten h0 h" and "a \<in> set (clonedRngs h)"
  shows "onlyClonesWritten h0 (RNG_init_at R d a h)"
  using assms by (auto simp add: onlyClonesWritten_def RNG_init_at_def)

lemma RNG_init_at_simps:
  "clonedModels (RNG_init_at R d a h) = clonedModels h"
  "clonedRngs (RNG_init_at R d a h) = clonedRngs h"
  "onTape (RNG_init_at R d a h) = onTape h"
  by (simp_all add: RNG_init_at_def)

lemma RNG_skipTo_at_frame:
  assumes "onlyClonesWritten h0 h" and "a \<in> set (clonedRngs h)"
  shows "onlyClonesWritten h0 (RNG_skipTo_at R b a h)"
  using assms by (auto simp add: onlyClonesWritten_def RNG_skipTo_at_def)

lemma RNG_skipTo_at_simps:
  "clonedModels (RNG_skipTo_at R b a h) = clonedModels h"
  "clonedRngs (RNG_skipTo_at R b a h) = clonedRngs h"
  "onTape (RNG_skipTo_at R b a h) = onTape h"
  by (simp_all add: RNG_skipTo_at_def)

lemma RNG_nextG_at_frame:
  assumes "onlyClonesWritten h0 h" and "a \<in> set (clonedRngs h)"
  shows "onlyClonesWritten h0 (snd (RNG_nextG_at R a h))"
  using assms by (auto simp add: onlyClonesWritten_def RNG_nextG_at_def)

lemma RNG_nextG_at_simps:
  "clonedModels (snd (RNG_nextG_at R a h)) = clonedModels h"
  "clonedRngs (snd (RNG_nextG_at R a h)) = clonedRngs h"
  "onTape (snd (RNG_nextG_at R a h)) = onTape h"
  by (simp_all add: RNG_nextG_at_def)

lemma Tape_propagate_at_frame:
  assumes "onlyClonesWritten h0 h" and "set (onTape h tp) \<subseteq> set (clonedModels h)"
  shows "onlyClonesWritten h0 (Tape_propagate_at tp h)"
  using assms by (auto simp add: onlyClonesWritten_def Tape_propagate_at_def)

lemma Tape_propagate_at_simps:
  "clonedModels (Tape_propagate_at tp h) = clonedModels h"
  "clonedRngs (Tape_propagate_at tp h) = clonedRngs h"
  "onTape (Tape_propagate_at tp h) = onTape h"
  by (simp_all add: Tape_propagate_at_def)

lemma Adjoint_add_at_frame:
  assumes "onlyClonesWritten h0 h" and "a \<in> set (clonedModels h)"
  shows "onlyClonesWritten h0 (Adjoint_add_at a h)"
  using assms by (auto simp add: onlyClonesWritten_def Adjoint_add_at_def)

lemma Adjoint_add_at_simps:
  "clonedModels (Adjoint_add_at a h) = clonedModels h"
  "clonedRngs (Adjoint_add_at a h) = clonedRngs h"
  "onTape (Adjoint_add_at a h) = onTape h"
  by (simp_all add: Adjoint_add_at_def)

lemma antitheticStep_at_frame:
  assumes "onlyClonesWritten h0 h" and "a \<in> set (clonedRngs h)"
  shows "onlyClonesWritten h0 (fst (antitheticStep_at R antithetic a (h, g, ap)))"
  using RNG_nextG_at_frame[OF assms, of R] assms(1)
  by (simp add: antitheticStep_at_def case_prod_beta)

lemma antitheticStep_at_simps:
  "clonedModels (fst (antitheticStep_at R antithetic a (h, g, ap))) = clonedModels h"
  "clonedRngs (fst (antitheticStep_at R antithetic a (h, g, ap))) = clonedRngs h"
  "onTape (fst (antitheticStep_at R antithetic a (h, g, ap))) = onTape h"
  using RNG_nextG_at_simps[of R a h]
  by (simp_all add: antitheticStep_at_def case_prod_beta)

lemma mcSimul_heap_body_hp:
  "hp (mcSimul_heap_body P M R antithetic prdRef i s)
     = fst (antitheticStep_at R antithetic (cRng_s s) (hp s, gaussVec_s s, antiPath_s s))"
  "cMdl_s (mcSimul_heap_body P M R antithetic prdRef i s) = cMdl_s s"
  "cRng_s (mcSimul_heap_body P M R antithetic prdRef i s) = cRng_s s"
  by (simp_all add: mcSimul_heap_body_def case_prod_beta Let_def)

lemma mcSimul_heap_body_inv:
  assumes "clonesOnly h0 s"
  shows "clonesOnly h0 (mcSimul_heap_body P M R antithetic prdRef i s)"
  using assms antitheticStep_at_frame[of h0 "hp s" "cRng_s s" R antithetic "gaussVec_s s" "antiPath_s s"]
  by (simp add: clonesOnly_def mcSimul_heap_body_hp antitheticStep_at_simps)

lemma mcSimul_heap_body_onTape:
  "onTape (hp (mcSimul_heap_body P M R antithetic prdRef i s)) = onTape (hp s)"
  "clonedModels (hp (mcSimul_heap_body P M R antithetic prdRef i s)) = clonedModels (hp s)"
  by (simp_all add: mcSimul_heap_body_hp antitheticStep_at_simps)

lemma mcSimul_heap_frame:
  "clonesOnly (atCall h) (mcSimul_heap P M R prdRef mdlRef rngRef nPath antithetic (atCall h))"
proof -
  let ?h0 = "atCall h"
  obtain c1 h1 where e1: "Model_clone_at M mdlRef ?h0 = (c1, h1)" by (cases "Model_clone_at M mdlRef ?h0")
  obtain c2 h2 where e2: "RNG_clone_at R rngRef h1 = (c2, h2)" by (cases "RNG_clone_at R rngRef h1")
  have f1: "onlyClonesWritten ?h0 h1" and m1: "c1 \<in> set (clonedModels h1)"
    using Model_clone_at_frame[where h="?h0" and ?h0.0="?h0" and M=M and a=mdlRef, OF onlyClonesWritten_atCall]
      Model_clone_at_simps[of M mdlRef ?h0] e1
    by simp_all
  have f2: "onlyClonesWritten ?h0 h2" and m2: "c1 \<in> set (clonedModels h2)" and r2: "c2 \<in> set (clonedRngs h2)"
    using RNG_clone_at_frame[where R=R and a=rngRef, OF f1] RNG_clone_at_simps[of R rngRef h1] e2 m1
    by simp_all
  define h3 where "h3 = Model_init_at M (timeline P (products h2 ! prdRef)) c1 h2"
  have f3: "onlyClonesWritten ?h0 h3" and m3: "c1 \<in> set (clonedModels h3)" and r3: "c2 \<in> set (clonedRngs h3)"
    using Model_init_at_frame[OF f2 m2] m2 r2 by (simp_all add: h3_def Model_init_at_simps)
  define h4 where "h4 = RNG_init_at R (simDim_Model M (models h3 ! c1)) c2 h3"
  have f4: "onlyClonesWritten ?h0 h4" and m4: "c1 \<in> set (clonedModels h4)" and r4: "c2 \<in> set (clonedRngs h4)"
    using RNG_init_at_frame[OF f3 r3] m3 r3 by (simp_all add: h4_def RNG_init_at_simps)
  have "clonesOnly ?h0 (forLoop 0 nPath (mcSimul_heap_body P M R antithetic prdRef)
           \<lparr>hp = h4, res_s = replicate nPath 0, cMdl_s = c1, cRng_s = c2,
            gaussVec_s = replicate (simDim_Model M (models h4 ! c1)) 0,
            path_s = replicate (length (timeline P (products h4 ! prdRef))) \<lparr>spot = 0\<rparr>,
            antiPath_s = False\<rparr>)"
    by (rule forLoop_invariant[where I="clonesOnly ?h0"])
       (simp_all add: mcSimul_heap_body_inv, simp add: clonesOnly_def f4 m4 r4)
  then show ?thesis
    by (simp add: mcSimul_heap_def e1 e2 Let_def h3_def h4_def)
qed

lemma mcSimulAAD_heap_body_inv:
  assumes "clonesOnlyTape h0 s"
  shows "clonesOnlyTape h0 (mcSimulAAD_heap_body P M R antithetic prdRef i s)"
proof -
  let ?s1 = "mcSimul_heap_body P M R antithetic prdRef i s"
  from assms have a: "clonesOnly h0 ?s1"
    unfolding clonesOnlyTape_def by (simp add: mcSimul_heap_body_inv)
  from assms have b: "set (onTape (hp ?s1) 0) \<subseteq> set (clonedModels (hp ?s1))"
    unfolding clonesOnlyTape_def by (simp add: mcSimul_heap_body_onTape)
  from a b Tape_propagate_at_frame[of h0 "hp ?s1" 0] show ?thesis
    by (simp add: clonesOnlyTape_def clonesOnly_def mcSimulAAD_heap_body_def Let_def
        Tape_propagate_at_simps)
qed

lemma mcSimulAAD_heap_frame:
  "clonesOnlyTape (atCall h)
     (mcSimulAAD_heap P M R N prdRef mdlRef rngRef nPath antithetic (atCall h))"
proof -
  let ?h0 = "atCall h"
  obtain c1 h1 where e1: "Model_clone_at M mdlRef ?h0 = (c1, h1)" by (cases "Model_clone_at M mdlRef ?h0")
  obtain c2 h2 where e2: "RNG_clone_at R rngRef h1 = (c2, h2)" by (cases "RNG_clone_at R rngRef h1")
  have f1: "onlyClonesWritten ?h0 h1" and m1: "c1 \<in> set (clonedModels h1)"
    using Model_clone_at_frame[where h="?h0" and ?h0.0="?h0" and M=M and a=mdlRef, OF onlyClonesWritten_atCall]
      Model_clone_at_simps[of M mdlRef ?h0] e1
    by simp_all
  have f2: "onlyClonesWritten ?h0 h2" and m2: "c1 \<in> set (clonedModels h2)" and r2: "c2 \<in> set (clonedRngs h2)"
    using RNG_clone_at_frame[where R=R and a=rngRef, OF f1] RNG_clone_at_simps[of R rngRef h1] e2 m1
    by simp_all
  define h3 where "h3 = Tape_rewind_at 0 h2"
  have f3: "onlyClonesWritten ?h0 h3" and m3: "c1 \<in> set (clonedModels h3)" and r3: "c2 \<in> set (clonedRngs h3)"
    and t3: "onTape h3 0 = []"
    using Tape_rewind_at_frame[OF f2] m2 r2 by (simp_all add: h3_def Tape_rewind_at_simps)
  define h4 where "h4 = Model_putOnTape_at M 0 c1 h3"
  have f4: "onlyClonesWritten ?h0 h4" and m4: "c1 \<in> set (clonedModels h4)" and r4: "c2 \<in> set (clonedRngs h4)"
    and t4: "onTape h4 0 = [c1]"
    using Model_putOnTape_at_frame[OF f3 m3] m3 r3 t3
    by (simp_all add: h4_def Model_putOnTape_at_simps)
  define h5 where "h5 = Model_init_at M (timeline P (products h4 ! prdRef)) c1 h4"
  have f5: "onlyClonesWritten ?h0 h5" and m5: "c1 \<in> set (clonedModels h5)" and r5: "c2 \<in> set (clonedRngs h5)"
    and t5: "onTape h5 0 = [c1]"
    using Model_init_at_frame[OF f4 m4] m4 r4 t4 by (simp_all add: h5_def Model_init_at_simps)
  define h6 where "h6 = RNG_init_at R (simDim_Model M (models h5 ! c1)) c2 h5"
  have f6: "onlyClonesWritten ?h0 h6" and m6: "c1 \<in> set (clonedModels h6)" and r6: "c2 \<in> set (clonedRngs h6)"
    and t6: "onTape h6 0 = [c1]"
    using RNG_init_at_frame[OF f5 r5] m5 r5 t5 by (simp_all add: h6_def RNG_init_at_simps)
  define sL where "sL = forLoop 0 nPath (mcSimulAAD_heap_body P M R antithetic prdRef)
           \<lparr>hp = h6, res_s = replicate nPath (Number_default N), cMdl_s = c1, cRng_s = c2,
            gaussVec_s = replicate (simDim_Model M (models h6 ! c1)) 0,
            path_s = replicate (length (timeline P (products h6 ! prdRef)))
                       \<lparr>spot = Number_default N\<rparr>,
            antiPath_s = False\<rparr>"
  have L: "clonesOnlyTape ?h0 sL"
    unfolding sL_def
    by (rule forLoop_invariant[where I="clonesOnlyTape ?h0"])
       (simp_all add: mcSimulAAD_heap_body_inv,
        simp add: clonesOnlyTape_def clonesOnly_def f6 m6 r6 t6)
  then have "clonesOnlyTape ?h0 (sL\<lparr>hp := Tape_propagate_at 0 (hp sL)\<rparr>)"
    using Tape_propagate_at_frame[of ?h0 "hp sL" 0]
    by (simp add: clonesOnlyTape_def clonesOnly_def Tape_propagate_at_simps)
  then show ?thesis
    by (simp add: mcSimulAAD_heap_def e1 e2 Let_def h3_def h4_def h5_def h6_def sL_def)
qed

lemma mcParallelSimul_heap_body_hp:
  "hp (snd (mcParallelSimul_heap_body P M R antithetic prdRef th f i (t, s)))
     = fst (antitheticStep_at R antithetic (taskRng_s t)
              (hp s, gaussVecs_s s ! th, antiPath_task_s t))"
  "cMdl_s (snd (mcParallelSimul_heap_body P M R antithetic prdRef th f i (t, s))) = cMdl_s s"
  "cRng_s (snd (mcParallelSimul_heap_body P M R antithetic prdRef th f i (t, s))) = cRng_s s"
  "taskRng_s (fst (mcParallelSimul_heap_body P M R antithetic prdRef th f i (t, s))) = taskRng_s t"
  by (simp_all add: mcParallelSimul_heap_body_def case_prod_beta Let_def)

lemma mcParallelSimul_heap_body_inv:
  assumes "taskClonesOnly h0 x"
  shows "taskClonesOnly h0 (mcParallelSimul_heap_body P M R antithetic prdRef th f i x)"
proof -
  obtain t s where x: "x = (t, s)" by (cases x)
  from assms have a: "onlyClonesWritten h0 (hp s)" "cMdl_s s \<in> set (clonedModels (hp s))"
    "cRng_s s \<in> set (clonedRngs (hp s))" "taskRng_s t \<in> set (clonedRngs (hp s))"
    by (simp_all add: x taskClonesOnly_def clonesOnly_def)
  obtain t' s' where y: "mcParallelSimul_heap_body P M R antithetic prdRef th f i (t, s) = (t', s')"
    by (cases "mcParallelSimul_heap_body P M R antithetic prdRef th f i (t, s)")
  note b = mcParallelSimul_heap_body_hp[of P M R antithetic prdRef th f i t s, unfolded y fst_conv snd_conv]
  show ?thesis
    using a antitheticStep_at_frame[OF a(1) a(4), of R antithetic "gaussVecs_s s ! th" "antiPath_task_s t"]
    by (simp add: x y taskClonesOnly_def clonesOnly_def b antitheticStep_at_simps)
qed

lemma mcParallelSimul_heap_task_inv:
  assumes "clonesOnly h0 s"
  shows "clonesOnly h0 (mcParallelSimul_heap_task P M R antithetic prdRef th fn s)"
proof -
  obtain f n where fn: "fn = (f, n)" by (cases fn)
  from assms have a: "onlyClonesWritten h0 (hp s)" "cMdl_s s \<in> set (clonedModels (hp s))"
    "cRng_s s \<in> set (clonedRngs (hp s))"
    by (simp_all add: clonesOnly_def)
  obtain c h1 where e: "RNG_clone_at R (cRng_s s) (hp s) = (c, h1)"
    by (cases "RNG_clone_at R (cRng_s s) (hp s)")
  have f1: "onlyClonesWritten h0 h1" and m1: "cMdl_s s \<in> set (clonedModels h1)"
    and r1: "cRng_s s \<in> set (clonedRngs h1)" and c1: "c \<in> set (clonedRngs h1)"
    using RNG_clone_at_frame[where R=R and a="cRng_s s", OF a(1)]
      RNG_clone_at_simps[of R "cRng_s s" "hp s"] e a
    by simp_all
  define h2 where "h2 = RNG_skipTo_at R (int (if antithetic then f div 2 else f)) c h1"
  have f2: "onlyClonesWritten h0 h2" and m2: "cMdl_s s \<in> set (clonedModels h2)"
    and r2: "cRng_s s \<in> set (clonedRngs h2)" and c2: "c \<in> set (clonedRngs h2)"
    using RNG_skipTo_at_frame[OF f1 c1] m1 r1 c1 by (simp_all add: h2_def RNG_skipTo_at_simps)
  have "taskClonesOnly h0 (forLoop 0 n (mcParallelSimul_heap_body P M R antithetic prdRef th f)
           (\<lparr>taskRng_s = c, antiPath_task_s = False\<rparr>, s\<lparr>hp := h2\<rparr>))"
    by (rule forLoop_invariant[where I="taskClonesOnly h0"])
       (simp_all add: mcParallelSimul_heap_body_inv,
        simp add: taskClonesOnly_def clonesOnly_def f2 m2 r2 c2)
  then have "clonesOnly h0 (snd (forLoop 0 n (mcParallelSimul_heap_body P M R antithetic prdRef th f)
           (\<lparr>taskRng_s = c, antiPath_task_s = False\<rparr>, s\<lparr>hp := h2\<rparr>)))"
    by (simp add: taskClonesOnly_def case_prod_beta)
  then show ?thesis
    by (simp add: mcParallelSimul_heap_task_def fn e Let_def h2_def split del: if_split)
qed

lemma mcParallelSimul_heap_frame:
  "clonesOnly (atCall h)
     (mcParallelSimul_heap P M R prdRef mdlRef rngRef nPath antithetic nThread sched (atCall h))"
proof -
  let ?h0 = "atCall h"
  obtain c1 h1 where e1: "Model_clone_at M mdlRef ?h0 = (c1, h1)" by (cases "Model_clone_at M mdlRef ?h0")
  obtain c2 h2 where e2: "RNG_clone_at R rngRef h1 = (c2, h2)" by (cases "RNG_clone_at R rngRef h1")
  have f1: "onlyClonesWritten ?h0 h1" and m1: "c1 \<in> set (clonedModels h1)"
    using Model_clone_at_frame[where h="?h0" and ?h0.0="?h0" and M=M and a=mdlRef, OF onlyClonesWritten_atCall]
      Model_clone_at_simps[of M mdlRef ?h0] e1
    by simp_all
  have f2: "onlyClonesWritten ?h0 h2" and m2: "c1 \<in> set (clonedModels h2)" and r2: "c2 \<in> set (clonedRngs h2)"
    using RNG_clone_at_frame[where R=R and a=rngRef, OF f1] RNG_clone_at_simps[of R rngRef h1] e2 m1
    by simp_all
  define h3 where "h3 = Model_init_at M (timeline P (products h2 ! prdRef)) c1 h2"
  have f3: "onlyClonesWritten ?h0 h3" and m3: "c1 \<in> set (clonedModels h3)" and r3: "c2 \<in> set (clonedRngs h3)"
    using Model_init_at_frame[OF f2 m2] m2 r2 by (simp_all add: h3_def Model_init_at_simps)
  define h4 where "h4 = RNG_init_at R (simDim_Model M (models h3 ! c1)) c2 h3"
  have f4: "onlyClonesWritten ?h0 h4" and m4: "c1 \<in> set (clonedModels h4)" and r4: "c2 \<in> set (clonedRngs h4)"
    using RNG_init_at_frame[OF f3 r3] m3 r3 by (simp_all add: h4_def RNG_init_at_simps)
  have "clonesOnly ?h0 (fold (\<lambda>(threadNum, k).
                 mcParallelSimul_heap_task P M R antithetic prdRef threadNum (spawnLoop 0 nPath ! k))
           sched
           \<lparr>hp = h4, res_s = replicate nPath 0, cMdl_s = c1, cRng_s = c2,
            gaussVecs_s = replicate (nThread + 1) (replicate (simDim_Model M (models h4 ! c1)) 0),
            paths_s = replicate (nThread + 1)
                     (replicate (length (timeline P (products h4 ! prdRef))) \<lparr>spot = 0\<rparr>)\<rparr>)"
    by (rule fold_invariant[where I="clonesOnly ?h0"])
       (simp_all add: mcParallelSimul_heap_task_inv case_prod_beta,
        simp add: clonesOnly_def f4 m4 r4)
  then show ?thesis
    by (simp add: mcParallelSimul_heap_def e1 e2 Let_def h3_def h4_def)
qed

lemma initSimul_heap_frame:
  assumes f: "onlyClonesWritten h0 h"
    and e: "initSimul_heap P M R N prdRef mdlRef rngRef tp g0 p0 h = ((mc, rc, g, pth), h')"
  shows "onlyClonesWritten h0 h'" and "mc \<in> set (clonedModels h')" and "rc \<in> set (clonedRngs h')"
    and "onTape h' = (onTape h)(tp := [mc])"
    and "set (clonedModels h) \<subseteq> set (clonedModels h')"
    and "set (clonedRngs h) \<subseteq> set (clonedRngs h')"
proof -
  obtain c1 h1 where e1: "Model_clone_at M mdlRef h = (c1, h1)" by (cases "Model_clone_at M mdlRef h")
  obtain c2 h2 where e2: "RNG_clone_at R rngRef h1 = (c2, h2)" by (cases "RNG_clone_at R rngRef h1")
  have f1: "onlyClonesWritten h0 h1" and m1: "c1 \<in> set (clonedModels h1)"
    and s1: "set (clonedModels h) \<subseteq> set (clonedModels h1)" "clonedRngs h1 = clonedRngs h"
    and t1: "onTape h1 = onTape h"
    using Model_clone_at_frame[where M=M and a=mdlRef, OF f] Model_clone_at_simps[of M mdlRef h] e1
    by auto
  have f2: "onlyClonesWritten h0 h2" and m2: "c1 \<in> set (clonedModels h2)" and r2: "c2 \<in> set (clonedRngs h2)"
    and s2: "set (clonedModels h) \<subseteq> set (clonedModels h2)" "set (clonedRngs h) \<subseteq> set (clonedRngs h2)"
    and t2: "onTape h2 = onTape h"
    using RNG_clone_at_frame[where R=R and a=rngRef, OF f1] RNG_clone_at_simps[of R rngRef h1] e2 m1
      s1 t1
    by auto
  define h3 where "h3 = Tape_rewind_at tp h2"
  have f3: "onlyClonesWritten h0 h3" and m3: "c1 \<in> set (clonedModels h3)" and r3: "c2 \<in> set (clonedRngs h3)"
    and s3: "set (clonedModels h) \<subseteq> set (clonedModels h3)" "set (clonedRngs h) \<subseteq> set (clonedRngs h3)"
    and t3: "onTape h3 = (onTape h)(tp := [])"
    using Tape_rewind_at_frame[OF f2] m2 r2 s2 t2 by (simp_all add: h3_def Tape_rewind_at_simps)
  define h4 where "h4 = Model_putOnTape_at M tp c1 h3"
  have f4: "onlyClonesWritten h0 h4" and m4: "c1 \<in> set (clonedModels h4)" and r4: "c2 \<in> set (clonedRngs h4)"
    and s4: "set (clonedModels h) \<subseteq> set (clonedModels h4)" "set (clonedRngs h) \<subseteq> set (clonedRngs h4)"
    and t4: "onTape h4 = (onTape h)(tp := [c1])"
    using Model_putOnTape_at_frame[OF f3 m3] m3 r3 s3 t3
    by (simp_all add: h4_def Model_putOnTape_at_simps)
  define h5 where "h5 = Model_init_at M (timeline P (products h4 ! prdRef)) c1 h4"
  have f5: "onlyClonesWritten h0 h5" and m5: "c1 \<in> set (clonedModels h5)" and r5: "c2 \<in> set (clonedRngs h5)"
    and s5: "set (clonedModels h) \<subseteq> set (clonedModels h5)" "set (clonedRngs h) \<subseteq> set (clonedRngs h5)"
    and t5: "onTape h5 = (onTape h)(tp := [c1])"
    using Model_init_at_frame[OF f4 m4] m4 r4 s4 t4 by (simp_all add: h5_def Model_init_at_simps)
  define h6 where "h6 = RNG_init_at R (simDim_Model M (models h5 ! c1)) c2 h5"
  have f6: "onlyClonesWritten h0 h6" and m6: "c1 \<in> set (clonedModels h6)" and r6: "c2 \<in> set (clonedRngs h6)"
    and s6: "set (clonedModels h) \<subseteq> set (clonedModels h6)" "set (clonedRngs h) \<subseteq> set (clonedRngs h6)"
    and t6: "onTape h6 = (onTape h)(tp := [c1])"
    using RNG_init_at_frame[OF f5 r5] m5 r5 s5 t5 by (simp_all add: h6_def RNG_init_at_simps)
  have "initSimul_heap P M R N prdRef mdlRef rngRef tp g0 p0 h
      = ((c1, c2, resize (simDim_Model M (models h6 ! c1)) 0 g0,
          resize (length (timeline P (products h6 ! prdRef))) \<lparr>spot = Number_default N\<rparr> p0), h6)"
    by (simp add: initSimul_heap_def e1 e2 Let_def h3_def h4_def h5_def h6_def)
  with e have x: "mc = c1" "rc = c2" "h' = h6"
    by simp_all
  show "onlyClonesWritten h0 h'" and "mc \<in> set (clonedModels h')" and "rc \<in> set (clonedRngs h')"
    and "onTape h' = (onTape h)(tp := [mc])"
    and "set (clonedModels h) \<subseteq> set (clonedModels h')"
    and "set (clonedRngs h) \<subseteq> set (clonedRngs h')"
    using f6 m6 r6 s6 t6 by (simp_all add: x)
qed

lemma initThread_heap_inv:
  assumes a: "threadsClonesOnly h0 nThread s" and th: "th \<le> nThread"
    and nt: "Number_tape_s s ! th = th"
  shows "threadsClonesOnly h0 nThread (initThread_heap P M R N prdRef mdlRef rngRef th s)"
    and "init_thr_s (initThread_heap P M R N prdRef mdlRef rngRef th s) ! th"
    and "Number_tape_s (initThread_heap P M R N prdRef mdlRef rngRef th s) = Number_tape_s s"
proof -
  obtain mc rc g pth h' where e: "initSimul_heap P M R N prdRef mdlRef rngRef th
              (gaussVecs_thr_s s ! th) (paths_thr_s s ! th) (hp s) = ((mc, rc, g, pth), h')"
    by (cases "initSimul_heap P M R N prdRef mdlRef rngRef th
              (gaussVecs_thr_s s ! th) (paths_thr_s s ! th) (hp s)") auto
  from a have f: "onlyClonesWritten h0 (hp s)" by (simp add: threadsClonesOnly_def)
  note I = initSimul_heap_frame[OF f e]
  have s': "initThread_heap P M R N prdRef mdlRef rngRef th s
      = s\<lparr>hp := h',
           cMdl_thr_s := (cMdl_thr_s s)[th := Some mc],
           cRng_thr_s := (cRng_thr_s s)[th := Some rc],
           gaussVecs_thr_s := (gaussVecs_thr_s s)[th := g],
           paths_thr_s := (paths_thr_s s)[th := pth],
           init_thr_s := (init_thr_s s)[th := True]\<rparr>"
    by (simp add: initThread_heap_def nt e)
  from a have len: "length (cMdl_thr_s s) = nThread + 1" "length (cRng_thr_s s) = nThread + 1"
    "length (init_thr_s s) = nThread + 1" "length (Number_tape_s s) = nThread + 1"
    by (simp_all add: threadsClonesOnly_def)
  from a have old: "\<And>t. t \<le> nThread \<Longrightarrow> init_thr_s s ! t \<Longrightarrow>
            (\<exists>a. cMdl_thr_s s ! t = Some a \<and> a \<in> set (clonedModels (hp s)))
          \<and> (\<exists>b. cRng_thr_s s ! t = Some b \<and> b \<in> set (clonedRngs (hp s)))
          \<and> set (onTape (hp s) t) \<subseteq> set (clonedModels (hp s))"
    by (simp add: threadsClonesOnly_def)
  show "threadsClonesOnly h0 nThread (initThread_heap P M R N prdRef mdlRef rngRef th s)"
    unfolding s' threadsClonesOnly_def
  proof (intro conjI allI impI)
    fix t assume t: "t \<le> nThread"
      and i: "init_thr_s (s\<lparr>hp := h',
           cMdl_thr_s := (cMdl_thr_s s)[th := Some mc],
           cRng_thr_s := (cRng_thr_s s)[th := Some rc],
           gaussVecs_thr_s := (gaussVecs_thr_s s)[th := g],
           paths_thr_s := (paths_thr_s s)[th := pth],
           init_thr_s := (init_thr_s s)[th := True]\<rparr>) ! t"
    show "\<exists>a. cMdl_thr_s (s\<lparr>hp := h',
           cMdl_thr_s := (cMdl_thr_s s)[th := Some mc],
           cRng_thr_s := (cRng_thr_s s)[th := Some rc],
           gaussVecs_thr_s := (gaussVecs_thr_s s)[th := g],
           paths_thr_s := (paths_thr_s s)[th := pth],
           init_thr_s := (init_thr_s s)[th := True]\<rparr>) ! t = Some a
         \<and> a \<in> set (clonedModels (hp (s\<lparr>hp := h',
           cMdl_thr_s := (cMdl_thr_s s)[th := Some mc],
           cRng_thr_s := (cRng_thr_s s)[th := Some rc],
           gaussVecs_thr_s := (gaussVecs_thr_s s)[th := g],
           paths_thr_s := (paths_thr_s s)[th := pth],
           init_thr_s := (init_thr_s s)[th := True]\<rparr>)))"
    proof (cases "t = th")
      case True
      then show ?thesis using I(2) len th by simp
    next
      case False
      with i len t have "init_thr_s s ! t" by simp
      from old[OF t this] False I(5) len t show ?thesis by auto
    qed
    show "\<exists>b. cRng_thr_s (s\<lparr>hp := h',
           cMdl_thr_s := (cMdl_thr_s s)[th := Some mc],
           cRng_thr_s := (cRng_thr_s s)[th := Some rc],
           gaussVecs_thr_s := (gaussVecs_thr_s s)[th := g],
           paths_thr_s := (paths_thr_s s)[th := pth],
           init_thr_s := (init_thr_s s)[th := True]\<rparr>) ! t = Some b
         \<and> b \<in> set (clonedRngs (hp (s\<lparr>hp := h',
           cMdl_thr_s := (cMdl_thr_s s)[th := Some mc],
           cRng_thr_s := (cRng_thr_s s)[th := Some rc],
           gaussVecs_thr_s := (gaussVecs_thr_s s)[th := g],
           paths_thr_s := (paths_thr_s s)[th := pth],
           init_thr_s := (init_thr_s s)[th := True]\<rparr>)))"
    proof (cases "t = th")
      case True
      then show ?thesis using I(3) len th by simp
    next
      case False
      with i len t have "init_thr_s s ! t" by simp
      from old[OF t this] False I(6) len t show ?thesis by auto
    qed
    show "set (onTape (hp (s\<lparr>hp := h',
           cMdl_thr_s := (cMdl_thr_s s)[th := Some mc],
           cRng_thr_s := (cRng_thr_s s)[th := Some rc],
           gaussVecs_thr_s := (gaussVecs_thr_s s)[th := g],
           paths_thr_s := (paths_thr_s s)[th := pth],
           init_thr_s := (init_thr_s s)[th := True]\<rparr>)) t)
         \<subseteq> set (clonedModels (hp (s\<lparr>hp := h',
           cMdl_thr_s := (cMdl_thr_s s)[th := Some mc],
           cRng_thr_s := (cRng_thr_s s)[th := Some rc],
           gaussVecs_thr_s := (gaussVecs_thr_s s)[th := g],
           paths_thr_s := (paths_thr_s s)[th := pth],
           init_thr_s := (init_thr_s s)[th := True]\<rparr>)))"
    proof (cases "t = th")
      case True
      then show ?thesis using I(2) I(4) by simp
    next
      case False
      with i len t have "init_thr_s s ! t" by simp
      from old[OF t this] False I(4) I(5) show ?thesis by auto
    qed
  qed (simp_all add: I(1) len)
  show "init_thr_s (initThread_heap P M R N prdRef mdlRef rngRef th s) ! th"
    unfolding s' using len th by simp
  show "Number_tape_s (initThread_heap P M R N prdRef mdlRef rngRef th s) = Number_tape_s s"
    unfolding s' by simp
qed

lemma mcParallelSimulAAD_heap_body_simps:
  "hp (snd (mcParallelSimulAAD_heap_body P M R antithetic prdRef th f i (t, s)))
     = Tape_propagate_at (Number_tape_s s ! th)
         (fst (antitheticStep_at R antithetic (taskRng_s t)
                 (hp s, gaussVecs_thr_s s ! th, antiPath_task_s t)))"
  "cMdl_thr_s (snd (mcParallelSimulAAD_heap_body P M R antithetic prdRef th f i (t, s)))
     = cMdl_thr_s s"
  "cRng_thr_s (snd (mcParallelSimulAAD_heap_body P M R antithetic prdRef th f i (t, s)))
     = cRng_thr_s s"
  "init_thr_s (snd (mcParallelSimulAAD_heap_body P M R antithetic prdRef th f i (t, s)))
     = init_thr_s s"
  "Number_tape_s (snd (mcParallelSimulAAD_heap_body P M R antithetic prdRef th f i (t, s)))
     = Number_tape_s s"
  "taskRng_s (fst (mcParallelSimulAAD_heap_body P M R antithetic prdRef th f i (t, s)))
     = taskRng_s t"
  by (simp_all add: mcParallelSimulAAD_heap_body_def case_prod_beta Let_def)

lemma threadsClonesOnly_hp:
  assumes a: "threadsClonesOnly h0 nThread s"
    and f: "onlyClonesWritten h0 h'"
    and c: "clonedModels h' = clonedModels (hp s)" "clonedRngs h' = clonedRngs (hp s)"
      "onTape h' = onTape (hp s)"
    and e: "cMdl_thr_s s' = cMdl_thr_s s" "cRng_thr_s s' = cRng_thr_s s"
      "init_thr_s s' = init_thr_s s" "length (Number_tape_s s') = length (Number_tape_s s)"
      "hp s' = h'"
  shows "threadsClonesOnly h0 nThread s'"
  using a f unfolding threadsClonesOnly_def c e by simp

lemma mcParallelSimulAAD_heap_body_inv:
  assumes a: "taskThreadsClonesOnly h0 nThread th x" and th: "th \<le> nThread"
  shows "taskThreadsClonesOnly h0 nThread th
           (mcParallelSimulAAD_heap_body P M R antithetic prdRef th f i x)"
proof -
  obtain t s where x: "x = (t, s)" by (cases x)
  from a have b: "threadsClonesOnly h0 nThread s" "init_thr_s s ! th" "init_thr_s s ! 0"
    "Number_tape_s s ! th = th" "Number_tape_s s ! 0 = 0" "taskRng_s t \<in> set (clonedRngs (hp s))"
    by (simp_all add: x taskThreadsClonesOnly_def)
  from b(1) have fr: "onlyClonesWritten h0 (hp s)" by (simp add: threadsClonesOnly_def)
  from b(1) b(2) th have ot: "set (onTape (hp s) th) \<subseteq> set (clonedModels (hp s))"
    by (simp add: threadsClonesOnly_def)
  define h1 where "h1 = fst (antitheticStep_at R antithetic (taskRng_s t)
                 (hp s, gaussVecs_thr_s s ! th, antiPath_task_s t))"
  have f1: "onlyClonesWritten h0 h1" and c1: "clonedModels h1 = clonedModels (hp s)"
    "clonedRngs h1 = clonedRngs (hp s)" "onTape h1 = onTape (hp s)"
    using antitheticStep_at_frame[OF fr b(6)] by (simp_all add: h1_def antitheticStep_at_simps)
  define h2 where "h2 = Tape_propagate_at th h1"
  have f2: "onlyClonesWritten h0 h2" and c2: "clonedModels h2 = clonedModels (hp s)"
    "clonedRngs h2 = clonedRngs (hp s)" "onTape h2 = onTape (hp s)"
    using Tape_propagate_at_frame[OF f1, of th] ot c1
    by (simp_all add: h2_def Tape_propagate_at_simps)
  obtain t' s' where y: "mcParallelSimulAAD_heap_body P M R antithetic prdRef th f i (t, s) = (t', s')"
    by (cases "mcParallelSimulAAD_heap_body P M R antithetic prdRef th f i (t, s)")
  note S = mcParallelSimulAAD_heap_body_simps[of P M R antithetic prdRef th f i t s,
      unfolded y fst_conv snd_conv b(4), folded h1_def, folded h2_def]
  have "threadsClonesOnly h0 nThread s'"
    by (rule threadsClonesOnly_hp[OF b(1) f2 c2]) (simp_all add: S)
  then show ?thesis
    using b by (simp add: x y taskThreadsClonesOnly_def S c2)
qed

lemma mcParallelSimulAAD_heap_task_inv:
  assumes a: "threadsClonesOnly h0 nThread s" and th: "th \<le> nThread"
    and i0: "init_thr_s s ! 0" and n0: "Number_tape_s s ! 0 = 0"
  shows "threadsClonesOnly h0 nThread
           (mcParallelSimulAAD_heap_task P M R N antithetic prdRef mdlRef rngRef th fn s)
       \<and> init_thr_s (mcParallelSimulAAD_heap_task P M R N antithetic prdRef mdlRef rngRef th fn s) ! 0
       \<and> Number_tape_s (mcParallelSimulAAD_heap_task P M R N antithetic prdRef mdlRef rngRef th fn s)
           ! 0 = 0"
proof -
  obtain f n where fn: "fn = (f, n)" by (cases fn)
  define s1 where "s1 = (if th > 0 then s\<lparr>Number_tape_s := (Number_tape_s s)[th := th]\<rparr> else s)"
  from a have len: "length (Number_tape_s s) = nThread + 1" "length (init_thr_s s) = nThread + 1"
    by (simp_all add: threadsClonesOnly_def)
  have a1: "threadsClonesOnly h0 nThread s1"
    by (rule threadsClonesOnly_hp[OF a, where h'="hp s"])
       (use a in \<open>simp_all add: s1_def threadsClonesOnly_def\<close>)
  have n1: "Number_tape_s s1 ! th = th" "Number_tape_s s1 ! 0 = 0" and i1: "init_thr_s s1 ! 0"
    using th len n0 i0 by (auto simp add: s1_def)
  define s2 where "s2 = (if \<not> init_thr_s s1 ! th
                then initThread_heap P M R N prdRef mdlRef rngRef th s1 else s1)"
  have a2: "threadsClonesOnly h0 nThread s2" and i2: "init_thr_s s2 ! th"
    and n2: "Number_tape_s s2 ! th = th" "Number_tape_s s2 ! 0 = 0"
    using initThread_heap_inv[OF a1 th n1(1), of P M R N prdRef mdlRef rngRef] a1 n1
    by (auto simp add: s2_def)
  have i20: "init_thr_s s2 ! 0"
  proof (cases "th = 0")
    case True
    with i2 show ?thesis by simp
  next
    case False
    have "init_thr_s (initThread_heap P M R N prdRef mdlRef rngRef th s1) ! 0 = init_thr_s s1 ! 0"
      using False by (simp add: initThread_heap_def case_prod_beta Let_def)
    with i1 show ?thesis by (simp add: s2_def)
  qed
  from a2 i2 th obtain b where cb: "cRng_thr_s s2 ! th = Some b" "b \<in> set (clonedRngs (hp s2))"
    unfolding threadsClonesOnly_def by blast
  from a2 have f2: "onlyClonesWritten h0 (hp s2)" by (simp add: threadsClonesOnly_def)
  obtain c h1 where e: "RNG_clone_at R b (hp s2) = (c, h1)" by (cases "RNG_clone_at R b (hp s2)")
  have f3: "onlyClonesWritten h0 h1" and c3: "c \<in> set (clonedRngs h1)"
    and k3: "clonedModels h1 = clonedModels (hp s2)"
      "set (clonedRngs (hp s2)) \<subseteq> set (clonedRngs h1)" "onTape h1 = onTape (hp s2)"
    using RNG_clone_at_frame[where R=R and a=b, OF f2] RNG_clone_at_simps[of R b "hp s2"] e
    by auto
  define h2 where "h2 = RNG_skipTo_at R (int (if antithetic then f div 2 else f)) c h1"
  have f4: "onlyClonesWritten h0 h2" and c4: "c \<in> set (clonedRngs h2)"
    and k4: "clonedModels h2 = clonedModels (hp s2)"
      "set (clonedRngs (hp s2)) \<subseteq> set (clonedRngs h2)" "onTape h2 = onTape (hp s2)"
    using RNG_skipTo_at_frame[OF f3 c3] c3 k3 by (simp_all add: h2_def RNG_skipTo_at_simps)
  have a3: "threadsClonesOnly h0 nThread (s2\<lparr>hp := h2\<rparr>)"
    using a2 f4 k4 unfolding threadsClonesOnly_def by (simp, blast)
  have L: "taskThreadsClonesOnly h0 nThread th
       (forLoop 0 n (mcParallelSimulAAD_heap_body P M R antithetic prdRef th f)
          (\<lparr>taskRng_s = c, antiPath_task_s = False\<rparr>, s2\<lparr>hp := h2\<rparr>))"
    by (rule forLoop_invariant[where I="taskThreadsClonesOnly h0 nThread th"])
       (simp_all add: mcParallelSimulAAD_heap_body_inv th,
        simp add: taskThreadsClonesOnly_def a3 i2 i20 n2 c4)
  have eq: "mcParallelSimulAAD_heap_task P M R N antithetic prdRef mdlRef rngRef th fn s
      = snd (forLoop 0 n (mcParallelSimulAAD_heap_body P M R antithetic prdRef th f)
          (\<lparr>taskRng_s = c, antiPath_task_s = False\<rparr>, s2\<lparr>hp := h2\<rparr>))"
  proof -
    have "mcParallelSimulAAD_heap_task P M R N antithetic prdRef mdlRef rngRef th (f, n) s
      = (let (taskRng, h1) = RNG_clone_at R (the (cRng_thr_s s2 ! th)) (hp s2);
             h2 = RNG_skipTo_at R (int (if antithetic then f div 2 else f)) taskRng h1
         in snd (forLoop 0 n (mcParallelSimulAAD_heap_body P M R antithetic prdRef th f)
                   (\<lparr>taskRng_s = taskRng, antiPath_task_s = False\<rparr>, s2\<lparr>hp := h2\<rparr>)))"
      unfolding mcParallelSimulAAD_heap_task_def s2_def s1_def
      by (simp only: Let_def prod.case)
    also have "\<dots> = snd (forLoop 0 n (mcParallelSimulAAD_heap_body P M R antithetic prdRef th f)
          (\<lparr>taskRng_s = c, antiPath_task_s = False\<rparr>, s2\<lparr>hp := h2\<rparr>))"
      by (simp add: cb(1) e h2_def split del: if_split)
    finally show ?thesis unfolding fn .
  qed
  from L show ?thesis
    unfolding eq by (simp add: taskThreadsClonesOnly_def case_prod_beta)
qed

lemma propagateWorker_heap_simps:
  "init_thr_s (propagateWorker_heap i s) = init_thr_s s"
  "cMdl_thr_s (propagateWorker_heap i s) = cMdl_thr_s s"
  by (simp_all add: propagateWorker_heap_def Let_def)

lemma propagateWorker_heap_inv:
  assumes a: "threadsClonesOnly h0 nThread s" and i: "i < nThread"
  shows "threadsClonesOnly h0 nThread (propagateWorker_heap i s)"
proof -
  from a have len: "length (Number_tape_s s) = nThread + 1" by (simp add: threadsClonesOnly_def)
  from a have fr: "onlyClonesWritten h0 (hp s)" by (simp add: threadsClonesOnly_def)
  show "threadsClonesOnly h0 nThread (propagateWorker_heap i s)"
  proof (cases "init_thr_s s ! (i + 1)")
    case True
    with a i have ot: "set (onTape (hp s) (i + 1)) \<subseteq> set (clonedModels (hp s))"
      by (simp add: threadsClonesOnly_def)
    have e: "propagateWorker_heap i s
        = s\<lparr>Number_tape_s := (Number_tape_s s)[0 := i + 1], hp := Tape_propagate_at (i + 1) (hp s)\<rparr>"
      using True len by (simp add: propagateWorker_heap_def Let_def)
    show ?thesis
      by (rule threadsClonesOnly_hp[OF a Tape_propagate_at_frame[OF fr ot]])
         (simp_all add: e Tape_propagate_at_simps)
  next
    case False
    with a show ?thesis by (simp add: propagateWorker_heap_def)
  qed
qed

lemma accumulateWorker_heap_inv:
  fixes s :: "('p, 'm, 'r, 'T) parallel_aad_heap"
  assumes a: "finishInv h0 nThread ini cm s" and i0: "ini ! 0"
  shows "finishInv h0 nThread ini cm (accumulateWorker_heap M params0 i s)"
proof (cases "init_thr_s s ! (i + 1)")
  case True
  have step: "finishInv h0 nThread ini cm (x\<lparr>hp := Adjoint_add_at (the (cMdl_thr_s x ! 0)) (hp x)\<rparr>)"
    if b: "finishInv h0 nThread ini cm x" for x :: "('p, 'm, 'r, 'T) parallel_aad_heap"
  proof -
    from b have t: "threadsClonesOnly h0 nThread x" and e: "init_thr_s x = ini" "cMdl_thr_s x = cm"
      by (simp_all add: finishInv_def)
    from t have fr: "onlyClonesWritten h0 (hp x)" by (simp add: threadsClonesOnly_def)
    from t e i0 obtain c where c: "cMdl_thr_s x ! 0 = Some c" "c \<in> set (clonedModels (hp x))"
      unfolding threadsClonesOnly_def by (metis le0)
    have "threadsClonesOnly h0 nThread (x\<lparr>hp := Adjoint_add_at c (hp x)\<rparr>)"
      by (rule threadsClonesOnly_hp[OF t Adjoint_add_at_frame[OF fr c(2)]])
         (simp_all add: Adjoint_add_at_simps)
    then show ?thesis using e c(1) by (simp add: finishInv_def)
  qed
  have "finishInv h0 nThread ini cm
          (forLoop 0 (length params0)
             (\<lambda>j s. s\<lparr>hp := Adjoint_add_at (the (cMdl_thr_s s ! 0)) (hp s)\<rparr>) s)"
    by (rule forLoop_invariant[where I="finishInv h0 nThread ini cm"]) (simp_all add: step a)
  with True show ?thesis by (simp add: accumulateWorker_heap_def Let_def)
next
  case False
  with a show ?thesis by (simp add: accumulateWorker_heap_def)
qed

lemma mcParallelSimulAAD_heap_finish_inv:
  assumes a: "threadsClonesOnly h0 nThread s" and i0: "init_thr_s s ! 0"
    and n0: "Number_tape_s s ! 0 = 0"
  shows "finishInv h0 nThread (init_thr_s s) (cMdl_thr_s s) (mcParallelSimulAAD_heap_finish M nThread s)"
proof -
  let ?I = "finishInv h0 nThread (init_thr_s s) (cMdl_thr_s s)"
  from a have fr: "onlyClonesWritten h0 (hp s)" by (simp add: threadsClonesOnly_def)
  from a i0 have ot: "set (onTape (hp s) 0) \<subseteq> set (clonedModels (hp s))"
    by (simp add: threadsClonesOnly_def)
  define s1 where "s1 = s\<lparr>hp := Tape_propagate_at (Number_tape_s s ! 0) (hp s)\<rparr>"
  have a1: "?I s1"
    unfolding finishInv_def
    by (intro conjI, rule threadsClonesOnly_hp[OF a Tape_propagate_at_frame[OF fr ot]])
       (simp_all add: s1_def n0 Tape_propagate_at_simps)
  define s2 where "s2 = forLoop 0 nThread propagateWorker_heap s1"
  have a2: "?I s2"
    unfolding s2_def
    by (rule forLoop_invariant_index[where I="?I"])
       (simp_all add: a1, simp add: finishInv_def propagateWorker_heap_inv propagateWorker_heap_simps)
  define s3 where "s3 = s2\<lparr>Number_tape_s := (Number_tape_s s2)[0 := Number_tape_s s1 ! 0]\<rparr>"
  from a2 have t2: "threadsClonesOnly h0 nThread s2"
    and e2: "init_thr_s s2 = init_thr_s s" "cMdl_thr_s s2 = cMdl_thr_s s"
    by (simp_all add: finishInv_def)
  have "threadsClonesOnly h0 nThread s3"
    by (rule threadsClonesOnly_hp[OF t2, where h'="hp s2"])
       (use t2 in \<open>simp_all add: s3_def threadsClonesOnly_def\<close>)
  then have a3: "?I s3"
    using e2 by (simp add: finishInv_def s3_def)
  have "?I (forLoop 0 nThread
              (accumulateWorker_heap M (parameters M (models (hp s3) ! the (cMdl_thr_s s3 ! 0)))) s3)"
    by (rule forLoop_invariant[where I="?I"]) (simp_all add: accumulateWorker_heap_inv i0 a3)
  then show ?thesis
    by (simp add: mcParallelSimulAAD_heap_finish_def Let_def s1_def s2_def s3_def)
qed

lemma mcParallelSimulAAD_heap_frame:
  fixes P :: "('p, 'T) Product" and M :: "('m, 'T) Model" and R :: "'r RNG"
    and h :: "('p, 'm, 'r) heap"
  assumes v: "valid_schedule nThread (length (spawnLoop 0 nPath)) sched"
  shows "threadsClonesOnly (atCall h) nThread
           (mcParallelSimulAAD_heap P M R N prdRef mdlRef rngRef nPath antithetic nThread sched
              (atCall h))"
    and "init_thr_s (mcParallelSimulAAD_heap P M R N prdRef mdlRef rngRef nPath antithetic nThread
                       sched (atCall h)) ! 0"
proof -
  let ?h0 = "atCall h"
  define s0 :: "('p, 'm, 'r, 'T) parallel_aad_heap" where "s0 = \<lparr>hp = ?h0,
                res_s = replicate nPath (Number_default N),
                cMdl_thr_s = replicate (nThread + 1) None,
                cRng_thr_s = replicate (nThread + 1) None,
                gaussVecs_thr_s = replicate (nThread + 1) [],
                paths_thr_s = replicate (nThread + 1) [],
                init_thr_s = replicate (nThread + 1) False,
                Number_tape_s = replicate (nThread + 1) 0\<rparr>"
  have a0: "threadsClonesOnly ?h0 nThread s0"
    by (simp add: threadsClonesOnly_def s0_def onlyClonesWritten_atCall del: replicate.simps)
  have n0: "Number_tape_s s0 ! 0 = 0" by (simp add: s0_def)
  define s1 where "s1 = initThread_heap P M R N prdRef mdlRef rngRef 0 s0"
  note I = initThread_heap_inv[OF a0 le0 n0, of P M R N prdRef mdlRef rngRef, folded s1_def]
  let ?J = "\<lambda>s. threadsClonesOnly ?h0 nThread s \<and> init_thr_s s ! 0 \<and> Number_tape_s s ! 0 = 0"
  define s2 where "s2 = fold (\<lambda>(threadNum, k).
                 mcParallelSimulAAD_heap_task P M R N antithetic prdRef mdlRef rngRef threadNum
                   (spawnLoop 0 nPath ! k)) sched s1"
  from v have th: "\<And>x. x \<in> set sched \<Longrightarrow> fst x \<le> nThread"
    by (auto simp add: valid_schedule_def list_all_iff)
  have a2: "?J s2"
    unfolding s2_def
  proof (rule fold_invariant_set[where I="?J"])
    fix x and s :: "('p, 'm, 'r, 'T) parallel_aad_heap"
    assume x: "x \<in> set sched" and j: "?J s"
    from j mcParallelSimulAAD_heap_task_inv[where ?h0.0="?h0" and nThread=nThread and s=s
        and th="fst x" and P=P and M=M and R=R and N=N and antithetic=antithetic
        and prdRef=prdRef and mdlRef=mdlRef and rngRef=rngRef and fn="spawnLoop 0 nPath ! snd x"]
      th[OF x]
    show "?J ((case x of (threadNum, k) \<Rightarrow>
                 mcParallelSimulAAD_heap_task P M R N antithetic prdRef mdlRef rngRef threadNum
                   (spawnLoop 0 nPath ! k)) s)"
      by (simp add: case_prod_beta)
  next
    show "?J s1" using I n0 by simp
  qed
  from a2 have F: "finishInv ?h0 nThread (init_thr_s s2) (cMdl_thr_s s2)
                     (mcParallelSimulAAD_heap_finish M nThread s2)"
    by (simp add: mcParallelSimulAAD_heap_finish_inv)
  have e: "mcParallelSimulAAD_heap P M R N prdRef mdlRef rngRef nPath antithetic nThread sched ?h0
      = mcParallelSimulAAD_heap_finish M nThread s2"
    by (simp add: mcParallelSimulAAD_heap_def Let_def s0_def s1_def s2_def)
  from F a2 show "threadsClonesOnly (atCall h) nThread
           (mcParallelSimulAAD_heap P M R N prdRef mdlRef rngRef nPath antithetic nThread sched
              (atCall h))"
    and "init_thr_s (mcParallelSimulAAD_heap P M R N prdRef mdlRef rngRef nPath antithetic nThread
                       sched (atCall h)) ! 0"
    unfolding e by (simp_all add: finishInv_def)
qed

lemma onlyClonesWritten_atCall_left:
  "onlyClonesWritten (atCall h) x = onlyClonesWritten h x"
  by (simp add: onlyClonesWritten_def atCall_def)

lemma forLoop_unroll: "forLoop i n body s = (if i < n then forLoop (i + 1) n body (body i s) else s)"
  by (subst forLoop.simps) simp

section \<open>What mcSimulAAD returns\<close>



section \<open>The parallel simulator against the sequential one\<close>

text \<open>
  Claim C2. When the generator's \<^verbatim>\<open>skipTo\<close> is exact at the generator of the set-up (after
  \<^verbatim>\<open>skipTo(k)\<close> a clone returns the draws \<open>k, k+1, ...\<close> of the generator it was cloned from),
  \<^verbatim>\<open>mcParallelSimul\<close> returns, for every number of worker threads and every assignment of the
  batches to the threads in every order, the vector that \<^verbatim>\<open>mcSimul\<close> returns on the same
  product, model, generator, number of paths and antithetic flag.
\<close>

theorem mcParallelSimul_eq_mcSimul:
  assumes "exact_skip R (setupRng P M R prd0 mdl0 rng0)"
    and "valid_schedule nThread (length (spawnLoop 0 nPath)) sched"
  shows "mcParallelSimul P M R prd0 mdl0 rng0 nPath antithetic nThread sched
       = mcSimul P M R prd0 mdl0 rng0 nPath antithetic"
  unfolding mcParallelSimul_def mcSimul_def
  by (simp add: mcParallelSimul_exec_eq(1)[OF assms(2)] mcSimul_exec_eq(1)
      batchPathValue_exact[OF assms(1)])

theorem mcParallelSimul_eq_mcSimul_witness:
  "exact_skip counterRNG (setupRng forwardProduct spotModel counterRNG 100 100 (0, 0))
   \<and> valid_schedule 1 (length (spawnLoop 0 65)) [(1, 1), (0, 0)]
   \<and> mcParallelSimul forwardProduct spotModel counterRNG 100 100 (0, 0) 65 True 1 [(1, 1), (0, 0)]
     = mcSimul forwardProduct spotModel counterRNG 100 100 (0, 0) 65 True"
proof -
  have h1: "exact_skip counterRNG (setupRng forwardProduct spotModel counterRNG 100 100 (0, 0))"
    by (simp only: setupRng_counter counterRNG_exact_skip)
  show ?thesis
    by (intro conjI h1 valid_schedule_65 mcParallelSimul_eq_mcSimul[OF h1 valid_schedule_65])
qed

section \<open>The order of the calls in the path loops of the AAD simulators\<close>

text \<open>
  Claim C3. The calls that \<^verbatim>\<open>mcSimulAAD\<close> makes are those of the set-up, then for every path
  \<open>i = 0, ..., nPath - 1\<close>, in this order: \<^verbatim>\<open>rewindToMark\<close> on the tape, \<^verbatim>\<open>nextG\<close> or (under
  antithetic sampling, on odd paths) the negation of the Gaussian vector, \<^verbatim>\<open>generatePath\<close>,
  \<^verbatim>\<open>payoff\<close> stored at index \<open>i\<close>, and \<^verbatim>\<open>propagateToMark(false)\<close> on the result at index \<open>i\<close>; then
  \<^verbatim>\<open>propagateMarkToStart\<close>. In \<^verbatim>\<open>mcParallelSimulAAD\<close>, for every valid schedule, the calls of
  thread \<open>t\<close> are the set-up if it runs a task (or is the main thread), then for each of its
  batches in the order of the schedule \<^verbatim>\<open>skipTo\<close> followed by the same five calls per path,
  on the tape of the thread and at the absolute index \<open>firstPath + i\<close>; then, on the main
  thread, the calls that follow the tasks. The result vectors hold the values of the paths.
  (What \<^verbatim>\<open>propagateToMark(false)\<close> does to the adjoints is defined in \<^verbatim>\<open>AADNumber.h\<close>, which is
  not among the sources: the calls, their order and their arguments are what is stated.)
\<close>

theorem aad_path_loop_order:
  fixes P :: "('p, 'T) Product" and M :: "('m, 'T) Model" and R :: "'r RNG"
  shows "trace (mcSimulAAD_exec P M R N prd0 mdl0 rng0 nPath antithetic)
       = setupEvents 0
         @ concat (map (\<lambda>i. [Tape_rewindToMark 0,
                              if antithetic \<and> odd i then Gauss_negate else RNG_nextG,
                              Model_generatePath 0,
                              Product_payoff 0 i,
                              Number_propagateToMark 0 i False]) [0..<nPath])
         @ [Tape_propagateMarkToStart 0]
     \<and> res (mcSimulAAD_exec P M R N prd0 mdl0 rng0 nPath antithetic)
       = map (pathValue P M R antithetic prd0 (setupModelAAD P M prd0 mdl0)
                (setupRngAAD P M R prd0 mdl0 rng0)) [0..<nPath]
     \<and> (valid_schedule nThread (length (spawnLoop 0 nPath)) sched \<and> t \<le> nThread \<longrightarrow>
          traces (mcParallelSimulAAD_exec P M R N prd0 mdl0 rng0 nPath antithetic nThread sched) ! t
          = (if t = 0 \<or> t \<in> fst ` set sched then setupEvents t else [])
            @ concat (map (\<lambda>(th, firstPath, pathsInTask).
                 TaskRNG_skipTo (int (if antithetic then firstPath div 2 else firstPath))
                 # concat (map (\<lambda>i. [Tape_rewindToMark t,
                                      if antithetic \<and> odd i then Gauss_negate else RNG_nextG,
                                      Model_generatePath t,
                                      Product_payoff t (firstPath + i),
                                      Number_propagateToMark t (firstPath + i) False])
                             [0..<pathsInTask]))
               (filter (\<lambda>(th, firstPath, pathsInTask). th = t) (scheduledTasks nPath sched)))
            @ (if t = 0
               then finishEvents (filter (\<lambda>w. w \<in> fst ` set sched) [1..<nThread + 1])
                      (length (parameters M (setupModelAAD P M prd0 mdl0)))
               else [])
        \<and> res (mcParallelSimulAAD_exec P M R N prd0 mdl0 rng0 nPath antithetic nThread sched)
          = map (batchPathValue P M R antithetic prd0 (setupModelAAD P M prd0 mdl0)
                   (setupRngAAD P M R prd0 mdl0 rng0)) [0..<nPath])"
proof -
  have pe: "pathEvents tape antithetic f = (\<lambda>i. [Tape_rewindToMark tape,
                              if antithetic \<and> odd i then Gauss_negate else RNG_nextG,
                              Model_generatePath tape,
                              Product_payoff tape (f + i),
                              Number_propagateToMark tape (f + i) False])" for tape f
    by (rule ext) (simp add: pathEvents_def)
  have te: "(\<lambda>(th :: nat, task). taskEvents antithetic t task)
      = (\<lambda>(th, firstPath, pathsInTask).
                 TaskRNG_skipTo (int (if antithetic then firstPath div 2 else firstPath))
                 # concat (map (\<lambda>i. [Tape_rewindToMark t,
                                      if antithetic \<and> odd i then Gauss_negate else RNG_nextG,
                                      Model_generatePath t,
                                      Product_payoff t (firstPath + i),
                                      Number_propagateToMark t (firstPath + i) False])
                             [0..<pathsInTask]))"
    by (rule ext) (simp add: taskEvents_def pe split: prod.split)
  have fe: "(\<lambda>(th :: nat, task :: nat \<times> nat). th = t)
      = (\<lambda>(th, firstPath, pathsInTask). th = t)"
    by (rule ext) (simp split: prod.split)
  have c1: "trace (mcSimulAAD_exec P M R N prd0 mdl0 rng0 nPath antithetic)
       = setupEvents 0
         @ concat (map (\<lambda>i. [Tape_rewindToMark 0,
                              if antithetic \<and> odd i then Gauss_negate else RNG_nextG,
                              Model_generatePath 0,
                              Product_payoff 0 i,
                              Number_propagateToMark 0 i False]) [0..<nPath])
         @ [Tape_propagateMarkToStart 0]"
    unfolding mcSimulAAD_exec_eq(8) pe by simp
  have c2: "res (mcSimulAAD_exec P M R N prd0 mdl0 rng0 nPath antithetic)
       = map (pathValue P M R antithetic prd0 (setupModelAAD P M prd0 mdl0)
                (setupRngAAD P M R prd0 mdl0 rng0)) [0..<nPath]"
    by (rule mcSimulAAD_exec_eq(1))
  have c3: "traces (mcParallelSimulAAD_exec P M R N prd0 mdl0 rng0 nPath antithetic nThread sched) ! t
          = (if t = 0 \<or> t \<in> fst ` set sched then setupEvents t else [])
            @ concat (map (\<lambda>(th, firstPath, pathsInTask).
                 TaskRNG_skipTo (int (if antithetic then firstPath div 2 else firstPath))
                 # concat (map (\<lambda>i. [Tape_rewindToMark t,
                                      if antithetic \<and> odd i then Gauss_negate else RNG_nextG,
                                      Model_generatePath t,
                                      Product_payoff t (firstPath + i),
                                      Number_propagateToMark t (firstPath + i) False])
                             [0..<pathsInTask]))
               (filter (\<lambda>(th, firstPath, pathsInTask). th = t) (scheduledTasks nPath sched)))
            @ (if t = 0
               then finishEvents (filter (\<lambda>w. w \<in> fst ` set sched) [1..<nThread + 1])
                      (length (parameters M (setupModelAAD P M prd0 mdl0)))
               else [])"
    if "valid_schedule nThread (length (spawnLoop 0 nPath)) sched \<and> t \<le> nThread"
    unfolding mcParallelSimulAAD_exec_traces[OF that[THEN conjunct1] that[THEN conjunct2]] te fe
    by (rule refl)
  have c4: "res (mcParallelSimulAAD_exec P M R N prd0 mdl0 rng0 nPath antithetic nThread sched)
          = map (batchPathValue P M R antithetic prd0 (setupModelAAD P M prd0 mdl0)
                   (setupRngAAD P M R prd0 mdl0 rng0)) [0..<nPath]"
    if "valid_schedule nThread (length (spawnLoop 0 nPath)) sched \<and> t \<le> nThread"
    by (rule mcParallelSimulAAD_exec_eq(1)[OF that[THEN conjunct1]])
  show ?thesis
    by (intro conjI impI c1 c2 c3 c4) simp_all
qed

theorem aad_path_loop_order_witness:
  "valid_schedule 1 (length (spawnLoop 0 65)) [(1, 1), (0, 0)] \<and> (1 :: nat) \<le> 1
   \<and> traces (mcParallelSimulAAD_exec forwardProduct spotModel counterRNG realNumber 100 100 (0, 0)
              65 True 1 [(1, 1), (0, 0)]) ! 1
     = setupEvents 1
       @ [TaskRNG_skipTo 32, Tape_rewindToMark 1, RNG_nextG, Model_generatePath 1,
          Product_payoff 1 64, Number_propagateToMark 1 64 False]"
proof -
  note T = aad_path_loop_order[where P=forwardProduct and M=spotModel and R=counterRNG
      and N=realNumber and ?prd0.0=100 and ?mdl0.0=100 and ?rng0.0="(0, 0)" and nPath=65
      and nThread=1 and sched="[(1, 1), (0, 0)]" and antithetic=True and t=1]
  have h: "valid_schedule 1 (length (spawnLoop 0 65)) [(1, 1), (0, 0)] \<and> (1 :: nat) \<le> 1"
    by (intro conjI valid_schedule_65 order_refl)
  note c = T[THEN conjunct2, THEN conjunct2, THEN mp, OF h, THEN conjunct1]
  have "traces (mcParallelSimulAAD_exec forwardProduct spotModel counterRNG realNumber 100 100 (0, 0)
              65 True 1 [(1, 1), (0, 0)]) ! 1
     = setupEvents 1
       @ [TaskRNG_skipTo 32, Tape_rewindToMark 1, RNG_nextG, Model_generatePath 1,
          Product_payoff 1 64, Number_propagateToMark 1 64 False]"
    unfolding c by (simp add: scheduledTasks_def spawnLoop_65)
  with h show ?thesis by (intro conjI) (erule conjunct1, erule conjunct2, assumption)
qed

section \<open>The set-up of the AAD simulators\<close>

text \<open>
  Claim C4. In \<^verbatim>\<open>mcSimulAAD\<close> the first four calls are \<^verbatim>\<open>tape.rewind()\<close>, \<^verbatim>\<open>putOnTape()\<close> on the
  clone of the model, \<^verbatim>\<open>init(prd.timeline())\<close> on it and \<^verbatim>\<open>tape.mark()\<close>, in this order, and no
  call of these four kinds is made after them; the model that generates the paths is
  \<open>init (putOnTape (clone mdl))\<close>. \<^verbatim>\<open>initSimul\<close> makes the same calls in the same order, on the
  tape of the thread that runs it, and stores the same model. In \<^verbatim>\<open>mcParallelSimulAAD\<close>, for
  every valid schedule, a thread that is the main thread or runs a task starts with these
  four calls on its own tape and makes no other call of these kinds; a thread that runs no
  task makes no call.
\<close>

theorem aad_setup_protocol:
  fixes P :: "('p, 'T) Product" and M :: "('m, 'T) Model" and R :: "'r RNG"
  shows "take 4 (trace (mcSimulAAD_exec P M R N prd0 mdl0 rng0 nPath antithetic))
         = [Tape_rewind 0, Model_putOnTape 0, Model_init 0, Tape_mark 0]
     \<and> filter setupCall (trace (mcSimulAAD_exec P M R N prd0 mdl0 rng0 nPath antithetic))
         = [Tape_rewind 0, Model_putOnTape 0, Model_init 0, Tape_mark 0]
     \<and> cMdl (mcSimulAAD_exec P M R N prd0 mdl0 rng0 nPath antithetic)
         = init_Model M (timeline P prd0) (putOnTape M (clone_Model M mdl0))
     \<and> snd (initSimul P M R N prd0 mdl0 rng0 tape gaussVec0 path0)
         = [Tape_rewind tape, Model_putOnTape tape, Model_init tape, Tape_mark tape, RNG_init]
     \<and> fst (fst (initSimul P M R N prd0 mdl0 rng0 tape gaussVec0 path0))
         = init_Model M (timeline P prd0) (putOnTape M (clone_Model M mdl0))
     \<and> (valid_schedule nThread (length (spawnLoop 0 nPath)) sched \<and> t \<le> nThread \<longrightarrow>
          (if t = 0 \<or> t \<in> fst ` set sched
           then take 4 (traces (mcParallelSimulAAD_exec P M R N prd0 mdl0 rng0 nPath antithetic
                                  nThread sched) ! t)
                  = [Tape_rewind t, Model_putOnTape t, Model_init t, Tape_mark t]
              \<and> filter setupCall (traces (mcParallelSimulAAD_exec P M R N prd0 mdl0 rng0 nPath
                                            antithetic nThread sched) ! t)
                  = [Tape_rewind t, Model_putOnTape t, Model_init t, Tape_mark t]
              \<and> cMdl_thr (mcParallelSimulAAD_exec P M R N prd0 mdl0 rng0 nPath antithetic
                             nThread sched) ! t
                  = Some (init_Model M (timeline P prd0) (putOnTape M (clone_Model M mdl0)))
           else traces (mcParallelSimulAAD_exec P M R N prd0 mdl0 rng0 nPath antithetic
                          nThread sched) ! t = []))"
proof -
  have c1: "take 4 (trace (mcSimulAAD_exec P M R N prd0 mdl0 rng0 nPath antithetic))
         = [Tape_rewind 0, Model_putOnTape 0, Model_init 0, Tape_mark 0]"
    unfolding mcSimulAAD_exec_eq(8) by (rule setupCall_setupEvents(2))
  have c2: "filter setupCall (trace (mcSimulAAD_exec P M R N prd0 mdl0 rng0 nPath antithetic))
         = [Tape_rewind 0, Model_putOnTape 0, Model_init 0, Tape_mark 0]"
    unfolding mcSimulAAD_exec_eq(8)
    by (simp add: setupCall_setupEvents(1) setupCall_paths)
  have c3: "cMdl (mcSimulAAD_exec P M R N prd0 mdl0 rng0 nPath antithetic)
         = init_Model M (timeline P prd0) (putOnTape M (clone_Model M mdl0))"
    by (simp add: mcSimulAAD_exec_eq(2) setupModelAAD_def)
  have c4: "snd (initSimul P M R N prd0 mdl0 rng0 tape gaussVec0 path0)
         = [Tape_rewind tape, Model_putOnTape tape, Model_init tape, Tape_mark tape, RNG_init]"
    by (simp add: initSimul_eq setupEvents_def)
  have c5: "fst (fst (initSimul P M R N prd0 mdl0 rng0 tape gaussVec0 path0))
         = init_Model M (timeline P prd0) (putOnTape M (clone_Model M mdl0))"
    by (simp add: initSimul_eq setupModelAAD_def)
  have c6: "(if t = 0 \<or> t \<in> fst ` set sched
           then take 4 (traces (mcParallelSimulAAD_exec P M R N prd0 mdl0 rng0 nPath antithetic
                                  nThread sched) ! t)
                  = [Tape_rewind t, Model_putOnTape t, Model_init t, Tape_mark t]
              \<and> filter setupCall (traces (mcParallelSimulAAD_exec P M R N prd0 mdl0 rng0 nPath
                                            antithetic nThread sched) ! t)
                  = [Tape_rewind t, Model_putOnTape t, Model_init t, Tape_mark t]
              \<and> cMdl_thr (mcParallelSimulAAD_exec P M R N prd0 mdl0 rng0 nPath antithetic
                             nThread sched) ! t
                  = Some (init_Model M (timeline P prd0) (putOnTape M (clone_Model M mdl0)))
           else traces (mcParallelSimulAAD_exec P M R N prd0 mdl0 rng0 nPath antithetic
                          nThread sched) ! t = [])"
    if h: "valid_schedule nThread (length (spawnLoop 0 nPath)) sched \<and> t \<le> nThread"
  proof -
    note v = h[THEN conjunct1] and t = h[THEN conjunct2]
    let ?s = "mcParallelSimulAAD_exec P M R N prd0 mdl0 rng0 nPath antithetic nThread sched"
    note tr = mcParallelSimulAAD_exec_traces[OF v t, where P=P and M=M and R=R and N=N
        and ?prd0.0=prd0 and ?mdl0.0=mdl0 and ?rng0.0=rng0 and antithetic=antithetic]
    show ?thesis
    proof (cases "t = 0 \<or> t \<in> fst ` set sched")
      case True
      have a: "take 4 (traces ?s ! t) = [Tape_rewind t, Model_putOnTape t, Model_init t, Tape_mark t]"
        unfolding tr using True by (simp only: if_True setupCall_setupEvents(2))
      have b: "filter setupCall (traces ?s ! t)
                 = [Tape_rewind t, Model_putOnTape t, Model_init t, Tape_mark t]"
        unfolding tr using True
        by (simp add: setupCall_setupEvents(1) setupCall_tasks setupCall_finishEvents)
      from mcParallelSimulAAD_exec_eq(3)[OF v t, where P=P and M=M and R=R and N=N
          and ?prd0.0=prd0 and ?mdl0.0=mdl0 and ?rng0.0=rng0 and antithetic=antithetic] True
      have i: "init_thr ?s ! t" by simp
      from mcParallelSimulAAD_exec_eq(2)[OF v, where P=P and M=M and R=R and N=N
          and ?prd0.0=prd0 and ?mdl0.0=mdl0 and ?rng0.0=rng0 and antithetic=antithetic]
      have "\<forall>t \<le> nThread. init_thr ?s ! t \<longrightarrow>
              cMdl_thr ?s ! t = Some (setupModelAAD P M prd0 mdl0)
            \<and> cRng_thr ?s ! t = Some (setupRngAAD P M R prd0 mdl0 rng0)"
        unfolding aad_wf_def by (elim conjE)
      with t i have c: "cMdl_thr ?s ! t
            = Some (init_Model M (timeline P prd0) (putOnTape M (clone_Model M mdl0)))"
        by (simp add: setupModelAAD_def)
      from True a b c show ?thesis by simp
    next
      case False
      have "x \<notin> set (scheduledTasks nPath sched)" if "fst x = t" for x
      proof
        assume "x \<in> set (scheduledTasks nPath sched)"
        then have "fst x \<in> fst ` set (scheduledTasks nPath sched)" by (rule imageI)
        with that False show False by (simp add: scheduledTasks_valid(3)[OF v])
      qed
      then have "filter (\<lambda>(th, task). th = t) (scheduledTasks nPath sched) = []"
        by (auto simp: filter_empty_conv)
      with False have "traces ?s ! t = []" unfolding tr by simp
      with False show ?thesis by simp
    qed
  qed
  show ?thesis
    by (intro conjI impI c1 c2 c3 c4 c5 c6) simp_all
qed

theorem aad_setup_protocol_witness:
  "valid_schedule 1 (length (spawnLoop 0 65)) [(1, 1), (0, 0)] \<and> (1 :: nat) \<le> 1
   \<and> take 4 (traces (mcParallelSimulAAD_exec forwardProduct spotModel counterRNG realNumber
                       100 100 (0, 0) 65 True 1 [(1, 1), (0, 0)]) ! 1)
       = [Tape_rewind 1, Model_putOnTape 1, Model_init 1, Tape_mark 1]
   \<and> filter setupCall (traces (mcParallelSimulAAD_exec forwardProduct spotModel counterRNG
                                 realNumber 100 100 (0, 0) 65 True 1 [(1, 1), (0, 0)]) ! 1)
       = [Tape_rewind 1, Model_putOnTape 1, Model_init 1, Tape_mark 1]"
proof -
  note T = aad_setup_protocol[where P=forwardProduct and M=spotModel and R=counterRNG
      and N=realNumber and ?prd0.0=100 and ?mdl0.0=100 and ?rng0.0="(0, 0)" and nPath=65
      and nThread=1 and sched="[(1, 1), (0, 0)]" and antithetic=True and t=1
      and tape=0 and ?gaussVec0.0="[]" and ?path0.0="[]"]
  have h: "valid_schedule 1 (length (spawnLoop 0 65)) [(1, 1), (0, 0)] \<and> (1 :: nat) \<le> 1"
    by (intro conjI valid_schedule_65 order_refl)
  note c = T[THEN conjunct2, THEN conjunct2, THEN conjunct2, THEN conjunct2, THEN conjunct2,
      THEN mp, OF h]
  have m: "(1 :: nat) = 0 \<or> 1 \<in> fst ` set [(1 :: nat, 1 :: nat), (0, 0)]" by simp
  from c have "take 4 (traces (mcParallelSimulAAD_exec forwardProduct spotModel counterRNG realNumber
                       100 100 (0, 0) 65 True 1 [(1, 1), (0, 0)]) ! 1)
       = [Tape_rewind 1, Model_putOnTape 1, Model_init 1, Tape_mark 1]
   \<and> filter setupCall (traces (mcParallelSimulAAD_exec forwardProduct spotModel counterRNG
                                 realNumber 100 100 (0, 0) 65 True 1 [(1, 1), (0, 0)]) ! 1)
       = [Tape_rewind 1, Model_putOnTape 1, Model_init 1, Tape_mark 1]"
    unfolding if_P[OF m] by (elim conjE) (intro conjI)
  with h show ?thesis by (intro conjI) (erule conjunct1, erule conjunct2, erule conjunct1, erule conjunct2)
qed

section \<open>After the tasks of mcParallelSimulAAD\<close>

text \<open>
  Claim C5. For every valid schedule, the calls of the main thread in \<^verbatim>\<open>mcParallelSimulAAD\<close>
  are its set-up and its batches, then \<^verbatim>\<open>propagateMarkToStart\<close> with \<^verbatim>\<open>Number::tape\<close> on the main
  tape (tape 0), then \<^verbatim>\<open>propagateMarkToStart\<close> with \<^verbatim>\<open>Number::tape\<close> on tape \<open>w\<close> for every worker
  \<open>w\<close> in \<open>1, ..., nThread\<close> that ran a batch, in increasing order, then for each of these
  workers in the same order the additions \<^verbatim>\<open>params0[j].adjoint() += params[j].adjoint()\<close> for
  \<open>j = 0, ..., params0.size() - 1\<close>; there is no other call of these two kinds, on any
  thread. A worker is initialised exactly when it ran a batch, and then holds a clone of
  the model with the same parameters as the main clone; \<^verbatim>\<open>Number::tape\<close> of the main thread
  is the main tape again at the end; the model returned is the clone of the main thread.

  On the tapes \<open>ts\<close> (the main tape and one per worker, as the tasks left them): the run on
  the tapes makes the calls above; the tape of a worker that ran a batch is propagated
  from its mark to its start, the tape of a worker that ran none is left as it was; on
  the main tape the mark and the inputs of the nodes are those after its own propagation,
  and the adjoint of node \<open>n\<close> is the one after its own propagation plus, for every worker
  \<open>w\<close> that ran a batch and every parameter \<open>j\<close> whose node is \<open>n\<close>, the adjoint of that
  parameter's node on tape \<open>w\<close> after the propagation of tape \<open>w\<close>.
\<close>

theorem parallel_aad_reduction:
  fixes P :: "('p, 'T) Product" and M :: "('m, 'T) Model" and R :: "'r RNG"
  assumes v: "valid_schedule nThread (length (spawnLoop 0 nPath)) sched"
  shows "(traces (mcParallelSimulAAD_exec P M R N prd0 mdl0 rng0 nPath antithetic nThread sched) ! 0
        = setupEvents 0
          @ concat (map (\<lambda>(th, task). taskEvents antithetic 0 task)
              (filter (\<lambda>(th, task). th = 0) (scheduledTasks nPath sched)))
          @ Tape_propagateMarkToStart 0
          # map Tape_propagateMarkToStart (filter (\<lambda>w. w \<in> fst ` set sched) [1..<nThread + 1])
          @ concat (map (\<lambda>w. map (Adjoint_add w)
                                [0..<length (parameters M (setupModelAAD P M prd0 mdl0))])
              (filter (\<lambda>w. w \<in> fst ` set sched) [1..<nThread + 1]))
      \<and> filter finishCall
          (traces (mcParallelSimulAAD_exec P M R N prd0 mdl0 rng0 nPath antithetic nThread sched) ! 0)
        = Tape_propagateMarkToStart 0
          # map Tape_propagateMarkToStart (filter (\<lambda>w. w \<in> fst ` set sched) [1..<nThread + 1])
          @ concat (map (\<lambda>w. map (Adjoint_add w)
                                [0..<length (parameters M (setupModelAAD P M prd0 mdl0))])
              (filter (\<lambda>w. w \<in> fst ` set sched) [1..<nThread + 1]))
      \<and> (0 < w \<and> w \<le> nThread \<longrightarrow>
           filter finishCall
             (traces (mcParallelSimulAAD_exec P M R N prd0 mdl0 rng0 nPath antithetic nThread sched) ! w)
           = []
         \<and> init_thr (mcParallelSimulAAD_exec P M R N prd0 mdl0 rng0 nPath antithetic nThread sched) ! w
           = (w \<in> fst ` set sched)
         \<and> (w \<in> fst ` set sched \<longrightarrow>
              cMdl_thr (mcParallelSimulAAD_exec P M R N prd0 mdl0 rng0 nPath antithetic nThread sched) ! w
              = Some (setupModelAAD P M prd0 mdl0)))
      \<and> Number_tape (mcParallelSimulAAD_exec P M R N prd0 mdl0 rng0 nPath antithetic nThread sched) ! 0
        = 0
      \<and> cMdl_thr (mcParallelSimulAAD_exec P M R N prd0 mdl0 rng0 nPath antithetic nThread sched) ! 0
        = Some (setupModelAAD P M prd0 mdl0)
      \<and> snd (mcParallelSimulAAD P M R N prd0 mdl0 rng0 nPath antithetic nThread sched)
        = init_Model M (timeline P prd0) (putOnTape M (clone_Model M mdl0)))
     \<and> (length ts = nThread + 1 \<longrightarrow>
          fst (mcParallelSimulAAD_exec_tapes P M R N nodeOf prd0 mdl0 rng0 nPath antithetic nThread
                     sched ts)
            = mcParallelSimulAAD_exec P M R N prd0 mdl0 rng0 nPath antithetic nThread sched
          \<and> length (snd (mcParallelSimulAAD_exec_tapes P M R N nodeOf prd0 mdl0 rng0 nPath antithetic
                           nThread sched ts)) = nThread + 1
          \<and> (0 < w \<and> w \<le> nThread \<longrightarrow>
               snd (mcParallelSimulAAD_exec_tapes P M R N nodeOf prd0 mdl0 rng0 nPath antithetic nThread
                      sched ts) ! w
               = (if w \<in> fst ` set sched then tape_propagateMarkToStart (ts ! w) else ts ! w))
          \<and> markAt (snd (mcParallelSimulAAD_exec_tapes P M R N nodeOf prd0 mdl0 rng0 nPath antithetic
                           nThread sched ts) ! 0) = markAt (ts ! 0)
          \<and> map inputs (nodes (snd (mcParallelSimulAAD_exec_tapes P M R N nodeOf prd0 mdl0 rng0 nPath
                                      antithetic nThread sched ts) ! 0))
            = map inputs (nodes (tape_propagateMarkToStart (ts ! 0)))
          \<and> (n < length (nodes (ts ! 0)) \<longrightarrow>
               adjoint (nodes (snd (mcParallelSimulAAD_exec_tapes P M R N nodeOf prd0 mdl0 rng0 nPath
                                      antithetic nThread sched ts) ! 0) ! n)
               = adjoint (nodes (tape_propagateMarkToStart (ts ! 0)) ! n)
                 + (\<Sum>w \<leftarrow> filter (\<lambda>w. w \<in> fst ` set sched) [1..<nThread + 1].
                      \<Sum>j \<leftarrow> [0..<length (parameters M (setupModelAAD P M prd0 mdl0))].
                        if nodeOf (parameters M (setupModelAAD P M prd0 mdl0) ! j) = n
                        then adjoint (nodes (tape_propagateMarkToStart (ts ! w))
                                        ! nodeOf (parameters M (setupModelAAD P M prd0 mdl0) ! j))
                        else 0)))"
proof -
  note a = mcParallelSimulAAD_finish_calls[OF v, where P=P and M=M and R=R and N=N
      and ?prd0.0=prd0 and ?mdl0.0=mdl0 and ?rng0.0=rng0 and antithetic=antithetic and w=w]
  have b: "fst (mcParallelSimulAAD_exec_tapes P M R N nodeOf prd0 mdl0 rng0 nPath antithetic nThread
                   sched ts)
          = mcParallelSimulAAD_exec P M R N prd0 mdl0 rng0 nPath antithetic nThread sched
        \<and> length (snd (mcParallelSimulAAD_exec_tapes P M R N nodeOf prd0 mdl0 rng0 nPath antithetic
                         nThread sched ts)) = nThread + 1
        \<and> (0 < w \<and> w \<le> nThread \<longrightarrow>
             snd (mcParallelSimulAAD_exec_tapes P M R N nodeOf prd0 mdl0 rng0 nPath antithetic nThread
                    sched ts) ! w
             = (if w \<in> fst ` set sched then tape_propagateMarkToStart (ts ! w) else ts ! w))
        \<and> markAt (snd (mcParallelSimulAAD_exec_tapes P M R N nodeOf prd0 mdl0 rng0 nPath antithetic
                         nThread sched ts) ! 0) = markAt (ts ! 0)
        \<and> map inputs (nodes (snd (mcParallelSimulAAD_exec_tapes P M R N nodeOf prd0 mdl0 rng0 nPath
                                    antithetic nThread sched ts) ! 0))
          = map inputs (nodes (tape_propagateMarkToStart (ts ! 0)))
        \<and> (n < length (nodes (ts ! 0)) \<longrightarrow>
             adjoint (nodes (snd (mcParallelSimulAAD_exec_tapes P M R N nodeOf prd0 mdl0 rng0 nPath
                                    antithetic nThread sched ts) ! 0) ! n)
             = adjoint (nodes (tape_propagateMarkToStart (ts ! 0)) ! n)
               + (\<Sum>w \<leftarrow> filter (\<lambda>w. w \<in> fst ` set sched) [1..<nThread + 1].
                    \<Sum>j \<leftarrow> [0..<length (parameters M (setupModelAAD P M prd0 mdl0))].
                      if nodeOf (parameters M (setupModelAAD P M prd0 mdl0) ! j) = n
                      then adjoint (nodes (tape_propagateMarkToStart (ts ! w))
                                      ! nodeOf (parameters M (setupModelAAD P M prd0 mdl0) ! j))
                      else 0))"
    if lt: "length ts = nThread + 1"
    by (rule mcParallelSimulAAD_finish_adjoints[OF v lt])
  show ?thesis
    by (rule conjI[OF a]) (rule impI, rule b)
qed

theorem parallel_aad_reduction_witness:
  "valid_schedule 1 (length (spawnLoop 0 65)) [(1, 1), (0, 0)]
   \<and> filter finishCall
       (traces (mcParallelSimulAAD_exec forwardProduct spotModel counterRNG realNumber
                  100 100 (0, 0) 65 True 1 [(1, 1), (0, 0)]) ! 0)
     = [Tape_propagateMarkToStart 0, Tape_propagateMarkToStart 1, Adjoint_add 1 0]
   \<and> snd (mcParallelSimulAAD forwardProduct spotModel counterRNG realNumber
            100 100 (0, 0) 65 True 1 [(1, 1), (0, 0)]) = 100
   \<and> cMdl_thr (mcParallelSimulAAD_exec forwardProduct spotModel counterRNG realNumber
                  100 100 (0, 0) 65 True 1 [(1, 1), (0, 0)]) ! 1 = Some 100
   \<and> length [exampleTape 5, exampleTape 3] = 1 + 1
   \<and> snd (mcParallelSimulAAD_exec_tapes forwardProduct spotModel counterRNG realNumber (\<lambda>x. 0)
            100 100 (0, 0) 65 True 1 [(1, 1), (0, 0)] [exampleTape 5, exampleTape 3]) ! 1
     = \<lparr>nodes = [\<lparr>adjoint = 6, inputs = []\<rparr>, \<lparr>adjoint = 3, inputs = [(0, 2)]\<rparr>], markAt = 2\<rparr>
   \<and> adjoint (nodes (snd (mcParallelSimulAAD_exec_tapes forwardProduct spotModel counterRNG
                            realNumber (\<lambda>x. 0) 100 100 (0, 0) 65 True 1 [(1, 1), (0, 0)]
                            [exampleTape 5, exampleTape 3]) ! 0) ! 0) = 16"
proof -
  note U = parallel_aad_reduction[OF valid_schedule_65, where P=forwardProduct and M=spotModel
      and R=counterRNG and N=realNumber and nodeOf="\<lambda>x. 0" and ?prd0.0=100 and ?mdl0.0=100
      and ?rng0.0="(0, 0)" and antithetic=True and w=1 and n=0
      and ts="[exampleTape 5, exampleTape 3]"]
  note T = U[THEN conjunct1]
  note a = T[THEN conjunct2, THEN conjunct1]
  note b = T[THEN conjunct2, THEN conjunct2, THEN conjunct2, THEN conjunct2, THEN conjunct2]
  have a': "filter finishCall
       (traces (mcParallelSimulAAD_exec forwardProduct spotModel counterRNG realNumber
                  100 100 (0, 0) 65 True 1 [(1, 1), (0, 0)]) ! 0)
     = [Tape_propagateMarkToStart 0, Tape_propagateMarkToStart 1, Adjoint_add 1 0]"
    unfolding a by (simp add: setupModelAAD_def spotModel_def)
  have b': "snd (mcParallelSimulAAD forwardProduct spotModel counterRNG realNumber
            100 100 (0, 0) 65 True 1 [(1, 1), (0, 0)]) = 100"
    unfolding b by (simp add: spotModel_def)
  have w: "0 < (1 :: nat) \<and> (1 :: nat) \<le> 1" by simp
  have m: "(1 :: nat) \<in> fst ` set [(1 :: nat, 1 :: nat), (0, 0)]" by simp
  note c = T[THEN conjunct2, THEN conjunct2, THEN conjunct1, THEN mp, OF w, THEN conjunct2,
      THEN conjunct2, THEN mp, OF m]
  have c': "cMdl_thr (mcParallelSimulAAD_exec forwardProduct spotModel counterRNG realNumber
                  100 100 (0, 0) 65 True 1 [(1, 1), (0, 0)]) ! 1 = Some 100"
    unfolding c by (simp add: setupModelAAD_def spotModel_def)
  have lt: "length [exampleTape 5, exampleTape 3] = 1 + 1" by simp
  note V = U[THEN conjunct2, THEN mp, OF lt]
  note d = V[THEN conjunct2, THEN conjunct2, THEN conjunct1, THEN mp, OF w]
  have n: "0 < length (nodes ([exampleTape 5, exampleTape 3] ! 0))" by (simp add: exampleTape_def)
  note e = V[THEN conjunct2, THEN conjunct2, THEN conjunct2, THEN conjunct2, THEN conjunct2,
      THEN mp, OF n]
  have d': "snd (mcParallelSimulAAD_exec_tapes forwardProduct spotModel counterRNG realNumber (\<lambda>x. 0)
            100 100 (0, 0) 65 True 1 [(1, 1), (0, 0)] [exampleTape 5, exampleTape 3]) ! 1
     = \<lparr>nodes = [\<lparr>adjoint = 6, inputs = []\<rparr>, \<lparr>adjoint = 3, inputs = [(0, 2)]\<rparr>], markAt = 2\<rparr>"
    unfolding d by (simp add: exampleTape_propagateMarkToStart)
  have e': "adjoint (nodes (snd (mcParallelSimulAAD_exec_tapes forwardProduct spotModel counterRNG
                            realNumber (\<lambda>x. 0) 100 100 (0, 0) 65 True 1 [(1, 1), (0, 0)]
                            [exampleTape 5, exampleTape 3]) ! 0) ! 0) = 16"
    unfolding e
    by (simp add: exampleTape_propagateMarkToStart setupModelAAD_def spotModel_def)
  show ?thesis by (intro conjI valid_schedule_65 a' b' c' lt d' e')
qed
section \<open>Antithetic sampling\<close>

text \<open>
  Claim C6. With \<^verbatim>\<open>antithetic = true\<close> the block that obtains the Gaussian vector, when the
  toggle \<^verbatim>\<open>antiPath\<close> is false, calls \<^verbatim>\<open>nextG\<close> and sets the toggle; when the toggle is true,
  it negates the vector in place, leaves the generator alone and clears the toggle. Path
  \<open>2k\<close> of a loop uses draw \<open>k\<close> of the loop's generator and path \<open>2k+1\<close> its negation. So
  \<^verbatim>\<open>mcSimul\<close> and \<^verbatim>\<open>mcSimulAAD\<close> return, on path \<open>i\<close>, the payoff of the path generated from
  that vector; they take \<open>(nPath + 1) div 2\<close> draws, and end with the toggle set exactly when
  \<open>nPath\<close> is odd (the last path is then a primary one). In the parallel simulators the same
  holds in every batch, from the generator of the batch and with the index \<open>j mod 64\<close> in the
  batch, for every valid schedule.
\<close>

theorem antithetic_alternation:
  fixes P :: "('p, real) Product" and M :: "('m, real) Model" and R :: "'r RNG"
    and PA :: "('p, 'T) Product" and MA :: "('m, 'T) Model"
  shows "antitheticStep R True (r, g, False) = (snd (nextG R r), fst (nextG R r), True)
     \<and> antitheticStep R True (r, g, True) = (r, map uminus g, False)
     \<and> gaussSeq R True r (2 * k) = draw R r k
     \<and> gaussSeq R True r (2 * k + 1) = map uminus (draw R r k)
     \<and> mcSimul P M R prd0 mdl0 rng0 nPath True
         = map (\<lambda>i. payoff P prd0 (generatePath M (setupModel P M prd0 mdl0)
                  (gaussSeq R True (setupRng P M R prd0 mdl0 rng0) i))) [0..<nPath]
     \<and> cRng (mcSimul_exec P M R prd0 mdl0 rng0 nPath True)
         = (advance R ^^ ((nPath + 1) div 2)) (setupRng P M R prd0 mdl0 rng0)
     \<and> antiPath (mcSimul_exec P M R prd0 mdl0 rng0 nPath True) = odd nPath
     \<and> fst (mcSimulAAD PA MA R N prd0 mdl0 rng0 nPath True)
         = map (\<lambda>i. convert N (payoff PA prd0 (generatePath MA (setupModelAAD PA MA prd0 mdl0)
                  (gaussSeq R True (setupRngAAD PA MA R prd0 mdl0 rng0) i)))) [0..<nPath]
     \<and> cRng (mcSimulAAD_exec PA MA R N prd0 mdl0 rng0 nPath True)
         = (advance R ^^ ((nPath + 1) div 2)) (setupRngAAD PA MA R prd0 mdl0 rng0)
     \<and> antiPath (mcSimulAAD_exec PA MA R N prd0 mdl0 rng0 nPath True) = odd nPath
     \<and> (valid_schedule nThread (length (spawnLoop 0 nPath)) sched \<longrightarrow>
          mcParallelSimul P M R prd0 mdl0 rng0 nPath True nThread sched
            = map (\<lambda>j. payoff P prd0 (generatePath M (setupModel P M prd0 mdl0)
                     (gaussSeq R True
                        (skipTo R (int (BATCHSIZE * (j div BATCHSIZE) div 2))
                           (clone_RNG R (setupRng P M R prd0 mdl0 rng0)))
                        (j mod BATCHSIZE)))) [0..<nPath]
        \<and> fst (mcParallelSimulAAD PA MA R N prd0 mdl0 rng0 nPath True nThread sched)
            = map (\<lambda>j. convert N (payoff PA prd0 (generatePath MA (setupModelAAD PA MA prd0 mdl0)
                     (gaussSeq R True
                        (skipTo R (int (BATCHSIZE * (j div BATCHSIZE) div 2))
                           (clone_RNG R (setupRngAAD PA MA R prd0 mdl0 rng0)))
                        (j mod BATCHSIZE))))) [0..<nPath])"
proof -
  have a1: "antitheticStep R True (r, g, False) = (snd (nextG R r), fst (nextG R r), True)"
    by (simp add: antitheticStep_def)
  have a2: "antitheticStep R True (r, g, True) = (r, map uminus g, False)"
    by (simp add: antitheticStep_def)
  have g1: "gaussSeq R True r (2 * k) = draw R r k"
    by (simp add: gaussSeq_def)
  have g2: "gaussSeq R True r (2 * k + 1) = map uminus (draw R r k)"
    by (simp add: gaussSeq_def)
  have s1: "mcSimul P M R prd0 mdl0 rng0 nPath True
         = map (\<lambda>i. payoff P prd0 (generatePath M (setupModel P M prd0 mdl0)
                  (gaussSeq R True (setupRng P M R prd0 mdl0 rng0) i))) [0..<nPath]"
    by (simp add: mcSimul_def mcSimul_exec_eq(1) pathValue_def)
  have s2: "cRng (mcSimul_exec P M R prd0 mdl0 rng0 nPath True)
         = (advance R ^^ ((nPath + 1) div 2)) (setupRng P M R prd0 mdl0 rng0)"
    by (simp add: mcSimul_exec_eq(3) drawsUsed_def)
  have s3: "antiPath (mcSimul_exec P M R prd0 mdl0 rng0 nPath True) = odd nPath"
    by (simp add: mcSimul_exec_eq(4))
  have d1: "fst (mcSimulAAD PA MA R N prd0 mdl0 rng0 nPath True)
         = map (\<lambda>i. convert N (payoff PA prd0 (generatePath MA (setupModelAAD PA MA prd0 mdl0)
                  (gaussSeq R True (setupRngAAD PA MA R prd0 mdl0 rng0) i)))) [0..<nPath]"
    by (simp add: mcSimulAAD_def Let_def mcSimulAAD_exec_eq(1) pathValue_def)
  have d2: "cRng (mcSimulAAD_exec PA MA R N prd0 mdl0 rng0 nPath True)
         = (advance R ^^ ((nPath + 1) div 2)) (setupRngAAD PA MA R prd0 mdl0 rng0)"
    by (simp add: mcSimulAAD_exec_eq(3) drawsUsed_def)
  have d3: "antiPath (mcSimulAAD_exec PA MA R N prd0 mdl0 rng0 nPath True) = odd nPath"
    by (simp add: mcSimulAAD_exec_eq(4))
  have par: "mcParallelSimul P M R prd0 mdl0 rng0 nPath True nThread sched
            = map (\<lambda>j. payoff P prd0 (generatePath M (setupModel P M prd0 mdl0)
                     (gaussSeq R True
                        (skipTo R (int (BATCHSIZE * (j div BATCHSIZE) div 2))
                           (clone_RNG R (setupRng P M R prd0 mdl0 rng0)))
                        (j mod BATCHSIZE)))) [0..<nPath]
        \<and> fst (mcParallelSimulAAD PA MA R N prd0 mdl0 rng0 nPath True nThread sched)
            = map (\<lambda>j. convert N (payoff PA prd0 (generatePath MA (setupModelAAD PA MA prd0 mdl0)
                     (gaussSeq R True
                        (skipTo R (int (BATCHSIZE * (j div BATCHSIZE) div 2))
                           (clone_RNG R (setupRngAAD PA MA R prd0 mdl0 rng0)))
                        (j mod BATCHSIZE))))) [0..<nPath]"
    if v: "valid_schedule nThread (length (spawnLoop 0 nPath)) sched"
    by (simp add: mcParallelSimul_def mcParallelSimulAAD_def Let_def
        mcParallelSimul_exec_eq(1)[OF v] mcParallelSimulAAD_exec_eq(1)[OF v]
        batchPathValue_antithetic)
  show ?thesis
    by (intro conjI impI a1 a2 g1 g2 s1 s2 s3 d1 d2 d3 par[THEN conjunct1] par[THEN conjunct2])
qed

theorem antithetic_alternation_witness:
  "valid_schedule 1 (length (spawnLoop 0 65)) [(1, 1), (0, 0)]
   \<and> mcParallelSimul forwardProduct spotModel counterRNG 100 100 (0, 0) 65 True 1 [(1, 1), (0, 0)]
       = map (\<lambda>j. payoff forwardProduct 100
                (generatePath spotModel (setupModel forwardProduct spotModel 100 100)
                   (gaussSeq counterRNG True
                      (skipTo counterRNG (int (BATCHSIZE * (j div BATCHSIZE) div 2))
                         (clone_RNG counterRNG
                            (setupRng forwardProduct spotModel counterRNG 100 100 (0, 0))))
                      (j mod BATCHSIZE)))) [0..<65]
   \<and> fst (mcParallelSimulAAD forwardProduct spotModel counterRNG realNumber 100 100 (0, 0) 65
            True 1 [(1, 1), (0, 0)])
       = map (\<lambda>j. convert realNumber (payoff forwardProduct 100
                (generatePath spotModel (setupModelAAD forwardProduct spotModel 100 100)
                   (gaussSeq counterRNG True
                      (skipTo counterRNG (int (BATCHSIZE * (j div BATCHSIZE) div 2))
                         (clone_RNG counterRNG
                            (setupRngAAD forwardProduct spotModel counterRNG 100 100 (0, 0))))
                      (j mod BATCHSIZE))))) [0..<65]"
proof -
  note T = antithetic_alternation[where P=forwardProduct and M=spotModel and R=counterRNG
      and PA=forwardProduct and MA=spotModel and N=realNumber and ?prd0.0=100 and ?mdl0.0=100
      and ?rng0.0="(0, 0)" and nPath=65 and nThread=1 and sched="[(1, 1), (0, 0)]"
      and r="(0, 0)" and g="[]" and k=0]
  from T have "valid_schedule 1 (length (spawnLoop 0 65)) [(1, 1), (0, 0)] \<longrightarrow>
      mcParallelSimul forwardProduct spotModel counterRNG 100 100 (0, 0) 65 True 1 [(1, 1), (0, 0)]
       = map (\<lambda>j. payoff forwardProduct 100
                (generatePath spotModel (setupModel forwardProduct spotModel 100 100)
                   (gaussSeq counterRNG True
                      (skipTo counterRNG (int (BATCHSIZE * (j div BATCHSIZE) div 2))
                         (clone_RNG counterRNG
                            (setupRng forwardProduct spotModel counterRNG 100 100 (0, 0))))
                      (j mod BATCHSIZE)))) [0..<65]
   \<and> fst (mcParallelSimulAAD forwardProduct spotModel counterRNG realNumber 100 100 (0, 0) 65
            True 1 [(1, 1), (0, 0)])
       = map (\<lambda>j. convert realNumber (payoff forwardProduct 100
                (generatePath spotModel (setupModelAAD forwardProduct spotModel 100 100)
                   (gaussSeq counterRNG True
                      (skipTo counterRNG (int (BATCHSIZE * (j div BATCHSIZE) div 2))
                         (clone_RNG counterRNG
                            (setupRngAAD forwardProduct spotModel counterRNG 100 100 (0, 0))))
                      (j mod BATCHSIZE))))) [0..<65]"
    by (elim conjE) assumption
  from this[THEN mp, OF valid_schedule_65] show ?thesis
    by (intro conjI valid_schedule_65) (erule conjunct1, erule conjunct2)
qed

section \<open>The batches of the parallel simulators\<close>

text \<open>
  Claim C8. The ranges of the batches queued for \<open>nPath\<close> paths, one after the other, are
  the indices \<open>0, ..., nPath - 1\<close> in order; a batch starts at a multiple of 64 and holds
  \<open>min (nPath - firstPath) 64 > 0\<close> paths; an index \<open>j < nPath\<close> lies in the range of exactly
  one batch. A task of either parallel simulator leaves the result at every index outside
  the range of its batch as it was. For every valid schedule, element \<open>j\<close> of the vector that
  either simulator returns is the value of path \<open>j - firstPath\<close> of a clone of the
  generator positioned by \<^verbatim>\<open>skipTo(firstPath)\<close>, or \<^verbatim>\<open>skipTo(firstPath / 2)\<close> under antithetic
  sampling, where \<open>firstPath = 64 * (j div 64)\<close> (that is \<^term>\<open>batchPathValue\<close>): the vector
  depends neither on the schedule nor on the number of threads.
\<close>

theorem parallel_batches_partition:
  fixes P :: "('p, real) Product" and M :: "('m, real) Model" and R :: "'r RNG"
    and PA :: "('p, 'T) Product" and MA :: "('m, 'T) Model"
    and s :: "('p, 'm, 'r, real) parallel_state" and sa :: "('p, 'm, 'r, 'T) parallel_aad_state"
  shows "concat (map (\<lambda>(f, n). [f..<f + n]) (spawnLoop 0 nPath)) = [0..<nPath]
     \<and> (\<forall>(f, n) \<in> set (spawnLoop 0 nPath).
           BATCHSIZE dvd f \<and> 0 < n \<and> n = min (nPath - f) BATCHSIZE)
     \<and> length (filter (\<lambda>(f, n). f \<le> j \<and> j < f + n) (spawnLoop 0 nPath))
         = (if j < nPath then 1 else 0)
     \<and> (j < f \<or> f + n \<le> j \<longrightarrow>
          res (mcParallelSimul_task P M R antithetic th (f, n) s) ! j = res s ! j)
     \<and> (j < f \<or> f + n \<le> j \<longrightarrow>
          res (mcParallelSimulAAD_task PA MA R N antithetic th (f, n) sa) ! j = res sa ! j)
     \<and> (valid_schedule nThread (length (spawnLoop 0 nPath)) sched \<longrightarrow>
          mcParallelSimul P M R prd0 mdl0 rng0 nPath antithetic nThread sched
            = map (batchPathValue P M R antithetic prd0 (setupModel P M prd0 mdl0)
                     (setupRng P M R prd0 mdl0 rng0)) [0..<nPath]
        \<and> fst (mcParallelSimulAAD PA MA R N prd0 mdl0 rng0 nPath antithetic nThread sched)
            = map (\<lambda>i. convert N (batchPathValue PA MA R antithetic prd0
                     (setupModelAAD PA MA prd0 mdl0) (setupRngAAD PA MA R prd0 mdl0 rng0) i))
                [0..<nPath])"
proof -
  have c1: "concat (map (\<lambda>(f, n). [f..<f + n]) (spawnLoop 0 nPath)) = [0..<nPath]"
    using spawnLoop_ranges[of 0 nPath] by simp
  have c2: "\<forall>(f, n) \<in> set (spawnLoop 0 nPath).
           BATCHSIZE dvd f \<and> 0 < n \<and> n = min (nPath - f) BATCHSIZE"
    using spawnLoop_task[of _ _ 0 nPath] by auto
  have c3: "length (filter (\<lambda>(f, n). f \<le> j \<and> j < f + n) (spawnLoop 0 nPath))
         = (if j < nPath then 1 else 0)"
    using spawnLoop_covers_once[of j 0 nPath] by simp
  have c4: "res (mcParallelSimul_task P M R antithetic th (f, n) s) ! j = res s ! j"
    if "j < f \<or> f + n \<le> j"
    using that by (rule mcParallelSimul_task_res_other)
  have c5: "res (mcParallelSimulAAD_task PA MA R N antithetic th (f, n) sa) ! j = res sa ! j"
    if "j < f \<or> f + n \<le> j"
    using that by (rule mcParallelSimulAAD_task_res_other)
  have c6: "mcParallelSimul P M R prd0 mdl0 rng0 nPath antithetic nThread sched
            = map (batchPathValue P M R antithetic prd0 (setupModel P M prd0 mdl0)
                     (setupRng P M R prd0 mdl0 rng0)) [0..<nPath]"
    if v: "valid_schedule nThread (length (spawnLoop 0 nPath)) sched"
    by (simp add: mcParallelSimul_def mcParallelSimul_exec_eq(1)[OF v])
  have c7: "fst (mcParallelSimulAAD PA MA R N prd0 mdl0 rng0 nPath antithetic nThread sched)
            = map (\<lambda>i. convert N (batchPathValue PA MA R antithetic prd0
                     (setupModelAAD PA MA prd0 mdl0) (setupRngAAD PA MA R prd0 mdl0 rng0) i))
                [0..<nPath]"
    if v: "valid_schedule nThread (length (spawnLoop 0 nPath)) sched"
    by (simp add: mcParallelSimulAAD_def Let_def mcParallelSimulAAD_exec_eq(1)[OF v])
  show ?thesis
    by (intro conjI impI c1 c2 c3 c4 c5 c6 c7)
qed

theorem parallel_batches_partition_witness:
  "valid_schedule 1 (length (spawnLoop 0 65)) [(1, 1), (0, 0)]
   \<and> mcParallelSimul forwardProduct spotModel counterRNG 100 100 (0, 0) 65 True 1 [(1, 1), (0, 0)]
       = map (batchPathValue forwardProduct spotModel counterRNG True 100
                (setupModel forwardProduct spotModel 100 100)
                (setupRng forwardProduct spotModel counterRNG 100 100 (0, 0))) [0..<65]
   \<and> fst (mcParallelSimulAAD forwardProduct spotModel counterRNG realNumber 100 100 (0, 0) 65
            True 1 [(1, 1), (0, 0)])
       = map (\<lambda>i. convert realNumber (batchPathValue forwardProduct spotModel counterRNG True 100
                (setupModelAAD forwardProduct spotModel 100 100)
                (setupRngAAD forwardProduct spotModel counterRNG 100 100 (0, 0)) i)) [0..<65]
   \<and> (0, 64) \<in> set (spawnLoop 0 65)
   \<and> BATCHSIZE dvd 0 \<and> (64 :: nat) = min (65 - 0) BATCHSIZE
   \<and> res (mcParallelSimul_task forwardProduct spotModel counterRNG True 1 (0, 64)
            (mcParallelSimul_exec forwardProduct spotModel counterRNG 100 100 (0, 0) 65 True 1 []))
         ! 64
       = res (mcParallelSimul_exec forwardProduct spotModel counterRNG 100 100 (0, 0) 65 True 1 [])
         ! 64
   \<and> res (mcParallelSimulAAD_task forwardProduct spotModel counterRNG realNumber True 1 (0, 64)
            (mcParallelSimulAAD_exec forwardProduct spotModel counterRNG realNumber 100 100 (0, 0)
               65 True 1 [])) ! 64
       = res (mcParallelSimulAAD_exec forwardProduct spotModel counterRNG realNumber 100 100 (0, 0)
               65 True 1 []) ! 64"
proof -
  note T = parallel_batches_partition[where P=forwardProduct and M=spotModel and R=counterRNG
      and PA=forwardProduct and MA=spotModel and N=realNumber and ?prd0.0=100 and ?mdl0.0=100
      and ?rng0.0="(0, 0)" and nPath=65 and nThread=1 and sched="[(1, 1), (0, 0)]"
      and antithetic=True and j=64 and f=0 and n=64 and th=1
      and s="mcParallelSimul_exec forwardProduct spotModel counterRNG 100 100 (0, 0) 65 True 1 []"
      and sa="mcParallelSimulAAD_exec forwardProduct spotModel counterRNG realNumber 100 100 (0, 0)
               65 True 1 []"]
  note c2 = T[THEN conjunct2, THEN conjunct1]
  note c4 = T[THEN conjunct2, THEN conjunct2, THEN conjunct2, THEN conjunct1]
  note c5 = T[THEN conjunct2, THEN conjunct2, THEN conjunct2, THEN conjunct2, THEN conjunct1]
  note c6 = T[THEN conjunct2, THEN conjunct2, THEN conjunct2, THEN conjunct2, THEN conjunct2]
  have m: "(0, 64) \<in> set (spawnLoop 0 65)" by (simp add: spawnLoop_65)
  have o: "(64 :: nat) < 0 \<or> 0 + 64 \<le> (64 :: nat)" by simp
  from c2[THEN bspec, OF m]
  have b: "BATCHSIZE dvd 0 \<and> (64 :: nat) = min (65 - 0) BATCHSIZE" by simp
  note r = c6[THEN mp, OF valid_schedule_65]
  show ?thesis
    by (intro conjI valid_schedule_65 r[THEN conjunct1] r[THEN conjunct2] m b[THEN conjunct1]
        b[THEN conjunct2] c4[THEN mp, OF o] c5[THEN mp, OF o])
qed

section \<open>The simulators leave their arguments alone\<close>

text \<open>
  Claim C9. In each of the four simulators the product, the model and the generator passed
  as arguments are, in the final state, the values that were passed, for every number of
  paths, antithetic flag, number of threads and schedule; the model that \<^verbatim>\<open>init\<close> and
  \<^verbatim>\<open>putOnTape\<close> act on and that generates the paths is the result of \<^verbatim>\<open>clone\<close> on the model
  argument. (Objects are values in these first conjuncts.)

  On a heap, where an argument is the address of an object of the caller: for every heap
  \<open>h\<close> and every three addresses, each simulator leaves every product, model and generator
  of \<open>h\<close> as it was, the arguments among them; the objects it adds are those returned by
  \<^verbatim>\<open>clone()\<close>; every call of \<^verbatim>\<open>init\<close>, \<^verbatim>\<open>putOnTape\<close>, \<^verbatim>\<open>nextG\<close> and \<^verbatim>\<open>skipTo\<close> is made on an address
  returned by \<^verbatim>\<open>clone()\<close>, and every adjoint written is that of a parameter of a model at
  such an address (\<open>onlyClonesWritten\<close>); the model and the generator that the simulator
  works with (\<^verbatim>\<open>cMdl\<close>, \<^verbatim>\<open>cRng\<close>, and \<^verbatim>\<open>cMdl[t]\<close>, \<^verbatim>\<open>cRng[t]\<close> of every initialised thread \<open>t\<close>) are at
  addresses returned by \<^verbatim>\<open>clone()\<close>. For \<^verbatim>\<open>mcParallelSimulAAD\<close> the schedule is a valid one.
\<close>

theorem simulators_leave_arguments_unchanged:
  fixes P :: "('p, real) Product" and M :: "('m, real) Model" and R :: "'r RNG"
    and PA :: "('p, 'T) Product" and MA :: "('m, 'T) Model" and h :: "('p, 'm, 'r) heap"
  shows "prd (mcSimul_exec P M R prd0 mdl0 rng0 nPath antithetic) = prd0
     \<and> mdl (mcSimul_exec P M R prd0 mdl0 rng0 nPath antithetic) = mdl0
     \<and> rng (mcSimul_exec P M R prd0 mdl0 rng0 nPath antithetic) = rng0
     \<and> prd (mcParallelSimul_exec P M R prd0 mdl0 rng0 nPath antithetic nThread sched) = prd0
     \<and> mdl (mcParallelSimul_exec P M R prd0 mdl0 rng0 nPath antithetic nThread sched) = mdl0
     \<and> rng (mcParallelSimul_exec P M R prd0 mdl0 rng0 nPath antithetic nThread sched) = rng0
     \<and> prd (mcSimulAAD_exec PA MA R N prd0 mdl0 rng0 nPath antithetic) = prd0
     \<and> mdl (mcSimulAAD_exec PA MA R N prd0 mdl0 rng0 nPath antithetic) = mdl0
     \<and> rng (mcSimulAAD_exec PA MA R N prd0 mdl0 rng0 nPath antithetic) = rng0
     \<and> prd (mcParallelSimulAAD_exec PA MA R N prd0 mdl0 rng0 nPath antithetic nThread sched) = prd0
     \<and> mdl (mcParallelSimulAAD_exec PA MA R N prd0 mdl0 rng0 nPath antithetic nThread sched) = mdl0
     \<and> rng (mcParallelSimulAAD_exec PA MA R N prd0 mdl0 rng0 nPath antithetic nThread sched) = rng0
     \<and> cMdl (mcSimul_exec P M R prd0 mdl0 rng0 nPath antithetic)
         = init_Model M (timeline P prd0) (clone_Model M mdl0)
     \<and> cMdl (mcParallelSimul_exec P M R prd0 mdl0 rng0 nPath antithetic nThread sched)
         = init_Model M (timeline P prd0) (clone_Model M mdl0)
     \<and> cMdl (mcSimulAAD_exec PA MA R N prd0 mdl0 rng0 nPath antithetic)
         = init_Model MA (timeline PA prd0) (putOnTape MA (clone_Model MA mdl0))
     \<and> onlyClonesWritten h
         (hp (mcSimul_heap P M R prdRef mdlRef rngRef nPath antithetic (atCall h)))
     \<and> cMdl_s (mcSimul_heap P M R prdRef mdlRef rngRef nPath antithetic (atCall h))
         \<in> set (clonedModels
                  (hp (mcSimul_heap P M R prdRef mdlRef rngRef nPath antithetic (atCall h))))
     \<and> cRng_s (mcSimul_heap P M R prdRef mdlRef rngRef nPath antithetic (atCall h))
         \<in> set (clonedRngs
                  (hp (mcSimul_heap P M R prdRef mdlRef rngRef nPath antithetic (atCall h))))
     \<and> onlyClonesWritten h
         (hp (mcParallelSimul_heap P M R prdRef mdlRef rngRef nPath antithetic nThread sched
                (atCall h)))
     \<and> cMdl_s (mcParallelSimul_heap P M R prdRef mdlRef rngRef nPath antithetic nThread sched
                 (atCall h))
         \<in> set (clonedModels
                  (hp (mcParallelSimul_heap P M R prdRef mdlRef rngRef nPath antithetic nThread
                         sched (atCall h))))
     \<and> cRng_s (mcParallelSimul_heap P M R prdRef mdlRef rngRef nPath antithetic nThread sched
                 (atCall h))
         \<in> set (clonedRngs
                  (hp (mcParallelSimul_heap P M R prdRef mdlRef rngRef nPath antithetic nThread
                         sched (atCall h))))
     \<and> onlyClonesWritten h
         (hp (mcSimulAAD_heap PA MA R N prdRef mdlRef rngRef nPath antithetic (atCall h)))
     \<and> cMdl_s (mcSimulAAD_heap PA MA R N prdRef mdlRef rngRef nPath antithetic (atCall h))
         \<in> set (clonedModels
                  (hp (mcSimulAAD_heap PA MA R N prdRef mdlRef rngRef nPath antithetic (atCall h))))
     \<and> cRng_s (mcSimulAAD_heap PA MA R N prdRef mdlRef rngRef nPath antithetic (atCall h))
         \<in> set (clonedRngs
                  (hp (mcSimulAAD_heap PA MA R N prdRef mdlRef rngRef nPath antithetic (atCall h))))
     \<and> (valid_schedule nThread (length (spawnLoop 0 nPath)) sched \<longrightarrow>
          onlyClonesWritten h
            (hp (mcParallelSimulAAD_heap PA MA R N prdRef mdlRef rngRef nPath antithetic nThread
                   sched (atCall h)))
        \<and> init_thr_s (mcParallelSimulAAD_heap PA MA R N prdRef mdlRef rngRef nPath antithetic
                         nThread sched (atCall h)) ! 0
        \<and> (t \<le> nThread
             \<and> init_thr_s (mcParallelSimulAAD_heap PA MA R N prdRef mdlRef rngRef nPath antithetic
                              nThread sched (atCall h)) ! t \<longrightarrow>
             (\<exists>a. cMdl_thr_s (mcParallelSimulAAD_heap PA MA R N prdRef mdlRef rngRef nPath
                                 antithetic nThread sched (atCall h)) ! t = Some a
                  \<and> a \<in> set (clonedModels
                               (hp (mcParallelSimulAAD_heap PA MA R N prdRef mdlRef rngRef nPath
                                      antithetic nThread sched (atCall h)))))
           \<and> (\<exists>b. cRng_thr_s (mcParallelSimulAAD_heap PA MA R N prdRef mdlRef rngRef nPath
                                 antithetic nThread sched (atCall h)) ! t = Some b
                  \<and> b \<in> set (clonedRngs
                               (hp (mcParallelSimulAAD_heap PA MA R N prdRef mdlRef rngRef nPath
                                      antithetic nThread sched (atCall h)))))))"
proof -
  have v: "prd (mcSimul_exec P M R prd0 mdl0 rng0 nPath antithetic) = prd0
     \<and> mdl (mcSimul_exec P M R prd0 mdl0 rng0 nPath antithetic) = mdl0
     \<and> rng (mcSimul_exec P M R prd0 mdl0 rng0 nPath antithetic) = rng0
     \<and> prd (mcParallelSimul_exec P M R prd0 mdl0 rng0 nPath antithetic nThread sched) = prd0
     \<and> mdl (mcParallelSimul_exec P M R prd0 mdl0 rng0 nPath antithetic nThread sched) = mdl0
     \<and> rng (mcParallelSimul_exec P M R prd0 mdl0 rng0 nPath antithetic nThread sched) = rng0
     \<and> prd (mcSimulAAD_exec PA MA R N prd0 mdl0 rng0 nPath antithetic) = prd0
     \<and> mdl (mcSimulAAD_exec PA MA R N prd0 mdl0 rng0 nPath antithetic) = mdl0
     \<and> rng (mcSimulAAD_exec PA MA R N prd0 mdl0 rng0 nPath antithetic) = rng0
     \<and> prd (mcParallelSimulAAD_exec PA MA R N prd0 mdl0 rng0 nPath antithetic nThread sched) = prd0
     \<and> mdl (mcParallelSimulAAD_exec PA MA R N prd0 mdl0 rng0 nPath antithetic nThread sched) = mdl0
     \<and> rng (mcParallelSimulAAD_exec PA MA R N prd0 mdl0 rng0 nPath antithetic nThread sched) = rng0
     \<and> cMdl (mcSimul_exec P M R prd0 mdl0 rng0 nPath antithetic)
         = init_Model M (timeline P prd0) (clone_Model M mdl0)
     \<and> cMdl (mcParallelSimul_exec P M R prd0 mdl0 rng0 nPath antithetic nThread sched)
         = init_Model M (timeline P prd0) (clone_Model M mdl0)
     \<and> cMdl (mcSimulAAD_exec PA MA R N prd0 mdl0 rng0 nPath antithetic)
         = init_Model MA (timeline PA prd0) (putOnTape MA (clone_Model MA mdl0))"
    by (simp add: mcSimul_exec_eq mcSimulAAD_exec_eq mcParallelSimul_exec_frame
        mcParallelSimulAAD_exec_frame setupModel_def setupModelAAD_def)
  note a = mcSimul_heap_frame[of h P M R prdRef mdlRef rngRef nPath antithetic,
      unfolded clonesOnly_def onlyClonesWritten_atCall_left]
  note b = mcParallelSimul_heap_frame[of h P M R prdRef mdlRef rngRef nPath antithetic nThread sched,
      unfolded clonesOnly_def onlyClonesWritten_atCall_left]
  note c = mcSimulAAD_heap_frame[of h PA MA R N prdRef mdlRef rngRef nPath antithetic,
      unfolded clonesOnlyTape_def clonesOnly_def onlyClonesWritten_atCall_left, THEN conjunct1]
  have d: "onlyClonesWritten h
            (hp (mcParallelSimulAAD_heap PA MA R N prdRef mdlRef rngRef nPath antithetic nThread
                   sched (atCall h)))
        \<and> init_thr_s (mcParallelSimulAAD_heap PA MA R N prdRef mdlRef rngRef nPath antithetic
                         nThread sched (atCall h)) ! 0
        \<and> (t \<le> nThread
             \<and> init_thr_s (mcParallelSimulAAD_heap PA MA R N prdRef mdlRef rngRef nPath antithetic
                              nThread sched (atCall h)) ! t \<longrightarrow>
             (\<exists>a. cMdl_thr_s (mcParallelSimulAAD_heap PA MA R N prdRef mdlRef rngRef nPath
                                 antithetic nThread sched (atCall h)) ! t = Some a
                  \<and> a \<in> set (clonedModels
                               (hp (mcParallelSimulAAD_heap PA MA R N prdRef mdlRef rngRef nPath
                                      antithetic nThread sched (atCall h)))))
           \<and> (\<exists>b. cRng_thr_s (mcParallelSimulAAD_heap PA MA R N prdRef mdlRef rngRef nPath
                                 antithetic nThread sched (atCall h)) ! t = Some b
                  \<and> b \<in> set (clonedRngs
                               (hp (mcParallelSimulAAD_heap PA MA R N prdRef mdlRef rngRef nPath
                                      antithetic nThread sched (atCall h))))))"
    if vs: "valid_schedule nThread (length (spawnLoop 0 nPath)) sched"
  proof -
    note F = mcParallelSimulAAD_heap_frame[OF vs, where P=PA and M=MA and R=R and N=N
        and prdRef=prdRef and mdlRef=mdlRef and rngRef=rngRef and antithetic=antithetic and h=h]
    from F(1) have "onlyClonesWritten h
            (hp (mcParallelSimulAAD_heap PA MA R N prdRef mdlRef rngRef nPath antithetic nThread
                   sched (atCall h)))"
      unfolding threadsClonesOnly_def onlyClonesWritten_atCall_left by (elim conjE)
    moreover from F(1) have "t \<le> nThread
             \<and> init_thr_s (mcParallelSimulAAD_heap PA MA R N prdRef mdlRef rngRef nPath antithetic
                              nThread sched (atCall h)) ! t \<longrightarrow>
             (\<exists>a. cMdl_thr_s (mcParallelSimulAAD_heap PA MA R N prdRef mdlRef rngRef nPath
                                 antithetic nThread sched (atCall h)) ! t = Some a
                  \<and> a \<in> set (clonedModels
                               (hp (mcParallelSimulAAD_heap PA MA R N prdRef mdlRef rngRef nPath
                                      antithetic nThread sched (atCall h)))))
           \<and> (\<exists>b. cRng_thr_s (mcParallelSimulAAD_heap PA MA R N prdRef mdlRef rngRef nPath
                                 antithetic nThread sched (atCall h)) ! t = Some b
                  \<and> b \<in> set (clonedRngs
                               (hp (mcParallelSimulAAD_heap PA MA R N prdRef mdlRef rngRef nPath
                                      antithetic nThread sched (atCall h)))))"
      unfolding threadsClonesOnly_def by blast
    ultimately show ?thesis using F(2) by (intro conjI)
  qed
  from d have d': "valid_schedule nThread (length (spawnLoop 0 nPath)) sched \<longrightarrow>
          onlyClonesWritten h
            (hp (mcParallelSimulAAD_heap PA MA R N prdRef mdlRef rngRef nPath antithetic nThread
                   sched (atCall h)))
        \<and> init_thr_s (mcParallelSimulAAD_heap PA MA R N prdRef mdlRef rngRef nPath antithetic
                         nThread sched (atCall h)) ! 0
        \<and> (t \<le> nThread
             \<and> init_thr_s (mcParallelSimulAAD_heap PA MA R N prdRef mdlRef rngRef nPath antithetic
                              nThread sched (atCall h)) ! t \<longrightarrow>
             (\<exists>a. cMdl_thr_s (mcParallelSimulAAD_heap PA MA R N prdRef mdlRef rngRef nPath
                                 antithetic nThread sched (atCall h)) ! t = Some a
                  \<and> a \<in> set (clonedModels
                               (hp (mcParallelSimulAAD_heap PA MA R N prdRef mdlRef rngRef nPath
                                      antithetic nThread sched (atCall h)))))
           \<and> (\<exists>b. cRng_thr_s (mcParallelSimulAAD_heap PA MA R N prdRef mdlRef rngRef nPath
                                 antithetic nThread sched (atCall h)) ! t = Some b
                  \<and> b \<in> set (clonedRngs
                               (hp (mcParallelSimulAAD_heap PA MA R N prdRef mdlRef rngRef nPath
                                      antithetic nThread sched (atCall h))))))"
    by (rule impI)
  show ?thesis
    using v a b c d' by blast
qed

theorem simulators_leave_arguments_unchanged_witness:
  "valid_schedule 1 (length (spawnLoop 0 65)) [(1, 1), (0, 0)]
   \<and> onlyClonesWritten exampleHeap
       (hp (mcParallelSimulAAD_heap forwardProduct spotModel counterRNG realNumber 0 0 0 65 True 1
              [(1, 1), (0, 0)] (atCall exampleHeap)))
   \<and> (\<exists>a. cMdl_thr_s (mcParallelSimulAAD_heap forwardProduct spotModel counterRNG realNumber
                          0 0 0 65 True 1 [(1, 1), (0, 0)] (atCall exampleHeap)) ! 0 = Some a
          \<and> a \<in> set (clonedModels
                       (hp (mcParallelSimulAAD_heap forwardProduct spotModel counterRNG realNumber
                              0 0 0 65 True 1 [(1, 1), (0, 0)] (atCall exampleHeap)))))
   \<and> onlyClonesWritten exampleHeap
       (hp (mcSimul_heap forwardProduct spotModel counterRNG 0 0 0 2 True (atCall exampleHeap)))
   \<and> rngs (hp (mcSimul_heap forwardProduct spotModel counterRNG 0 0 0 2 True (atCall exampleHeap)))
     = [(0, 0), (1, 1)]
   \<and> clonedRngs (hp (mcSimul_heap forwardProduct spotModel counterRNG 0 0 0 2 True
                        (atCall exampleHeap))) = [1]
   \<and> writtenRngs (hp (mcSimul_heap forwardProduct spotModel counterRNG 0 0 0 2 True
                         (atCall exampleHeap))) = [1, 1]
   \<and> clonedModels (hp (mcSimulAAD_heap forwardProduct spotModel counterRNG realNumber 0 0 0 2 False
                          (atCall exampleHeap))) = [1]
   \<and> writtenModels (hp (mcSimulAAD_heap forwardProduct spotModel counterRNG realNumber 0 0 0 2
                           False (atCall exampleHeap))) = [1, 1]
   \<and> adjointsWritten (hp (mcSimulAAD_heap forwardProduct spotModel counterRNG realNumber 0 0 0 2
                             False (atCall exampleHeap))) = [1, 1, 1]"
proof -
  note T = simulators_leave_arguments_unchanged[where P=forwardProduct and M=spotModel
      and R=counterRNG and PA=forwardProduct and MA=spotModel and N=realNumber and h=exampleHeap
      and prdRef=0 and mdlRef=0 and rngRef=0 and nPath=65 and antithetic=True and nThread=1
      and sched="[(1, 1), (0, 0)]" and t=0 and ?prd0.0=100 and ?mdl0.0=100 and ?rng0.0="(0, 0)"]
  note U = simulators_leave_arguments_unchanged[where P=forwardProduct and M=spotModel
      and R=counterRNG and PA=forwardProduct and MA=spotModel and N=realNumber and h=exampleHeap
      and prdRef=0 and mdlRef=0 and rngRef=0 and nPath=2 and antithetic=True and nThread=1
      and sched="[]" and t=0 and ?prd0.0=100 and ?mdl0.0=100 and ?rng0.0="(0, 0)"]
  from T valid_schedule_65 have a: "onlyClonesWritten exampleHeap
       (hp (mcParallelSimulAAD_heap forwardProduct spotModel counterRNG realNumber 0 0 0 65 True 1
              [(1, 1), (0, 0)] (atCall exampleHeap)))"
    by blast
  from T valid_schedule_65 have b: "\<exists>a. cMdl_thr_s (mcParallelSimulAAD_heap forwardProduct
                          spotModel counterRNG realNumber
                          0 0 0 65 True 1 [(1, 1), (0, 0)] (atCall exampleHeap)) ! 0 = Some a
          \<and> a \<in> set (clonedModels
                       (hp (mcParallelSimulAAD_heap forwardProduct spotModel counterRNG realNumber
                              0 0 0 65 True 1 [(1, 1), (0, 0)] (atCall exampleHeap))))"
    by blast
  from U have c: "onlyClonesWritten exampleHeap
       (hp (mcSimul_heap forwardProduct spotModel counterRNG 0 0 0 2 True (atCall exampleHeap)))"
    by blast
  have u2: "[0..<2] = [0, 1]" and u1: "[0..<1] = [0]" by (simp_all add: upt_rec)
  have d: "hp (mcSimul_heap forwardProduct spotModel counterRNG 0 0 0 2 True (atCall exampleHeap))
      = \<lparr>products = [100], models = [100, 100], rngs = [(0, 0), (1, 1)],
         clonedModels = [1], clonedRngs = [1], writtenModels = [1], writtenRngs = [1, 1],
         onTape = (\<lambda>tp. [0]), adjointsWritten = []\<rparr>"
    by (simp add: mcSimul_heap_def mcSimul_heap_body_def antitheticStep_at_def Model_clone_at_def
        RNG_clone_at_def Model_init_at_def RNG_init_at_def RNG_nextG_at_def atCall_def
        exampleHeap_def forLoop_fold u2 Let_def forwardProduct_def spotModel_def counterRNG_def)
  have e: "hp (mcSimulAAD_heap forwardProduct spotModel counterRNG realNumber 0 0 0 2 False
                 (atCall exampleHeap))
      = \<lparr>products = [100], models = [100, 100], rngs = [(0, 0), (1, 2)],
         clonedModels = [1], clonedRngs = [1], writtenModels = [1, 1], writtenRngs = [1, 1, 1],
         onTape = (\<lambda>tp. [0])(0 := [1]), adjointsWritten = [1, 1, 1]\<rparr>"
    by (simp add: mcSimulAAD_heap_def mcSimulAAD_heap_body_def mcSimul_heap_body_def
        antitheticStep_at_def Model_clone_at_def RNG_clone_at_def Model_init_at_def
        RNG_init_at_def RNG_nextG_at_def Tape_rewind_at_def Model_putOnTape_at_def
        Tape_propagate_at_def atCall_def exampleHeap_def forLoop_fold u2 Let_def
        forwardProduct_def spotModel_def counterRNG_def realNumber_def)
  show ?thesis
    by (intro conjI valid_schedule_65 a b c) (simp_all add: d e)
qed

section \<open>blackScholesIvol: results\<close>

lemma ivol_bisect_pl_untouched:
  "\<forall>m. l s < m \<and> m \<le> u s \<longrightarrow> prem < price m \<Longrightarrow>
   pl (ivol_bisect price prem s) = pl s"
proof (induction price prem s rule: ivol_bisect.induct)
  case (1 price prem s)
  show ?case
  proof (cases "u s - l s > 1 / 10 ^ 12")
    case False
    then show ?thesis by (subst ivol_bisect.simps) simp
  next
    case True
    define m where "m = 0.5 * (u s + l s)"
    from True have lm: "l s < m" and mu: "m \<le> u s" by (simp_all add: m_def)
    with "1.prems" have pm: "prem < price m" by blast
    define s2 where "s2 = s\<lparr>p := Some (price m), u := m, pu := Some (price m)\<rparr>"
    have step: "ivol_bisect price prem s = ivol_bisect price prem s2"
      using True pm by (subst ivol_bisect.simps) (simp add: Let_def m_def s2_def)
    have "\<forall>x. l s2 < x \<and> x \<le> u s2 \<longrightarrow> prem < price x"
      using "1.prems" mu by (simp add: s2_def)
    with "1.IH"(1)[OF True m_def refl pm] have "pl (ivol_bisect price prem s2) = pl s2"
      by (simp add: s2_def)
    with step show ?thesis by (simp add: s2_def)
  qed
qed

text \<open>
  Claim C10 (\<^verbatim>\<open>pl\<close> is assigned before the return statement reads it). The only
  assignment to \<^verbatim>\<open>pl\<close> is in the \<^verbatim>\<open>else\<close> branch of the bisection. When the premium is the
  price at the lower end of the bracket, \<open>prem = blackScholes(spot, strike, 0.05, mat)\<close>,
  and the price increases with the volatility, neither search loop moves its end and
  every midpoint prices above the premium: each turn takes the first branch, and the
  return statement reads \<^verbatim>\<open>pl\<close> unassigned.
\<close>

theorem blackScholesIvol_reads_unassigned_pl:
  assumes guard: "\<not> prem \<le> max 0 (spot' - strike) + EPS G"
    and lower: "\<not> blackScholes G spot' strike 0.05 mat > prem"
    and above: "\<forall>m. 0.05 < m \<and> m \<le> 0.5 \<longrightarrow> prem < blackScholes G spot' strike m mat"
  shows "blackScholesIvol G spot' strike prem mat = Some (Inl UninitialisedRead)"
proof -
  let ?price = "\<lambda>vol. blackScholes G spot' strike vol mat"
  let ?s0 = "\<lparr>p = None, pu = Some (?price 0.5), pl = None, u = 0.5, l = 0.05\<rparr>"
  from above have "0.05 < (0.5 :: real) \<and> (0.5 :: real) \<le> 0.5 \<longrightarrow> prem < ?price 0.5"
    by blast
  then have "\<not> ?price 0.5 < prem" by simp
  then have up: "ivol_upper ?price prem 0.5 = Some 0.5"
    by (subst ivol_upper.simps) simp
  from lower have lo: "ivol_lower ?price prem 0.05 = Some 0.05"
    by (subst ivol_lower.simps) simp
  have "\<forall>m. l ?s0 < m \<and> m \<le> u ?s0 \<longrightarrow> prem < ?price m"
    using above by simp
  from ivol_bisect_pl_untouched[OF this]
  have "pl (ivol_bisect ?price prem ?s0) = None"
    by simp
  then have fin:
    "(case (pl (ivol_bisect ?price prem ?s0), pu (ivol_bisect ?price prem ?s0)) of
        (Some plv, Some puv) \<Rightarrow>
          Some (Inr (l (ivol_bisect ?price prem ?s0) + (prem - plv) / (puv - plv)
                      * (u (ivol_bisect ?price prem ?s0) - l (ivol_bisect ?price prem ?s0))))
      | _ \<Rightarrow> Some (Inl UninitialisedRead)) = Some (Inl UninitialisedRead)"
    by simp
  show ?thesis
    unfolding blackScholesIvol_def Let_def
    by (simp only: guard if_False up lo option.case fin)
qed

theorem blackScholesIvol_reads_unassigned_pl_witness:
  "\<not> (5 / 4 :: real) \<le> max 0 (100 - 100) + EPS \<lparr>normalCdf = uniformCdf, EPS = 1 / 10 ^ 8\<rparr>
   \<and> \<not> blackScholes \<lparr>normalCdf = uniformCdf, EPS = 1 / 10 ^ 8\<rparr> 100 100 0.05 1 > 5 / 4
   \<and> blackScholesIvol \<lparr>normalCdf = uniformCdf, EPS = 1 / 10 ^ 8\<rparr> 100 100 (5 / 4) 1
       = Some (Inl UninitialisedRead)"
proof -
  let ?G = "\<lparr>normalCdf = uniformCdf, EPS = 1 / 10 ^ 8\<rparr>"
  have price: "blackScholes ?G 100 100 v 1 = 25 * v" if "0.05 \<le> v" "v \<le> 0.5" for v
    using that by (simp add: blackScholes_def uniformCdf_def Let_def max_def min_def field_simps)
  have g: "\<not> (5 / 4 :: real) \<le> max 0 (100 - 100) + EPS ?G" by simp
  have lo: "\<not> blackScholes ?G 100 100 0.05 1 > 5 / 4" using price[of "0.05"] by simp
  have ab: "\<forall>m. 0.05 < m \<and> m \<le> 0.5 \<longrightarrow> 5 / 4 < blackScholes ?G 100 100 m 1"
  proof (intro allI impI)
    fix m :: real
    assume "0.05 < m \<and> m \<le> 0.5"
    then show "5 / 4 < blackScholes ?G 100 100 m 1" using price[of m] by simp
  qed
  show ?thesis
    by (intro conjI g lo blackScholesIvol_reads_unassigned_pl[OF g lo ab])
qed

end
